(* ===== verification/Prelude.thy ===== *)
theory Prelude
  imports Main "HOL-Library.AList" "HOL-Library.Word" "HOL-Library.Sublist"
begin

section \<open>Results, programs and Go maps\<close>

text \<open>
  What every component shares.

  \<^item> Go errors. A function that returns \<open>(T, error)\<close> has the type \<open>'a res\<close>: \<open>Inl\<close> carries
    the error, \<open>Inr\<close> the value. \<open>Errorf f as\<close> is the error of \<open>fmt.Errorf\<close> (or
    \<open>status.Errorf\<close>) with the format \<open>f\<close> of the source and its string arguments; \<open>Ext\<close> is
    an error handed on from a library or a service; \<open>Panic\<close> is a run-time panic (nil
    dereference, index out of range, failed type assertion) and \<open>Fatal\<close> is
    \<open>log.Fatalf\<close>: both end the process.
  \<^item> Effects. \<open>('s, 'a) prog\<close> is a computation on a state \<open>'s\<close> that returns a result and the
    state it leaves, also when it fails: an early return keeps the effects made before it.
  \<^item> Go maps with string keys. A \<open>'v gomap\<close> is an association list with distinct keys whose
    order is the order in which \<open>range\<close> visits it. Go leaves this order open, so what is
    proved of a map is proved for every order.
\<close>

named_theorems res_simps \<open>unfolding of the result and program combinators\<close>

subsection \<open>Errors and results\<close>

datatype err =
    Errorf string "string list"
  | Ext string
  | Panic string
  | Fatal string

type_synonym 'a res = "err + 'a"

fun res_bind :: "'a res \<Rightarrow> ('a \<Rightarrow> 'b res) \<Rightarrow> 'b res" where
  "res_bind (Inl e) f = Inl e"
| "res_bind (Inr x) f = f x"

definition deref :: "'a option \<Rightarrow> 'a res" where
  "deref p = (case p of None \<Rightarrow> Inl (Panic ''nil pointer dereference'') | Some x \<Rightarrow> Inr x)"

definition is_panic :: "err \<Rightarrow> bool" where
  "is_panic e = (case e of Panic s \<Rightarrow> True | _ \<Rightarrow> False)"

lemma deref_simps [simp]:
  "deref (Some x) = Inr x"
  "deref None = Inl (Panic ''nil pointer dereference'')"
  by (simp_all add: deref_def)

lemma res_bind_Inr: "res_bind r f = Inr y \<longleftrightarrow> (\<exists>x. r = Inr x \<and> f x = Inr y)"
  by (cases r) auto

lemma res_bind_cong [fundef_cong]:
  "r = r' \<Longrightarrow> (\<And>x. r' = Inr x \<Longrightarrow> f x = g x) \<Longrightarrow> res_bind r f = res_bind r' g"
  by (cases r') auto

lemma res_bind_return [simp]: "res_bind r Inr = r"
  by (cases r) auto

lemma res_bind_assoc: "res_bind (res_bind r f) g = res_bind r (\<lambda>x. res_bind (f x) g)"
  by (cases r) auto

text \<open>\<open>for _, x := range xs\<close> with early return on an error.\<close>

fun for_res :: "('a \<Rightarrow> 's \<Rightarrow> 's res) \<Rightarrow> 'a list \<Rightarrow> 's \<Rightarrow> 's res" where
  "for_res f [] s = Inr s"
| "for_res f (x # xs) s = res_bind (f x s) (for_res f xs)"

lemma for_res_append: "for_res f (xs @ ys) s = res_bind (for_res f xs s) (for_res f ys)"
proof (induction xs arbitrary: s)
  case (Cons x xs)
  then show ?case by (cases "f x s") auto
qed simp

text \<open>A loop that changes no state accepts iff its body accepts every element.\<close>

lemma for_res_check:
  assumes "\<And>x. x \<in> set xs \<Longrightarrow> f x s = (if P x then Inr s else Inl (e x))"
  shows "for_res f xs s = Inr s \<longleftrightarrow> (\<forall>x \<in> set xs. P x)"
  using assms by (induction xs) auto

lemma for_res_check_cases:
  assumes "\<And>x. x \<in> set xs \<Longrightarrow> f x s = Inr s \<or> (\<exists>e. f x s = Inl e)"
  shows "for_res f xs s = Inr s' \<longleftrightarrow> s' = s \<and> (\<forall>x \<in> set xs. f x s = Inr s)"
  using assms
proof (induction xs)
  case (Cons x xs)
  from Cons.prems have "f x s = Inr s \<or> (\<exists>e. f x s = Inl e)" by simp
  with Cons show ?case by (elim disjE) auto
qed auto

lemma for_res_invariant:
  assumes "for_res f xs s = Inr s'" "I s"
    and "\<And>x s s'. x \<in> set xs \<Longrightarrow> I s \<Longrightarrow> f x s = Inr s' \<Longrightarrow> I s'"
  shows "I s'"
  using assms by (induction xs arbitrary: s) (auto simp: res_bind_Inr)

lemma for_res_total:
  assumes "I s" and "\<And>x s. x \<in> set xs \<Longrightarrow> I s \<Longrightarrow> \<exists>s'. f x s = Inr s' \<and> I s'"
  shows "\<exists>s'. for_res f xs s = Inr s' \<and> I s'"
  using assms
proof (induction xs arbitrary: s)
  case (Cons x xs)
  then obtain s1 where "f x s = Inr s1" "I s1" by (metis list.set_intros(1))
  moreover from Cons this(2) have "\<exists>s'. for_res f xs s1 = Inr s' \<and> I s'" by simp
  ultimately show ?case by simp
qed simp

text \<open>A \<open>range\<close> loop that writes a field of every entry and may return early.\<close>

fun for_map :: "(string \<Rightarrow> 'v \<Rightarrow> 'w res) \<Rightarrow> (string \<times> 'v) list \<Rightarrow> (string \<times> 'w) list res" where
  "for_map f [] = Inr []"
| "for_map f ((k, v) # m) = res_bind (f k v) (\<lambda>v'. res_bind (for_map f m) (\<lambda>m'. Inr ((k, v') # m')))"

lemma for_map_keys: "for_map f m = Inr m' \<Longrightarrow> map fst m' = map fst m"
  by (induction m arbitrary: m') (auto simp: res_bind_Inr)

lemma for_map_map_of:
  "for_map f m = Inr m' \<Longrightarrow> map_of m k = Some v \<Longrightarrow> \<exists>v'. f k v = Inr v' \<and> map_of m' k = Some v'"
  by (induction m arbitrary: m') (auto simp: res_bind_Inr split: if_splits)

lemma for_map_ok_iff: "(\<exists>m'. for_map f m = Inr m') \<longleftrightarrow> (\<forall>(k, v) \<in> set m. \<exists>v'. f k v = Inr v')"
  by (induction m) (auto simp: res_bind_Inr)

subsection \<open>Programs\<close>

type_synonym ('s, 'a) prog = "'s \<Rightarrow> 'a res \<times> 's"

definition pret :: "'a \<Rightarrow> ('s, 'a) prog" where
  "pret x = (\<lambda>s. (Inr x, s))"

definition pfail :: "err \<Rightarrow> ('s, 'a) prog" where
  "pfail e = (\<lambda>s. (Inl e, s))"

definition plift :: "'a res \<Rightarrow> ('s, 'a) prog" where
  "plift r = (\<lambda>s. (r, s))"

definition pbind :: "('s, 'a) prog \<Rightarrow> ('a \<Rightarrow> ('s, 'b) prog) \<Rightarrow> ('s, 'b) prog" where
  "pbind p f = (\<lambda>s. case p s of (Inl e, t) \<Rightarrow> (Inl e, t) | (Inr x, t) \<Rightarrow> f x t)"

definition pseq :: "('s, unit) prog \<Rightarrow> ('s, 'b) prog \<Rightarrow> ('s, 'b) prog" where
  "pseq p q = pbind p (\<lambda>_. q)"

text \<open>
  \<open>ptry p\<close> runs \<open>p\<close> and hands its error to the caller, as \<open>x, err := p()\<close> without a return; a
  panic and \<open>log.Fatal\<close> still end the program.
\<close>

definition aborts :: "'a res \<Rightarrow> bool" where
  "aborts r = (case r of Inl (Panic s) \<Rightarrow> True | Inl (Fatal s) \<Rightarrow> True | _ \<Rightarrow> False)"

definition ptry :: "('s, 'a) prog \<Rightarrow> ('s, 'a res) prog" where
  "ptry p = (\<lambda>s. case p s of (r, t) \<Rightarrow>
     (case r of Inl e \<Rightarrow> if aborts r then (Inl e, t) else (Inr r, t) | Inr x \<Rightarrow> (Inr r, t)))"

lemma aborts_simps [simp]:
  "\<not> aborts (Inr x)" "aborts (Inl (Panic s))" "aborts (Inl (Fatal s))"
  "\<not> aborts (Inl (Errorf f as))" "\<not> aborts (Inl (Ext s))"
  by (simp_all add: aborts_def)

fun pfor :: "('a \<Rightarrow> ('s, unit) prog) \<Rightarrow> 'a list \<Rightarrow> ('s, unit) prog" where
  "pfor f [] = pret ()"
| "pfor f (x # xs) = pseq (f x) (pfor f xs)"

definition succeeds :: "('s, 'a) prog \<Rightarrow> 's \<Rightarrow> bool" where
  "succeeds p s = (case fst (p s) of Inl e \<Rightarrow> False | Inr x \<Rightarrow> True)"

lemma pbind_Inr:
  "pbind p f s = (Inr y, u) \<longleftrightarrow> (\<exists>x t. p s = (Inr x, t) \<and> f x t = (Inr y, u))"
  by (auto simp: pbind_def split: prod.splits sum.splits)

lemma pseq_Inr:
  "pseq p q s = (Inr y, u) \<longleftrightarrow> (\<exists>t. p s = (Inr (), t) \<and> q t = (Inr y, u))"
  by (auto simp: pseq_def pbind_Inr)

lemma pret_Inr: "pret x s = (Inr y, t) \<longleftrightarrow> y = x \<and> t = s"
  by (auto simp: pret_def)

lemma pfail_Inr: "pfail e s = (Inr y, t) \<longleftrightarrow> False"
  by (simp add: pfail_def)

lemma plift_Inr: "plift r s = (Inr y, t) \<longleftrightarrow> r = Inr y \<and> t = s"
  by (auto simp: plift_def)

lemma ptry_Inr: "ptry p s = (Inr r, t) \<longleftrightarrow> p s = (r, t) \<and> \<not> aborts r"
  by (auto simp: ptry_def split: prod.splits sum.splits)

lemmas prog_Inr = pbind_Inr pseq_Inr pret_Inr pfail_Inr plift_Inr ptry_Inr

text \<open>Evaluation of a program on a concrete state.\<close>

lemma prog_eval [res_simps]:
  "p s = (Inr x, t) \<Longrightarrow> pbind p f s = f x t"
  "p s = (Inl e, t) \<Longrightarrow> pbind p f s = (Inl e, t)"
  "q s = (Inr (), t) \<Longrightarrow> pseq q r s = r t"
  "q s = (Inl e, t) \<Longrightarrow> pseq q r s = (Inl e, t)"
  "pret y s = (Inr y, s)"
  "pfail e s = (Inl e, s)"
  "plift w s = (w, s)"
  "p s = (Inr x, t) \<Longrightarrow> ptry p s = (Inr (Inr x), t)"
  by (simp_all add: pbind_def pseq_def pret_def pfail_def plift_def ptry_def split: prod.split)

lemma pfor_invariant:
  assumes "pfor f xs s = (Inr (), t)" "I s"
    and "\<And>x s t. x \<in> set xs \<Longrightarrow> I s \<Longrightarrow> f x s = (Inr (), t) \<Longrightarrow> I t"
  shows "I t"
  using assms by (induction xs arbitrary: s) (auto simp: prog_Inr)

lemma pfor_total:
  assumes "\<And>x s. x \<in> set xs \<Longrightarrow> \<exists>t. f x s = (Inr (), t)"
  shows "\<exists>t. pfor f xs s = (Inr (), t)"
  using assms
proof (induction xs arbitrary: s)
  case (Cons x xs)
  then obtain t where "f x s = (Inr (), t)" by (metis list.set_intros(1))
  moreover from Cons have "\<exists>u. pfor f xs t = (Inr (), u)" by simp
  ultimately show ?case by (auto simp: prog_Inr intro: exI)
qed (simp add: prog_Inr)

subsection \<open>Go maps\<close>

type_synonym 'v gomap = "(string \<times> 'v) list"

abbreviation gget :: "'v gomap \<Rightarrow> string \<Rightarrow> 'v option" where
  "gget m k \<equiv> map_of m k"

abbreviation gput :: "string \<Rightarrow> 'v \<Rightarrow> 'v gomap \<Rightarrow> 'v gomap" where
  "gput k v m \<equiv> AList.update k v m"

abbreviation gdel :: "string \<Rightarrow> 'v gomap \<Rightarrow> 'v gomap" where
  "gdel k m \<equiv> AList.delete k m"

abbreviation gkeys :: "'v gomap \<Rightarrow> string set" where
  "gkeys m \<equiv> fst ` set m"

definition gomap_ok :: "'v gomap \<Rightarrow> bool" where
  "gomap_ok m \<longleftrightarrow> distinct (map fst m)"

lemma gget_gput [simp]: "gget (gput k v m) k' = (if k' = k then Some v else gget m k')"
  by (simp add: update_conv')

lemma gget_gdel [simp]: "gget (gdel k m) k' = (if k' = k then None else gget m k')"
  by (simp add: delete_conv')

lemma gkeys_gput [simp]: "gkeys (gput k v m) = insert k (gkeys m)"
  by (simp add: dom_update)

lemma gkeys_gdel [simp]: "gkeys (gdel k m) = gkeys m - {k}"
  by (auto simp: dom_map_of_conv_image_fst [symmetric] split: if_splits)

lemma gomap_ok_gput [simp, intro]: "gomap_ok m \<Longrightarrow> gomap_ok (gput k v m)"
  by (simp add: gomap_ok_def distinct_update)

lemma gomap_ok_gdel [simp, intro]: "gomap_ok m \<Longrightarrow> gomap_ok (gdel k m)"
  by (simp add: gomap_ok_def distinct_delete)

lemma gomap_ok_Nil [simp]: "gomap_ok []"
  by (simp add: gomap_ok_def)

lemma gget_in_set: "gget m k = Some v \<Longrightarrow> (k, v) \<in> set m"
  by (rule map_of_SomeD)

lemma in_set_gget: "gomap_ok m \<Longrightarrow> (k, v) \<in> set m \<Longrightarrow> gget m k = Some v"
  by (simp add: gomap_ok_def)

lemma in_set_iff_gget: "gomap_ok m \<Longrightarrow> (k, v) \<in> set m \<longleftrightarrow> gget m k = Some v"
  by (auto simp: in_set_gget dest: gget_in_set)

lemma gget_None_iff: "gget m k = None \<longleftrightarrow> k \<notin> gkeys m"
  by (simp add: map_of_eq_None_iff)

lemma gget_Some_key: "k \<in> gkeys m \<longleftrightarrow> (\<exists>v. gget m k = Some v)"
  using gget_None_iff [of m k] by auto

text \<open>Writing a field of the entries of a map keeps its keys and its order.\<close>

definition gmap_entries :: "(string \<Rightarrow> 'v \<Rightarrow> 'w) \<Rightarrow> 'v gomap \<Rightarrow> 'w gomap" where
  "gmap_entries f m = map (\<lambda>(k, v). (k, f k v)) m"

lemma gmap_entries_simps [simp]:
  "gmap_entries f [] = []"
  "gmap_entries f ((k, v) # m) = (k, f k v) # gmap_entries f m"
  by (simp_all add: gmap_entries_def)

lemma gget_gmap_entries [simp]: "gget (gmap_entries f m) k = map_option (f k) (gget m k)"
  by (induction m) auto

lemma map_fst_gmap_entries [simp]: "map fst (gmap_entries f m) = map fst m"
  by (induction m) auto

lemma gkeys_gmap_entries [simp]: "gkeys (gmap_entries f m) = gkeys m"
  by (metis map_fst_gmap_entries list.set_map)

lemma gomap_ok_gmap_entries [simp]: "gomap_ok (gmap_entries f m) \<longleftrightarrow> gomap_ok m"
  by (simp add: gomap_ok_def)

lemma option_extI: "(\<And>t. a = Some t \<longleftrightarrow> b = Some t) \<Longrightarrow> a = b"
  by (cases a; cases b) auto

lemma gget_update_at:
  "gget m k = Some v \<Longrightarrow> gget (gput k (f v) m) k = Some (f v)"
  by simp

text \<open>A loop that puts, for the elements with an entry in a table, a value under the entry's key.\<close>

lemma for_res_puts:
  assumes step: "\<And>t e. t \<in> set ts \<Longrightarrow> step t e =
      (case map_of F (path t) of None \<Rightarrow> Inr e | Some f \<Rightarrow> Inr (gput f (val (path t)) e))"
    and inj: "\<And>p p' f. map_of F p = Some f \<Longrightarrow> map_of F p' = Some f \<Longrightarrow> p = p'"
    and ok: "gomap_ok entry"
  shows "\<exists>e. for_res step ts entry = Inr e \<and> gomap_ok e \<and>
    gkeys e = gkeys entry \<union> {f. \<exists>t \<in> set ts. map_of F (path t) = Some f} \<and>
    (\<forall>p f. map_of F p = Some f \<longrightarrow> gget e f = (if p \<in> path ` set ts then Some (val p) else gget entry f))"
  using step ok
proof (induction ts arbitrary: entry)
  case Nil
  then show ?case by simp
next
  case (Cons t ts)
  have step': "\<And>t e. t \<in> set ts \<Longrightarrow> step t e =
      (case map_of F (path t) of None \<Rightarrow> Inr e | Some f \<Rightarrow> Inr (gput f (val (path t)) e))"
    using Cons.prems(1) by simp
  show ?case
  proof (cases "map_of F (path t)")
    case None
    then have "step t entry = Inr entry" using Cons.prems(1) [of t entry] by simp
    with None Cons.IH [OF step' Cons.prems(2)] show ?thesis by (simp, metis option.distinct(1))
  next
    case (Some f)
    let ?entry = "gput f (val (path t)) entry"
    have "step t entry = Inr ?entry" using Cons.prems(1) [of t entry] Some by simp
    moreover obtain e where e: "for_res step ts ?entry = Inr e" "gomap_ok e"
        "gkeys e = gkeys ?entry \<union> {f. \<exists>t \<in> set ts. map_of F (path t) = Some f}"
        "\<forall>p f. map_of F p = Some f \<longrightarrow> gget e f = (if p \<in> path ` set ts then Some (val p) else gget ?entry f)"
      using Cons.IH [OF step' gomap_ok_gput [OF Cons.prems(2)]] by blast
    moreover have "gget e f' = (if p \<in> path ` set (t # ts) then Some (val p) else gget entry f')"
      if "map_of F p = Some f'" for p f'
      using e(4) that Some inj [of p f' "path t"] by auto
    ultimately show ?thesis using Some by (intro exI [of _ e]) auto
  qed
qed

end
