(* ===== verification/GoStrings.thy ===== *)
theory GoStrings
  imports Prelude
begin

section \<open>Strings: strconv and strings\<close>

text \<open>
  The functions of Go's \<open>strconv\<close>, \<open>strings\<close> and \<open>fmt\<close> packages that the controller
  uses, on byte strings: decimal formatting (\<open>%d\<close>), \<open>Atoi\<close>, \<open>ParseUint\<close>, \<open>HasPrefix\<close>,
  \<open>Split\<close>, \<open>Join\<close>, \<open>Trim\<close>, \<open>ToUpper\<close> and slicing off a fixed prefix. The lemmas are the
  round trips and the injectivity facts that the names \<open>Port%d\<close>, \<open>Ethernet%d_%d\<close>,
  \<open>Opt%d\<close> and \<open>Vlan%d|%s\<close> rest on.
\<close>

subsection \<open>Decimal numbers\<close>

definition digit_char :: "nat \<Rightarrow> char" where
  "digit_char d = char_of (48 + d)"

definition digit_val :: "char \<Rightarrow> nat option" where
  "digit_val c = (let n = (of_char c :: nat) in if 48 \<le> n \<and> n \<le> 57 then Some (n - 48) else None)"

definition is_digit :: "char \<Rightarrow> bool" where
  "is_digit c \<longleftrightarrow> digit_val c \<noteq> None"

fun itoa_nat :: "nat \<Rightarrow> string" where
  "itoa_nat n = (if n < 10 then [digit_char n] else itoa_nat (n div 10) @ [digit_char (n mod 10)])"

declare itoa_nat.simps [simp del]

definition itoa :: "int \<Rightarrow> string" where
  "itoa i = (if i < 0 then CHR ''-'' # itoa_nat (nat (- i)) else itoa_nat (nat i))"

text \<open>The digit loop of \<open>ParseUint\<close>: an empty string or a foreign character is a syntax error.\<close>

fun digits_acc :: "nat \<Rightarrow> string \<Rightarrow> nat option" where
  "digits_acc n [] = Some n"
| "digits_acc n (c # cs) =
     (case digit_val c of None \<Rightarrow> None | Some d \<Rightarrow> digits_acc (10 * n + d) cs)"

definition parse_digits :: "string \<Rightarrow> nat option" where
  "parse_digits s = (if s = [] then None else digits_acc 0 s)"

definition ParseUint :: "string \<Rightarrow> nat \<Rightarrow> nat res" where
  "ParseUint s bits =
     (case parse_digits s of
        None \<Rightarrow> Inl (Errorf ''strconv.ParseUint: invalid syntax'' [s])
      | Some n \<Rightarrow> if n < 2 ^ bits then Inr n
                  else Inl (Errorf ''strconv.ParseUint: value out of range'' [s]))"

definition Atoi :: "string \<Rightarrow> int res" where
  "Atoi s =
     (let (neg, ds) =
        (case s of
           c # cs \<Rightarrow> if c = CHR ''-'' then (True, cs) else if c = CHR ''+'' then (False, cs) else (False, s)
         | [] \<Rightarrow> (False, []))
      in case parse_digits ds of
           None \<Rightarrow> Inl (Errorf ''strconv.Atoi: invalid syntax'' [s])
         | Some n \<Rightarrow>
             if neg \<and> n \<le> 2 ^ 63 then Inr (- int n)
             else if \<not> neg \<and> n < 2 ^ 63 then Inr (int n)
             else Inl (Errorf ''strconv.Atoi: value out of range'' [s]))"

lemma digit_val_digit_char [simp]: "d < 10 \<Longrightarrow> digit_val (digit_char d) = Some d"
  by (simp add: digit_val_def digit_char_def)

lemma is_digit_digit_char [simp]: "d < 10 \<Longrightarrow> is_digit (digit_char d)"
  by (simp add: is_digit_def)

lemma itoa_nat_digits: "c \<in> set (itoa_nat n) \<Longrightarrow> is_digit c"
proof (induction n rule: itoa_nat.induct)
  case (1 n)
  then show ?case by (subst (asm) (2) itoa_nat.simps) (auto split: if_splits)
qed

lemma itoa_nat_nonempty [simp]: "itoa_nat n \<noteq> []"
  by (subst itoa_nat.simps) simp

lemma digits_acc_append:
  "digits_acc n (xs @ ys) = (case digits_acc n xs of None \<Rightarrow> None | Some m \<Rightarrow> digits_acc m ys)"
  by (induction xs arbitrary: n) (auto split: option.splits)

lemma digits_acc_itoa_nat: "digits_acc 0 (itoa_nat n) = Some n"
proof (induction n rule: itoa_nat.induct)
  case (1 n)
  show ?case
  proof (cases "n < 10")
    case True
    then show ?thesis by (subst itoa_nat.simps) simp
  next
    case False
    with 1 show ?thesis by (subst itoa_nat.simps) (simp add: digits_acc_append)
  qed
qed

lemma parse_digits_itoa_nat [simp]: "parse_digits (itoa_nat n) = Some n"
  by (simp add: parse_digits_def digits_acc_itoa_nat)

lemma itoa_nat_inj [simp]: "itoa_nat m = itoa_nat n \<longleftrightarrow> m = n"
  by (metis digits_acc_itoa_nat option.inject)

lemma ParseUint_itoa: "n < 2 ^ bits \<Longrightarrow> ParseUint (itoa_nat n) bits = Inr n"
  by (simp add: ParseUint_def)

lemma ParseUint_bound: "ParseUint s bits = Inr n \<Longrightarrow> n < 2 ^ bits"
  by (auto simp: ParseUint_def split: option.splits if_splits)

lemma hd_itoa_nat: "itoa_nat n = c # cs \<Longrightarrow> c \<noteq> CHR ''-'' \<and> c \<noteq> CHR ''+'' \<and> c \<noteq> CHR ''_'' \<and> c \<noteq> CHR ''|''"
  using itoa_nat_digits [of c n] by (auto simp: is_digit_def digit_val_def)

lemma Atoi_itoa_nat: "n < 2 ^ 63 \<Longrightarrow> Atoi (itoa_nat n) = Inr (int n)"
proof (cases "itoa_nat n")
  case (Cons c cs)
  moreover assume "n < 2 ^ 63"
  moreover have "parse_digits (c # cs) = Some n"
    using parse_digits_itoa_nat [of n] Cons by simp
  ultimately show ?thesis using hd_itoa_nat [of n c cs] by (simp add: Atoi_def)
qed simp

lemma Atoi_itoa: "- (2 ^ 63) \<le> i \<Longrightarrow> i < 2 ^ 63 \<Longrightarrow> Atoi (itoa i) = Inr i"
  by (auto simp: itoa_def Atoi_itoa_nat) (auto simp: Atoi_def)

lemma Atoi_range: "Atoi s = Inr i \<Longrightarrow> - (2 ^ 63) \<le> i \<and> i < 2 ^ 63"
  by (auto simp: Atoi_def Let_def split: prod.splits option.splits if_splits list.splits)

lemma itoa_of_nat [simp]: "itoa (int n) = itoa_nat n"
  by (simp add: itoa_def)

lemma not_digit_in_itoa [simp]:
  "CHR ''_'' \<notin> set (itoa_nat n)" "CHR ''|'' \<notin> set (itoa_nat n)"
  "CHR ''-'' \<notin> set (itoa_nat n)" "CHR '','' \<notin> set (itoa_nat n)"
  "CHR '':'' \<notin> set (itoa_nat n)" "CHR ''@'' \<notin> set (itoa_nat n)"
  using itoa_nat_digits by (fastforce simp: is_digit_def digit_val_def)+

subsection \<open>Prefixes and slices\<close>

definition HasPrefix :: "string \<Rightarrow> string \<Rightarrow> bool" where
  "HasPrefix s p \<longleftrightarrow> take (length p) s = p"

text \<open>\<open>s[n:]\<close> panics when \<open>n\<close> is past the end.\<close>

definition slice_from :: "string \<Rightarrow> nat \<Rightarrow> string res" where
  "slice_from s n =
     (if n \<le> length s then Inr (drop n s) else Inl (Panic ''slice bounds out of range''))"

lemma HasPrefix_append [simp]: "HasPrefix (p @ s) p"
  by (simp add: HasPrefix_def)

lemma HasPrefix_iff: "HasPrefix s p \<longleftrightarrow> (\<exists>r. s = p @ r)"
  by (metis HasPrefix_def append_eq_conv_conj)

lemma slice_from_append [simp]: "slice_from (p @ s) (length p) = Inr s"
  by (simp add: slice_from_def)

lemma HasPrefix_slice: "HasPrefix s p \<Longrightarrow> slice_from s (length p) = Inr (drop (length p) s)"
  by (auto simp: HasPrefix_iff slice_from_def)

subsection \<open>Split and Join\<close>

fun split_char :: "char \<Rightarrow> string \<Rightarrow> string list" where
  "split_char c [] = [[]]"
| "split_char c (x # xs) =
     (if x = c then [] # split_char c xs
      else case split_char c xs of [] \<Rightarrow> [[x]] | y # ys \<Rightarrow> (x # y) # ys)"

text \<open>\<open>strings.Split\<close> with a separator of one byte; the empty separator splits into single characters.\<close>

definition Split :: "string \<Rightarrow> string \<Rightarrow> string list" where
  "Split s sep = (case sep of [] \<Rightarrow> map (\<lambda>c. [c]) s | c # _ \<Rightarrow> split_char c s)"

fun Join :: "string list \<Rightarrow> string \<Rightarrow> string" where
  "Join [] sep = []"
| "Join [x] sep = x"
| "Join (x # y # ys) sep = x @ sep @ Join (y # ys) sep"

lemma split_char_nonempty [simp]: "split_char c s \<noteq> []"
  by (cases s) (auto split: list.splits)

lemma split_char_none: "c \<notin> set s \<Longrightarrow> split_char c s = [s]"
  by (induction s) auto

lemma split_char_append: "c \<notin> set s \<Longrightarrow> split_char c (s @ c # t) = s # split_char c t"
  by (induction s) auto

lemma split_char_Join:
  "ss \<noteq> [] \<Longrightarrow> (\<And>s. s \<in> set ss \<Longrightarrow> c \<notin> set s) \<Longrightarrow> split_char c (Join ss [c]) = ss"
  by (induction ss "[c]" rule: Join.induct) (auto simp: split_char_none split_char_append)

lemma Join_split_char: "Join (split_char c s) [c] = s"
proof (induction s)
  case (Cons x s)
  show ?case
  proof (cases "split_char c s")
    case Nil
    then show ?thesis by simp
  next
    case (Cons y ys)
    with Cons.IH show ?thesis by (cases ys) auto
  qed
qed simp

lemma split_char_no_sep: "t \<in> set (split_char c s) \<Longrightarrow> c \<notin> set t"
  by (induction s arbitrary: t) (auto split: if_splits list.splits)

lemma Split_char [simp]: "Split s [c] = split_char c s"
  by (simp add: Split_def)

text \<open>A field up to the first separator determines its string.\<close>

lemma append_sep_inj:
  assumes "c \<notin> set a" "c \<notin> set b"
  shows "a @ c # x = b @ c # y \<longleftrightarrow> a = b \<and> x = y"
  using assms by (auto simp: append_eq_Cons_conv Cons_eq_append_conv append_eq_append_conv2)

lemma append_sep_not_eq: "c \<notin> set a \<Longrightarrow> a \<noteq> b @ c # y"
  by auto

subsection \<open>Trim and ToUpper\<close>

definition Trim :: "string \<Rightarrow> string \<Rightarrow> string" where
  "Trim s cutset =
     rev (dropWhile (\<lambda>c. c \<in> set cutset) (rev (dropWhile (\<lambda>c. c \<in> set cutset) s)))"

definition upper_char :: "char \<Rightarrow> char" where
  "upper_char c = (let n = (of_char c :: nat) in if 97 \<le> n \<and> n \<le> 122 then char_of (n - 32) else c)"

definition ToUpper :: "string \<Rightarrow> string" where
  "ToUpper s = map upper_char s"

subsection \<open>Names of the transponder's objects\<close>

text \<open>\<open>fmt.Sprintf("Port%d", i)\<close> and its kin; the arguments are never negative where they are used.\<close>

definition port_name_of :: "nat \<Rightarrow> string" where
  "port_name_of i = ''Port'' @ itoa_nat i"

definition eth_name :: "int \<Rightarrow> string" where
  "eth_name i = ''Ethernet'' @ itoa i"

definition eth_sub_name :: "int \<Rightarrow> nat \<Rightarrow> string" where
  "eth_sub_name i j = ''Ethernet'' @ itoa i @ ''_'' @ itoa_nat j"

definition opt_name :: "nat \<Rightarrow> string" where
  "opt_name i = ''Opt'' @ itoa_nat i"

definition vlan_name :: "nat \<Rightarrow> string" where
  "vlan_name v = ''Vlan'' @ itoa_nat v"

definition vlan_member_key :: "string \<Rightarrow> string \<Rightarrow> string" where
  "vlan_member_key v m = v @ ''|'' @ m"

lemma itoa_inj [simp]: "itoa i = itoa j \<longleftrightarrow> i = j"
proof
  assume eq: "itoa i = itoa j"
  have neg: "hd (itoa k) = CHR ''-'' \<longleftrightarrow> k < 0" for k
    by (cases "itoa_nat (nat k)") (auto simp: itoa_def dest: hd_itoa_nat)
  have "i < 0 \<longleftrightarrow> j < 0" using neg eq by metis
  then show "i = j" using eq by (auto simp: itoa_def split: if_splits)
qed simp

lemma itoa_no_underscore [simp]: "CHR ''_'' \<notin> set (itoa i)"
  by (auto simp: itoa_def)

lemma port_name_inj [simp]: "port_name_of i = port_name_of j \<longleftrightarrow> i = j"
  by (simp add: port_name_of_def)

lemma eth_name_inj [simp]: "eth_name i = eth_name j \<longleftrightarrow> i = j"
  by (simp add: eth_name_def)

lemma eth_sub_name_inj [simp]: "eth_sub_name i a = eth_sub_name j b \<longleftrightarrow> i = j \<and> a = b"
  using append_sep_inj [of "CHR ''_''" "itoa i" "itoa j" "itoa_nat a" "itoa_nat b"]
  by (simp add: eth_sub_name_def)

lemma eth_name_not_sub [simp]: "eth_name i \<noteq> eth_sub_name j b" "eth_sub_name j b \<noteq> eth_name i"
  using append_sep_not_eq [of "CHR ''_''" "itoa i" "itoa j" "itoa_nat b"]
  by (auto simp: eth_sub_name_def eth_name_def)

lemma opt_name_inj [simp]: "opt_name i = opt_name j \<longleftrightarrow> i = j"
  by (simp add: opt_name_def)

lemma vlan_name_inj [simp]: "vlan_name i = vlan_name j \<longleftrightarrow> i = j"
  by (simp add: vlan_name_def)

lemma vlan_name_no_bar: "CHR ''|'' \<notin> set (vlan_name v)"
  by (simp add: vlan_name_def)

lemma vlan_member_key_inj [simp]:
  "vlan_member_key (vlan_name v) m = vlan_member_key (vlan_name w) n \<longleftrightarrow> v = w \<and> m = n"
  using append_sep_inj [OF vlan_name_no_bar vlan_name_no_bar, of v m w n]
  by (simp add: vlan_member_key_def)

end
