(* ===== verification/Redis.thy ===== *)
theory Redis
  imports GoStrings
begin

section \<open>The SONiC database client (pkg/sonic/redis.go)\<close>

text \<open>
  \<open>SONiCDBClient\<close> reads and writes table entries kept as redis hashes. The redis server and
  the go-redis library are a parameter: a record of the commands the client sends, each a program
  on an abstract world. The locale \<open>redis_server\<close> states what the commands do to the
  \<open>view\<close> of the database when they succeed; nothing is assumed of when they fail. The lemmas
  show that \<open>GetEntry\<close>, \<open>ModEntry\<close> and \<open>SetEntry\<close> implement reading, merging and replacing
  of a decoded entry, which is the locale \<open>config_table\<close> the diff handlers build on.
\<close>

subsection \<open>Databases, keys and the commands of the server\<close>

definition APPL_DB :: int where "APPL_DB = 0"
definition CONFIG_DB :: int where "CONFIG_DB = 4"
definition TRANSPORT_CONFIG_DB :: int where "TRANSPORT_CONFIG_DB = 7"
definition TRANSPORT_STATE_DB :: int where "TRANSPORT_STATE_DB = 8"

lemmas db_defs = APPL_DB_def CONFIG_DB_def TRANSPORT_CONFIG_DB_def TRANSPORT_STATE_DB_def

text \<open>\<open>keySeparatorMap[db]\<close> and \<open>tableNameSeparatorMap[db]\<close>: a missing database reads as \<open>""\<close>.\<close>

definition keySeparatorMap :: "int \<Rightarrow> string" where
  "keySeparatorMap db =
     (if db = APPL_DB then '':''
      else if db \<in> {CONFIG_DB, TRANSPORT_CONFIG_DB, TRANSPORT_STATE_DB} then ''|'' else [])"

definition tableNameSeparatorMap :: "int \<Rightarrow> string" where
  "tableNameSeparatorMap db =
     (if db = APPL_DB then '':''
      else if db \<in> {CONFIG_DB, TRANSPORT_CONFIG_DB, TRANSPORT_STATE_DB} then ''|'' else [])"

definition serializeKey :: "int \<Rightarrow> string list \<Rightarrow> string" where
  "serializeKey db keys = (if length keys = 1 then keys ! 0 else Join keys (keySeparatorMap db))"

definition entry_hash :: "int \<Rightarrow> string \<Rightarrow> string \<Rightarrow> string" where
  "entry_hash db table key = ToUpper table @ tableNameSeparatorMap db @ key"

lemma serializeKey_one [simp]: "serializeKey db [k] = k"
  by (simp add: serializeKey_def)

lemma entry_hash_inj [simp]: "entry_hash db table k = entry_hash db table k' \<longleftrightarrow> k = k'"
  by (simp add: entry_hash_def)

record 's redis_ops =
  redis_ping :: "int \<Rightarrow> ('s, unit) prog"
  redis_hgetall :: "int \<Rightarrow> string \<Rightarrow> ('s, string gomap) prog"
  redis_hmset :: "int \<Rightarrow> string \<Rightarrow> string gomap \<Rightarrow> ('s, unit) prog"
  redis_del :: "int \<Rightarrow> string \<Rightarrow> ('s, unit) prog"
  redis_hdel :: "int \<Rightarrow> string \<Rightarrow> string \<Rightarrow> ('s, unit) prog"
  redis_keys :: "int \<Rightarrow> string \<Rightarrow> ('s, string list) prog"
  redis_publish :: "int \<Rightarrow> string \<Rightarrow> string \<Rightarrow> ('s, int) prog"

subsection \<open>Entries\<close>

text \<open>
  The values of a \<open>map[string]interface{}\<close> entry. \<open>VStrings\<close> is any slice, its elements
  already printed with \<open>%v\<close>; \<open>VUint\<close> is an unsigned integer of any width.
\<close>

datatype dval = VString string | VInt int | VUint nat | VStrings "string list"

definition is_slice :: "dval \<Rightarrow> bool" where
  "is_slice v = (case v of VStrings vs \<Rightarrow> True | _ \<Rightarrow> False)"

text \<open>What go-redis writes for an argument; a slice is an error of the library.\<close>

definition redis_arg :: "dval \<Rightarrow> string res" where
  "redis_arg v =
     (case v of
        VString s \<Rightarrow> Inr s
      | VInt i \<Rightarrow> Inr (itoa i)
      | VUint n \<Rightarrow> Inr (itoa_nat n)
      | VStrings vs \<Rightarrow> Inl (Ext ''redis: can't marshal []string''))"

definition field_name :: "string \<Rightarrow> dval \<Rightarrow> string" where
  "field_name k v = (if is_slice v then k @ ''@'' else k)"

fun serialize_fields :: "dval gomap \<Rightarrow> dval gomap \<Rightarrow> dval gomap" where
  "serialize_fields [] ret = ret"
| "serialize_fields ((k, v) # m) ret =
     serialize_fields m
       (case v of
          VStrings vs \<Rightarrow> gput (k @ ''@'') (VString (Join vs '','')) ret
        | _ \<Rightarrow> gput k v ret)"

definition serializeEntry :: "dval gomap option \<Rightarrow> dval gomap option" where
  "serializeEntry entry =
     (case entry of
        None \<Rightarrow> None
      | Some m \<Rightarrow> if m = [] then Some (gput ''NULL'' (VString ''NULL'') []) else Some (serialize_fields m []))"

fun decode_fields :: "string gomap \<Rightarrow> dval gomap \<Rightarrow> dval gomap res" where
  "decode_fields [] ret = Inr ret"
| "decode_fields ((k, v) # m) ret =
     (if k = [] then Inl (Panic ''index out of range [-1]'')
      else if last k = CHR ''@'' then decode_fields m (gput (butlast k) (VStrings (Split v '','')) ret)
      else decode_fields m (gput k (VString v) ret))"

subsection \<open>The client\<close>

text \<open>A client is the number of its database; \<open>NewSONiCDBClient\<close> pings the server.\<close>

definition NewSONiCDBClient :: "'s redis_ops \<Rightarrow> int \<Rightarrow> ('s, int) prog" where
  "NewSONiCDBClient R db = pseq (redis_ping R db) (pret db)"

definition GetEntry :: "'s redis_ops \<Rightarrow> int \<Rightarrow> string \<Rightarrow> string list \<Rightarrow> ('s, dval gomap) prog" where
  "GetEntry R db table keys =
     pbind (redis_hgetall R db (entry_hash db table (serializeKey db keys)))
       (\<lambda>m. plift (decode_fields m []))"

fun getTable_loop ::
    "'s redis_ops \<Rightarrow> int \<Rightarrow> string \<Rightarrow> string list \<Rightarrow> dval gomap gomap \<Rightarrow> ('s, dval gomap gomap) prog" where
  "getTable_loop R db table [] t = pret t"
| "getTable_loop R db table (key # keys) t =
     (let ks = Split key (keySeparatorMap db)
      in if ks = [] then pfail (Panic ''slice bounds out of range [1:0]'')
         else pbind (GetEntry R db table (tl ks))
           (\<lambda>v. getTable_loop R db table keys (gput (Join (tl ks) (keySeparatorMap db)) v t)))"

definition GetTable :: "'s redis_ops \<Rightarrow> int \<Rightarrow> string \<Rightarrow> ('s, dval gomap gomap) prog" where
  "GetTable R db table =
     pbind (redis_keys R db (ToUpper table @ tableNameSeparatorMap db @ ''*''))
       (\<lambda>keys. getTable_loop R db table keys [])"

definition ModEntry :: "'s redis_ops \<Rightarrow> int \<Rightarrow> string \<Rightarrow> string \<Rightarrow> dval gomap option \<Rightarrow> ('s, unit) prog" where
  "ModEntry R db table key entry =
     (case serializeEntry entry of
        None \<Rightarrow> redis_del R db (entry_hash db table key)
      | Some m \<Rightarrow> pbind (plift (for_map (\<lambda>k. redis_arg) m)) (redis_hmset R db (entry_hash db table key)))"

text \<open>
  \<open>SetEntry\<close>: write the entry, then delete the fields of the original that it does not have.
  The result of \<open>HDel\<close> is not looked at.
\<close>

definition entry_field :: "dval gomap option \<Rightarrow> string \<Rightarrow> dval option" where
  "entry_field entry k = (case entry of None \<Rightarrow> None | Some m \<Rightarrow> gget m k)"

definition SetEntry :: "'s redis_ops \<Rightarrow> int \<Rightarrow> string \<Rightarrow> string \<Rightarrow> dval gomap option \<Rightarrow> ('s, unit) prog" where
  "SetEntry R db table key entry =
     pbind (GetEntry R db table [key]) (\<lambda>original.
     pseq (ModEntry R db table key entry)
       (pfor (\<lambda>(k, v).
          if entry_field entry k = None
          then pbind (ptry (redis_hdel R db (entry_hash db table key) (field_name k v))) (\<lambda>_. pret ())
          else pret ()) original))"

text \<open>
  \<open>SendNotification\<close> publishes the JSON array of its strings. \<open>json_string\<close> is what
  \<open>json.Marshal\<close> writes for a string: valid UTF-8 passes, and \<open><\<close>, \<open>>\<close>, \<open>&\<close>, quotes,
  backslashes and control characters are escaped.
\<close>

definition hex_digit :: "nat \<Rightarrow> char" where
  "hex_digit d = (if d < 10 then char_of (48 + d) else char_of (87 + d))"

definition json_char :: "char \<Rightarrow> string" where
  "json_char c =
     (let n = (of_char c :: nat) in
      if n = 34 \<or> n = 92 then [CHR 0x5C, c]
      else if n = 10 then [CHR 0x5C, CHR ''n'']
      else if n = 13 then [CHR 0x5C, CHR ''r'']
      else if n = 9 then [CHR 0x5C, CHR ''t'']
      else if n < 32 \<or> n = 60 \<or> n = 62 \<or> n = 38
      then [CHR 0x5C, CHR ''u'', CHR ''0'', CHR ''0'', hex_digit (n div 16), hex_digit (n mod 16)]
      else [c])"

definition json_string :: "string \<Rightarrow> string" where
  "json_string s = [CHR 0x22] @ concat (map json_char s) @ [CHR 0x22]"

definition SendNotification ::
    "'s redis_ops \<Rightarrow> int \<Rightarrow> string \<Rightarrow> string \<Rightarrow> string \<Rightarrow> string list option \<Rightarrow> ('s, int) prog" where
  "SendNotification R db channel op data message =
     (let msg = (case message of None \<Rightarrow> [op, data] | Some m \<Rightarrow> op # data # m)
      in redis_publish R db channel (''['' @ Join (map json_string msg) '','' @ '']''))"

subsection \<open>What an entry looks like in its hash\<close>

text \<open>The decoded entry of a hash that does not hold a field both as a scalar and as a slice.\<close>

definition hash_ok :: "(string \<rightharpoonup> string) \<Rightarrow> bool" where
  "hash_ok h \<longleftrightarrow> [] \<notin> dom h \<and> (\<forall>k. k @ ''@'' \<in> dom h \<longrightarrow> k \<notin> dom h \<or> k \<noteq> [] \<and> last k = CHR ''@'')"

definition decode_view :: "(string \<rightharpoonup> string) \<Rightarrow> string \<rightharpoonup> dval" where
  "decode_view h k =
     (case h (k @ ''@'') of
        Some v \<Rightarrow> Some (VStrings (split_char (CHR '','') v))
      | None \<Rightarrow> if k = [] \<or> last k = CHR ''@'' then None else map_option VString (h k))"

lemma decode_fields_spec:
  assumes "[] \<notin> fst ` set m" "distinct (map fst m)" "gomap_ok ret"
    and "\<And>k. k @ ''@'' \<in> fst ` set m \<Longrightarrow> k \<in> fst ` set m \<Longrightarrow> k \<noteq> [] \<and> last k = CHR ''@''"
  shows "\<exists>d. decode_fields m ret = Inr d \<and> gomap_ok d \<and> map_of d = map_of ret ++ decode_view (map_of m)"
  using assms
proof (induction m arbitrary: ret)
  case Nil
  have "decode_view (map_of []) = Map.empty" by (auto simp: decode_view_def)
  with Nil show ?case by simp
next
  case (Cons x m)
  obtain k v where x: "x = (k, v)" by (cases x)
  from Cons.prems x have k: "k \<noteq> []" "k \<notin> fst ` set m" by auto
  define ret' where "ret' = (if last k = CHR ''@'' then gput (butlast k) (VStrings (split_char (CHR '','') v)) ret
      else gput k (VString v) ret)"
  have ok': "gomap_ok ret'" using Cons.prems(3) by (simp add: ret'_def)
  have step: "decode_fields (x # m) ret = decode_fields m ret'" using k by (simp add: x ret'_def)
  have "\<exists>d. decode_fields m ret' = Inr d \<and> gomap_ok d \<and> map_of d = map_of ret' ++ decode_view (map_of m)"
    using Cons.prems ok' x by (intro Cons.IH) auto
  then obtain d where d: "decode_fields m ret' = Inr d" "gomap_ok d"
      "map_of d = map_of ret' ++ decode_view (map_of m)" by blast
  have eq: "map_of ret' ++ decode_view (map_of m) = map_of ret ++ decode_view (map_of (x # m))"
  proof
    fix f
    show "(map_of ret' ++ decode_view (map_of m)) f = (map_of ret ++ decode_view (map_of (x # m))) f"
    proof (cases "last k = CHR ''@''")
      case True
      then obtain b where b: "k = b @ ''@''" using k(1) by (metis append_butlast_last_id)
      from Cons.prems(4) [of b] x b have "b = [] \<or> b \<notin> fst ` set m \<or> last b = CHR ''@''" by auto
      then show ?thesis using k b
        by (auto simp: ret'_def x decode_view_def map_add_def map_of_eq_None_iff [THEN iffD2]
            image_iff split: option.splits dest: map_of_SomeD)
    next
      case False
      have "f @ ''@'' \<noteq> k" for f using False by auto
      moreover have "k @ ''@'' \<notin> fst ` set m" using Cons.prems(4) [of k] False x by auto
      ultimately show ?thesis using k False
        by (auto simp: ret'_def x decode_view_def map_add_def map_of_eq_None_iff [THEN iffD2]
            split: option.splits dest: map_of_SomeD)
    qed
  qed
  show ?case
    by (rule exI [of _ d]) (simp only: step d eq [symmetric] HOL.simp_thms)
qed

lemma decode_fields_ok:
  assumes "gomap_ok m" "hash_ok (map_of m)"
  shows "\<exists>d. decode_fields m [] = Inr d \<and> gomap_ok d \<and> map_of d = decode_view (map_of m)"
  using decode_fields_spec [of m "[]"] assms
  by (auto simp: gomap_ok_def hash_ok_def dom_map_of_conv_image_fst)

text \<open>The fields an entry is written as, and what a reader gets back for a value.\<close>

definition wire_text :: "dval \<Rightarrow> string" where
  "wire_text v =
     (case v of VString s \<Rightarrow> s | VInt i \<Rightarrow> itoa i | VUint n \<Rightarrow> itoa_nat n | VStrings vs \<Rightarrow> Join vs '','')"

definition stored :: "dval \<Rightarrow> dval" where
  "stored v = (case v of VStrings vs \<Rightarrow> VStrings vs | _ \<Rightarrow> VString (wire_text v))"

definition field_ok :: "string \<Rightarrow> dval \<Rightarrow> bool" where
  "field_ok k v \<longleftrightarrow> k \<noteq> [] \<and> last k \<noteq> CHR ''@'' \<and>
     (case v of VStrings vs \<Rightarrow> vs \<noteq> [] \<and> (\<forall>s \<in> set vs. CHR '','' \<notin> set s) | _ \<Rightarrow> True)"

definition entry_ok :: "dval gomap \<Rightarrow> bool" where
  "entry_ok m \<longleftrightarrow> m \<noteq> [] \<and> gomap_ok m \<and> (\<forall>(k, v) \<in> set m. field_ok k v)"

definition encode_entry :: "dval gomap \<Rightarrow> string gomap" where
  "encode_entry m = map (\<lambda>(k, v). (field_name k v, wire_text v)) m"

definition wire_val :: "dval \<Rightarrow> dval" where
  "wire_val v = (case v of VStrings vs \<Rightarrow> VString (Join vs '','') | _ \<Rightarrow> v)"

lemma field_name_inj:
  "field_ok k v \<Longrightarrow> field_ok k' v' \<Longrightarrow> field_name k v = field_name k' v' \<Longrightarrow> k = k'"
  by (auto simp: field_name_def field_ok_def split: if_splits)

lemma distinct_field_names:
  assumes "gomap_ok m" "\<forall>(k, v) \<in> set m. field_ok k v"
  shows "distinct (map (\<lambda>(k, v). field_name k v) m)"
  using assms
proof (induction m)
  case (Cons x m)
  obtain k v where x: "x = (k, v)" by (cases x)
  have "field_name k v \<notin> (\<lambda>(k, v). field_name k v) ` set m"
  proof
    assume "field_name k v \<in> (\<lambda>(k, v). field_name k v) ` set m"
    then obtain k' v' where "(k', v') \<in> set m" "field_name k v = field_name k' v'" by auto
    moreover from this Cons.prems x have "k = k'" by (intro field_name_inj [of k v k' v']) auto
    ultimately show False using Cons.prems x by (force simp: gomap_ok_def)
  qed
  with Cons x show ?case by (auto simp: gomap_ok_def)
qed simp

lemma update_append_fresh: "k \<notin> fst ` set m \<Longrightarrow> AList.update k v m = m @ [(k, v)]"
  by (induction m) auto

lemma serialize_fields_step: "serialize_fields ((k, v) # m) ret = serialize_fields m (gput (field_name k v) (wire_val v) ret)"
  by (cases v) (simp_all add: field_name_def wire_val_def is_slice_def)

lemma serialize_fields_eq:
  assumes "distinct (map fst ret @ map (\<lambda>(k, v). field_name k v) m)"
  shows "serialize_fields m ret = ret @ map (\<lambda>(k, v). (field_name k v, wire_val v)) m"
  using assms
proof (induction m arbitrary: ret)
  case (Cons x m)
  obtain k v where x: "x = (k, v)" by (cases x)
  with Cons.prems have "gput (field_name k v) (wire_val v) ret = ret @ [(field_name k v, wire_val v)]"
    by (simp add: update_append_fresh)
  with Cons x show ?case by (simp add: serialize_fields_step del: serialize_fields.simps)
qed simp

lemma redis_arg_wire_val: "redis_arg (wire_val v) = Inr (wire_text v)"
  by (cases v) (simp_all add: redis_arg_def wire_val_def wire_text_def)

lemma for_map_redis_arg:
  "for_map (\<lambda>k. redis_arg) (map (\<lambda>(k, v). (field_name k v, wire_val v)) m) = Inr (encode_entry m)"
  by (induction m) (auto simp: redis_arg_wire_val encode_entry_def)

lemma ModEntry_hmset:
  assumes "entry_ok e"
  shows "ModEntry R db table key (Some e) = redis_hmset R db (entry_hash db table key) (encode_entry e)"
proof -
  have "serializeEntry (Some e) = Some (map (\<lambda>(k, v). (field_name k v, wire_val v)) e)"
    using assms distinct_field_names [of e] serialize_fields_eq [of "[]" e]
    by (simp add: serializeEntry_def entry_ok_def)
  then show ?thesis by (simp add: ModEntry_def for_map_redis_arg pbind_def plift_def)
qed

lemma ModEntry_None: "ModEntry R db table key None = redis_del R db (entry_hash db table key)"
  by (simp add: ModEntry_def serializeEntry_def)

lemma gomap_ok_encode_entry: "entry_ok e \<Longrightarrow> gomap_ok (encode_entry e)"
  using distinct_field_names [of e]
  by (simp add: entry_ok_def gomap_ok_def encode_entry_def comp_def case_prod_unfold)

lemma encode_entry_get:
  assumes "entry_ok e"
  shows "map_of (encode_entry e) f = Some t \<longleftrightarrow> (\<exists>k v. map_of e k = Some v \<and> f = field_name k v \<and> t = wire_text v)"
  using in_set_iff_gget [OF gomap_ok_encode_entry [OF assms]] assms
  by (fastforce simp: encode_entry_def entry_ok_def in_set_iff_gget [symmetric])

lemma field_name_at: "field_ok k v \<Longrightarrow> field_name k v = f @ ''@'' \<longleftrightarrow> is_slice v \<and> k = f"
  by (auto simp: field_name_def field_ok_def split: if_splits)

lemma field_name_plain: "f \<noteq> [] \<Longrightarrow> last f \<noteq> CHR ''@'' \<Longrightarrow> field_name k v = f \<longleftrightarrow> \<not> is_slice v \<and> k = f"
  by (auto simp: field_name_def split: if_splits)

lemma encode_entry_at:
  assumes "entry_ok e"
  shows "gget (encode_entry e) (f @ ''@'') =
    (case gget e f of None \<Rightarrow> None | Some v \<Rightarrow> if is_slice v then Some (wire_text v) else None)"
proof -
  have "field_ok k v" if "gget e k = Some v" for k v using that assms
    by (auto simp: entry_ok_def dest: map_of_SomeD)
  then have "gget (encode_entry e) (f @ ''@'') = Some t \<longleftrightarrow>
      (\<exists>v. gget e f = Some v \<and> is_slice v \<and> t = wire_text v)" for t
    unfolding encode_entry_get [OF assms] using field_name_at by metis
  then show ?thesis by (intro option_extI) (auto split: option.splits)
qed

lemma encode_entry_plain:
  assumes "entry_ok e" "f \<noteq> []" "last f \<noteq> CHR ''@''"
  shows "gget (encode_entry e) f =
    (case gget e f of None \<Rightarrow> None | Some v \<Rightarrow> if is_slice v then None else Some (wire_text v))"
proof -
  have "gget (encode_entry e) f = Some t \<longleftrightarrow>
      (\<exists>v. gget e f = Some v \<and> \<not> is_slice v \<and> t = wire_text v)" for t
    unfolding encode_entry_get [OF assms(1)] using field_name_plain [OF assms(2,3)] by metis
  then show ?thesis by (intro option_extI) (auto split: option.splits)
qed

text \<open>Merging the fields of an entry into a hash merges the decoded entries.\<close>

definition same_kinds :: "(string \<rightharpoonup> dval) \<Rightarrow> dval gomap \<Rightarrow> bool" where
  "same_kinds old e \<longleftrightarrow> (\<forall>k v v'. old k = Some v \<longrightarrow> gget e k = Some v' \<longrightarrow> is_slice v = is_slice v')"

definition stored_view :: "dval gomap \<Rightarrow> string \<rightharpoonup> dval" where
  "stored_view e k = map_option stored (gget e k)"

lemma decode_view_encode:
  assumes e: "entry_ok e" and k: "same_kinds (decode_view h) e"
  shows "decode_view (h ++ map_of (encode_entry e)) = decode_view h ++ stored_view e"
proof
  fix f
  have ok: "field_ok f v" if "gget e f = Some v" for v using that e
    by (auto simp: entry_ok_def dest: map_of_SomeD)
  have join: "split_char (CHR '','') (wire_text v) = vs" if "gget e f = Some v" "v = VStrings vs" for v vs
    using ok [OF that(1)] that unfolding wire_text_def by (auto simp: field_ok_def split_char_Join)
  show "decode_view (h ++ gget (encode_entry e)) f = (decode_view h ++ stored_view e) f"
  proof (cases "f = [] \<or> last f = CHR ''@''")
    case True
    with ok have "gget e f = None" by (cases "gget e f") (auto simp: field_ok_def)
    with True show ?thesis
      by (auto simp: decode_view_def map_add_def stored_view_def encode_entry_at [OF e])
  next
    case False
    show ?thesis
    proof (cases "gget e f")
      case None
      with False encode_entry_plain [OF e, of f] show ?thesis
        by (simp add: decode_view_def map_add_def stored_view_def encode_entry_at [OF e] split: option.split)
    next
      case (Some v)
      have "h (f @ ''@'') = None" if v: "\<not> is_slice v"
      proof (rule ccontr)
        assume "h (f @ ''@'') \<noteq> None"
        then obtain a where "decode_view h f = Some (VStrings (split_char (CHR '','') a))"
          by (auto simp: decode_view_def)
        with k Some v have "\<not> is_slice (VStrings (split_char (CHR '','') a))"
          unfolding same_kinds_def by metis
        then show False by (simp add: is_slice_def)
      qed
      with False Some join [OF Some] encode_entry_plain [OF e, of f] show ?thesis
        by (cases v) (simp_all add: decode_view_def map_add_def stored_view_def stored_def is_slice_def
            encode_entry_at [OF e])
    qed
  qed
qed

lemma hash_ok_encode:
  assumes "entry_ok e"
  shows "hash_ok (gget (encode_entry e))"
proof -
  have ok: "field_ok k v" if "gget e k = Some v" for k v using that assms
    by (auto simp: entry_ok_def dest: map_of_SomeD)
  have "gget (encode_entry e) [] = None"
  proof (rule ccontr)
    assume "gget (encode_entry e) [] \<noteq> None"
    then obtain k v where "gget e k = Some v" "[] = field_name k v" using encode_entry_get [OF assms] by blast
    with ok show False by (auto simp: field_name_def field_ok_def split: if_splits)
  qed
  moreover have "gget (encode_entry e) k = None \<or> k = [] \<or> last k = CHR ''@''"
    if "gget (encode_entry e) (k @ ''@'') \<noteq> None" for k
  proof (rule ccontr)
    assume "\<not> (gget (encode_entry e) k = None \<or> k = [] \<or> last k = CHR ''@'')"
    with that encode_entry_at [OF assms, of k] encode_entry_plain [OF assms, of k] show False
      by (auto split: option.splits if_splits)
  qed
  ultimately show ?thesis by (force simp: hash_ok_def)
qed

subsection \<open>The server and the contract of the client\<close>

text \<open>
  What the documentation of redis says of the commands when they succeed. \<open>view s db h\<close> is the
  content of the hash \<open>h\<close> of database \<open>db\<close>; a hash without fields does not exist. A command
  that fails may or may not have been carried out; it touches no other hash.
\<close>

type_synonym 's redis_view = "'s \<Rightarrow> int \<Rightarrow> string \<Rightarrow> string \<rightharpoonup> string"

definition set_hash ::
    "(int \<Rightarrow> string \<Rightarrow> string \<rightharpoonup> string) \<Rightarrow> int \<Rightarrow> string \<Rightarrow> (string \<rightharpoonup> string) \<Rightarrow> int \<Rightarrow> string \<Rightarrow> string \<rightharpoonup> string" where
  "set_hash v db h x = v(db := (v db)(h := x))"

lemma set_hash_simps [simp]:
  "set_hash v db h x db' h' = (if db' = db \<and> h' = h then x else v db' h')"
  "set_hash (set_hash v db h x) db h y = set_hash v db h y"
  "set_hash v db h (v db h) = v"
  by (auto simp: set_hash_def)

locale redis_server =
  fixes R :: "'s redis_ops" and view :: "'s redis_view"
  assumes ping_view: "redis_ping R db s = (r, t) \<Longrightarrow> view t = view s"
    and hgetall_keeps: "redis_hgetall R db h s = (q, t) \<Longrightarrow> view t = view s"
    and hgetall_value: "redis_hgetall R db h s = (Inr m, t) \<Longrightarrow> gomap_ok m \<and> gget m = view s db h"
    and hmset_view: "gomap_ok m \<Longrightarrow> redis_hmset R db h m s = (Inr (), t) \<Longrightarrow>
      view t = set_hash (view s) db h (view s db h ++ gget m)"
    and del_view: "redis_del R db h s = (Inr (), t) \<Longrightarrow> view t = set_hash (view s) db h Map.empty"
    and hdel_view: "redis_hdel R db h f s = (Inr (), t) \<Longrightarrow>
      view t = set_hash (view s) db h ((view s db h)(f := None))"
    and hmset_other: "redis_hmset R db h m s = (r, t) \<Longrightarrow> (db', h') \<noteq> (db, h) \<Longrightarrow> view t db' h' = view s db' h'"
    and del_other: "redis_del R db h s = (r, t) \<Longrightarrow> (db', h') \<noteq> (db, h) \<Longrightarrow> view t db' h' = view s db' h'"
    and hdel_other: "redis_hdel R db h f s = (r, t) \<Longrightarrow> (db', h') \<noteq> (db, h) \<Longrightarrow> view t db' h' = view s db' h'"

text \<open>The contract of a table store: entries that are read, merged and replaced.\<close>

locale config_table =
  fixes get :: "string \<Rightarrow> string \<Rightarrow> ('s, dval gomap) prog"
    and modify :: "string \<Rightarrow> string \<Rightarrow> dval gomap option \<Rightarrow> ('s, unit) prog"
    and eview :: "'s \<Rightarrow> string \<Rightarrow> string \<Rightarrow> string \<rightharpoonup> dval"
    and clean :: "'s \<Rightarrow> string \<Rightarrow> string \<Rightarrow> bool"
  assumes get_keeps: "get tab k s = (r, t) \<Longrightarrow> eview t = eview s \<and> clean t = clean s"
    and get_value: "clean s tab k \<Longrightarrow> get tab k s = (Inr m, t) \<Longrightarrow> gomap_ok m \<and> gget m = eview s tab k"
    and modify_value: "entry_ok e \<Longrightarrow> same_kinds (eview s tab k) e \<Longrightarrow> modify tab k (Some e) s = (Inr (), t) \<Longrightarrow>
      eview t tab k = eview s tab k ++ stored_view e"
    and modify_none: "modify tab k None s = (Inr (), t) \<Longrightarrow> eview t tab k = Map.empty"
    and modify_other: "(case eo of None \<Rightarrow> True | Some m \<Rightarrow> entry_ok m) \<Longrightarrow> modify tab k eo s = (Inr (), t) \<Longrightarrow>
      k' \<noteq> k \<Longrightarrow> eview t tab k' = eview s tab k'"
begin

text \<open>What was written is what is read next.\<close>

lemma read_after_write:
  assumes "entry_ok e" "same_kinds (eview s tab k) e" "modify tab k (Some e) s = (Inr (), t)"
    and "clean t tab k" "get tab k t = (Inr m, u)"
  shows "gget m = eview s tab k ++ stored_view e"
  using get_value [OF assms(4,5)] modify_value [OF assms(1-3)] by simp

lemma read_after_delete:
  assumes "modify tab k None s = (Inr (), t)" "clean t tab k" "get tab k t = (Inr m, u)"
  shows "m = []"
proof -
  have "gget m = Map.empty" using get_value [OF assms(2,3)] modify_none [OF assms(1)] by simp
  then show ?thesis by simp
qed

end

context redis_server begin

lemma client_Inr: "NewSONiCDBClient R db s = (Inr c, t) \<longleftrightarrow> c = db \<and> redis_ping R db s = (Inr (), t)"
  by (auto simp: NewSONiCDBClient_def prog_Inr)

lemma NewSONiCDBClient_view: "NewSONiCDBClient R db s = (r, t) \<Longrightarrow> view t = view s"
  by (auto simp: NewSONiCDBClient_def pseq_def pbind_def pret_def ping_view split: prod.splits sum.splits)

lemma GetEntry_view: "GetEntry R db table keys s = (r, t) \<Longrightarrow> view t = view s"
  by (auto simp: GetEntry_def pbind_def plift_def hgetall_keeps split: prod.splits sum.splits)

lemma GetEntry_value:
  assumes "hash_ok (view s db (entry_hash db table k))" "GetEntry R db table [k] s = (Inr d, t)"
  shows "gomap_ok d \<and> gget d = decode_view (view s db (entry_hash db table k))"
proof -
  from assms(2) obtain m u where m: "redis_hgetall R db (entry_hash db table k) s = (Inr m, u)"
      "decode_fields m [] = Inr d"
    by (auto simp: GetEntry_def prog_Inr)
  with hgetall_value [OF m(1)] assms(1) decode_fields_ok [of m] show ?thesis by auto
qed

lemma ModEntry_view:
  assumes "entry_ok e" "ModEntry R db table k (Some e) s = (Inr (), t)"
  shows "view t = set_hash (view s) db (entry_hash db table k)
    (view s db (entry_hash db table k) ++ gget (encode_entry e))"
  using assms hmset_view [OF gomap_ok_encode_entry [OF assms(1)]] by (simp add: ModEntry_hmset)

lemma ModEntry_del_view:
  "ModEntry R db table k None s = (Inr (), t) \<Longrightarrow> view t = set_hash (view s) db (entry_hash db table k) Map.empty"
  by (simp add: ModEntry_None del_view)

end

sublocale redis_server \<subseteq> tab: config_table "\<lambda>tab k. GetEntry R db tab [k]" "ModEntry R db"
    "\<lambda>s tab k. decode_view (view s db (entry_hash db tab k))"
    "\<lambda>s tab k. hash_ok (view s db (entry_hash db tab k))"
  for db
proof (unfold_locales, goal_cases)
  case (1 tab k s r t)
  then show ?case by (simp add: GetEntry_view)
next
  case (2 s tab k m t)
  then show ?case by (rule GetEntry_value)
next
  case (3 e s tab k t)
  then show ?case using ModEntry_view [OF 3(1,3)] decode_view_encode [OF 3(1,2)] by simp
next
  case (4 tab k s t)
  have "decode_view Map.empty = Map.empty" by (auto simp: decode_view_def)
  with ModEntry_del_view [OF 4] show ?case by simp
next
  case (5 eo tab k s t k')
  then show ?case by (cases eo) (auto dest: ModEntry_view ModEntry_del_view)
qed

subsection \<open>Replacing an entry\<close>

text \<open>
  \<open>SetEntry\<close> ignores the result of \<open>HDel\<close>, so that it replaces the entry is a statement about
  a server whose \<open>HDel\<close> does not fail.
\<close>

lemma is_slice_simps [simp]:
  "is_slice (VStrings vs)" "\<not> is_slice (VString x)" "\<not> is_slice (VInt i)" "\<not> is_slice (VUint n)"
  by (simp_all add: is_slice_def)

definition stale_fields :: "dval gomap option \<Rightarrow> dval gomap \<Rightarrow> string set" where
  "stale_fields entry l = {field_name k v | k v. (k, v) \<in> set l \<and> entry_field entry k = None}"

locale redis_reliable = redis_server +
  assumes hdel_succeeds: "\<exists>t. redis_hdel R db h f s = (Inr (), t)"
begin

lemma hdel_loop:
  fixes db :: int and h :: string and entry :: "dval gomap option"
  defines "step \<equiv> \<lambda>(k, v). if entry_field entry k = None
      then pbind (ptry (redis_hdel R db h (field_name k v))) (\<lambda>_. pret ()) else pret ()"
  shows "\<exists>t. pfor step l s = (Inr (), t) \<and>
    view t = set_hash (view s) db h (view s db h |` (- stale_fields entry l))"
proof (induction l arbitrary: s)
  case Nil
  have "stale_fields entry [] = {}" by (simp add: stale_fields_def)
  then show ?case by (simp add: pret_def)
next
  case (Cons x l)
  obtain k v where x: "x = (k, v)" by (cases x)
  show ?case
  proof (cases "entry_field entry k")
    case None
    obtain u where u: "redis_hdel R db h (field_name k v) s = (Inr (), u)" using hdel_succeeds by blast
    then have step: "step x s = (Inr (), u)" using None by (simp add: step_def x res_simps)
    obtain t where t: "pfor step l u = (Inr (), t)"
        "view t = set_hash (view u) db h (view u db h |` (- stale_fields entry l))"
      using Cons.IH [of u] by blast
    from step t have "pfor step (x # l) s = (Inr (), t)" by (simp add: res_simps)
    moreover have "stale_fields entry (x # l) = insert (field_name k v) (stale_fields entry l)"
      using None by (auto simp: stale_fields_def x)
    moreover have "set_hash (view u) db h (view u db h |` (- stale_fields entry l)) =
        set_hash (view s) db h (view s db h |` (- insert (field_name k v) (stale_fields entry l)))"
      using hdel_view [OF u] by (auto simp: restrict_map_def fun_eq_iff)
    ultimately show ?thesis using t(2) by metis
  next
    case (Some w)
    then have "step x s = (Inr (), s)" by (simp add: step_def x pret_def)
    moreover have "stale_fields entry (x # l) = stale_fields entry l"
      using Some by (auto simp: stale_fields_def x)
    ultimately show ?thesis using Cons.IH [of s] by (simp add: res_simps)
  qed
qed

lemma stale_fields_hash:
  assumes old: "hash_ok old" "gomap_ok d" "gget d = decode_view old"
    and e: "entry_ok e" "same_kinds (decode_view old) e"
  shows "(old ++ gget (encode_entry e)) |` (- stale_fields (Some e) d) = gget (encode_entry e)"
proof
  fix f
  have stale: "f \<in> stale_fields (Some e) d \<longleftrightarrow>
      (\<exists>k v. decode_view old k = Some v \<and> gget e k = None \<and> f = field_name k v)"
    using in_set_iff_gget [OF old(2)] old(3) by (auto simp: stale_fields_def entry_field_def)
  have ok: "field_ok k v" if "gget e k = Some v" for k v using that e
    by (auto simp: entry_ok_def dest: map_of_SomeD)
  show "((old ++ gget (encode_entry e)) |` (- stale_fields (Some e) d)) f = gget (encode_entry e) f"
  proof (cases "gget (encode_entry e) f")
    case None
    have "old f = None" if ns: "f \<notin> stale_fields (Some e) d"
    proof (rule ccontr)
      have key: "\<exists>v. gget e k = Some v" if "decode_view old k = Some w" "f = field_name k w" for k w
        using stale ns that by (cases "gget e k") blast+
      assume "old f \<noteq> None"
      then obtain x where x: "old f = Some x" by blast
      then have ne: "f \<noteq> []" using old(1) by (auto simp: hash_ok_def)
      show False
      proof (cases "last f = CHR ''@''")
        case True
        with ne obtain k where k: "f = k @ ''@''" by (metis append_butlast_last_id)
        then have D: "decode_view old k = Some (VStrings (split_char (CHR '','') x))"
          using x by (simp add: decode_view_def)
        then obtain v where v: "gget e k = Some v" using key [OF D] k
          by (auto simp: field_name_def is_slice_def)
        with e(2) [unfolded same_kinds_def, rule_format, OF D] have "is_slice v" by simp
        with None v k encode_entry_at [OF e(1), of k] show False by simp
      next
        case False
        with old(1) x have "old (f @ ''@'') = None"
          using ne by (cases "old (f @ ''@'')") (auto simp: hash_ok_def)
        then have D: "decode_view old f = Some (VString x)" using x ne False by (simp add: decode_view_def)
        then obtain v where v: "gget e f = Some v" using key [OF D]
          by (auto simp: field_name_def is_slice_def)
        with e(2) [unfolded same_kinds_def, rule_format, OF D] have "\<not> is_slice v" by simp
        with None v encode_entry_plain [OF e(1) ne False] show False by simp
      qed
    qed
    then show ?thesis using None by (auto simp: restrict_map_def map_add_def)
  next
    case (Some t)
    then obtain k v where kv: "gget e k = Some v" "f = field_name k v"
      using encode_entry_get [OF e(1)] by blast
    have "f \<notin> stale_fields (Some e) d"
    proof
      assume "f \<in> stale_fields (Some e) d"
      then obtain k' v' where D: "decode_view old k' = Some v'" "gget e k' = None" "f = field_name k' v'"
        using stale by blast
      then have "is_slice v' \<or> k' \<noteq> [] \<and> last k' \<noteq> CHR ''@''"
        by (auto simp: decode_view_def is_slice_def split: option.splits if_splits)
      with D kv ok [OF kv(1)] have "k = k'" by (auto simp: field_name_def field_ok_def split: if_splits)
      with D kv show False by simp
    qed
    then show ?thesis using Some by (auto simp: restrict_map_def map_add_def)
  qed
qed

lemma SetEntry_view:
  assumes e: "entry_ok e"
    and ok: "hash_ok (view s db (entry_hash db table k))"
    and kinds: "same_kinds (decode_view (view s db (entry_hash db table k))) e"
    and run: "SetEntry R db table k (Some e) s = (Inr (), t)"
  shows "view t = set_hash (view s) db (entry_hash db table k) (gget (encode_entry e))"
proof -
  let ?h = "entry_hash db table k"
  from run obtain d s1 s2 where d: "GetEntry R db table [k] s = (Inr d, s1)"
      and m: "ModEntry R db table k (Some e) s1 = (Inr (), s2)"
      and l: "pfor (\<lambda>(k', v). if entry_field (Some e) k' = None
        then pbind (ptry (redis_hdel R db ?h (field_name k' v))) (\<lambda>_. pret ()) else pret ()) d s2 = (Inr (), t)"
    by (auto simp: SetEntry_def prog_Inr)
  have v1: "view s1 = view s" using GetEntry_view [OF d] .
  have v2: "view s2 = set_hash (view s) db ?h (view s db ?h ++ gget (encode_entry e))"
    using ModEntry_view [OF e m] v1 by simp
  have "view t = set_hash (view s2) db ?h (view s2 db ?h |` (- stale_fields (Some e) d))"
    using hdel_loop [of "Some e" db ?h d s2] l by auto
  with v2 stale_fields_hash [OF ok _ _ e kinds, of d] GetEntry_value [OF ok d] show ?thesis by simp
qed

text \<open>Replacing an entry makes it the stored form of what was written.\<close>

lemma SetEntry_replaces:
  assumes "entry_ok e" "hash_ok (view s db (entry_hash db table k))"
    and "same_kinds (decode_view (view s db (entry_hash db table k))) e"
    and "SetEntry R db table k (Some e) s = (Inr (), t)"
  shows "decode_view (view t db (entry_hash db table k)) = stored_view e"
proof -
  have "decode_view (Map.empty ++ gget (encode_entry e)) = decode_view Map.empty ++ stored_view e"
    by (rule decode_view_encode [OF assms(1)]) (simp add: same_kinds_def decode_view_def)
  moreover have "decode_view Map.empty = Map.empty" by (auto simp: decode_view_def)
  ultimately show ?thesis using SetEntry_view [OF assms] by simp
qed

end

text \<open>A server that carries out every command.\<close>

locale redis_total = redis_reliable +
  assumes ping_succeeds: "\<exists>t. redis_ping R db s = (Inr (), t)"
    and hgetall_succeeds: "\<exists>m t. redis_hgetall R db h s = (Inr m, t)"
    and hmset_succeeds: "\<exists>t. redis_hmset R db h m s = (Inr (), t)"
    and del_succeeds: "\<exists>t. redis_del R db h s = (Inr (), t)"
begin

lemma NewSONiCDBClient_succeeds: "\<exists>t. NewSONiCDBClient R db s = (Inr db, t) \<and> view t = view s"
proof -
  obtain t where t: "redis_ping R db s = (Inr (), t)" using ping_succeeds by blast
  then have "NewSONiCDBClient R db s = (Inr db, t)" by (simp add: client_Inr)
  with ping_view [OF t] show ?thesis by blast
qed

lemma GetEntry_succeeds:
  assumes "hash_ok (view s db (entry_hash db table k))"
  shows "\<exists>d t. GetEntry R db table [k] s = (Inr d, t)"
proof -
  obtain m t where m: "redis_hgetall R db (entry_hash db table k) s = (Inr m, t)"
    using hgetall_succeeds by blast
  with hgetall_value [OF m] assms decode_fields_ok [of m] show ?thesis
    by (auto simp: GetEntry_def prog_Inr)
qed

lemma ModEntry_succeeds: "entry_ok e \<Longrightarrow> \<exists>t. ModEntry R db table k (Some e) s = (Inr (), t)"
  by (simp add: ModEntry_hmset hmset_succeeds)

lemma ModEntry_del_succeeds: "\<exists>t. ModEntry R db table k None s = (Inr (), t)"
  by (simp add: ModEntry_None del_succeeds)

lemma SetEntry_succeeds:
  assumes "entry_ok e" "hash_ok (view s db (entry_hash db table k))"
  shows "\<exists>t. SetEntry R db table k (Some e) s = (Inr (), t)"
proof -
  obtain d u where d: "GetEntry R db table [k] s = (Inr d, u)" using GetEntry_succeeds [OF assms(2)] by blast
  obtain w where w: "ModEntry R db table k (Some e) u = (Inr (), w)" using ModEntry_succeeds [OF assms(1)] by blast
  show ?thesis using d w hdel_loop [of "Some e" db "entry_hash db table k" d w]
    by (auto simp: SetEntry_def prog_Inr)
qed

end

subsection \<open>A server in memory\<close>

text \<open>
  An instance of the parameter for the concrete runs: databases as maps of hashes, every command
  succeeds.
\<close>

type_synonym mem_db = "((int \<times> string) \<times> string gomap) list"

definition mem_hash :: "mem_db \<Rightarrow> int \<Rightarrow> string \<Rightarrow> string gomap" where
  "mem_hash s db h = (case map_of s (db, h) of None \<Rightarrow> [] | Some m \<Rightarrow> m)"

definition mem_view :: "mem_db redis_view" where
  "mem_view s db h = map_of (mem_hash s db h)"

fun put_all :: "string gomap \<Rightarrow> string gomap \<Rightarrow> string gomap" where
  "put_all [] old = old"
| "put_all ((k, v) # m) old = put_all m (gput k v old)"

fun dedup :: "string gomap \<Rightarrow> string gomap" where
  "dedup [] = []"
| "dedup ((k, v) # m) = (k, v) # gdel k (dedup m)"

definition mem_redis :: "mem_db redis_ops" where
  "mem_redis =
     \<lparr>redis_ping = \<lambda>db. pret (),
      redis_hgetall = \<lambda>db h s. (Inr (dedup (mem_hash s db h)), s),
      redis_hmset = \<lambda>db h m s. (Inr (), AList.update (db, h) (put_all m (mem_hash s db h)) s),
      redis_del = \<lambda>db h s. (Inr (), AList.update (db, h) [] s),
      redis_hdel = \<lambda>db h f s. (Inr (), AList.update (db, h) (gdel f (mem_hash s db h)) s),
      redis_keys = \<lambda>db p s. (Inr [h. ((d, h), m) \<leftarrow> s, d = db, m \<noteq> [], HasPrefix h (butlast p)], s),
      redis_publish = \<lambda>db ch m s. (Inr 0, s)\<rparr>"

lemma put_all_get: "gomap_ok m \<Longrightarrow> map_of (put_all m old) = map_of old ++ map_of m"
proof (induction m arbitrary: old)
  case (Cons x m)
  obtain k v where x: "x = (k, v)" by (cases x)
  with Cons.prems have "gomap_ok m" "map_of m k = None"
    by (auto simp: gomap_ok_def map_of_eq_None_iff)
  with Cons.IH show ?case by (auto simp: x fun_eq_iff map_add_def split: option.splits)
qed simp

lemma gomap_ok_dedup: "gomap_ok (dedup m)"
proof (induction m)
  case (Cons x m)
  then show ?case by (cases x) (auto simp: gomap_ok_def distinct_delete)
qed simp

lemma gget_dedup: "gget (dedup m) = gget m"
proof (induction m)
  case (Cons x m)
  then show ?case by (cases x) (auto simp: fun_eq_iff delete_conv')
qed simp

lemma mem_view_update: "mem_view (AList.update (db, h) m s) = set_hash (mem_view s) db h (map_of m)"
  by (auto simp: mem_view_def mem_hash_def update_conv' fun_eq_iff)

lemmas mem_redis_simps = mem_redis_def pret_def mem_view_update put_all_get

interpretation mem: redis_total mem_redis mem_view
  by unfold_locales (auto simp: mem_redis_simps gget_dedup gomap_ok_dedup mem_view_def [symmetric]
      delete_conv' fun_eq_iff)

lemmas prog_simps = pbind_def pseq_def pret_def pfail_def plift_def ptry_def

lemma mem_client: "NewSONiCDBClient mem_redis db = pret db"
  by (intro ext) (simp add: NewSONiCDBClient_def mem_redis_def prog_simps)

lemma mem_ModEntry_ok: "entry_ok e \<Longrightarrow> ModEntry mem_redis db table k (Some e) s =
    (Inr (), AList.update (db, entry_hash db table k) (put_all (encode_entry e) (mem_hash s db (entry_hash db table k))) s)"
  by (simp add: ModEntry_hmset mem_redis_def)

subsection \<open>Properties of the client\<close>


text \<open>
  \<open>ModEntry\<close> merges: the fields of the entry are overwritten, the others stay, and no other entry
  of the database changes.
\<close>

lemma ModEntry_merges:
  assumes R: "redis_server R view"
    and e: "entry_ok e" and kinds: "same_kinds (decode_view (view s db (entry_hash db table k))) e"
    and run: "ModEntry R db table k (Some e) s = (Inr (), t)"
  shows "decode_view (view t db (entry_hash db table k)) =
      decode_view (view s db (entry_hash db table k)) ++ stored_view e \<and>
    (\<forall>db' h. (db', h) \<noteq> (db, entry_hash db table k) \<longrightarrow> view t db' h = view s db' h)"
  using redis_server.ModEntry_view [OF R e run] decode_view_encode [OF e kinds] by auto

lemma gomap_single: "gomap_ok m \<Longrightarrow> gget m = [k \<mapsto> v] \<Longrightarrow> m = [(k, v)]"
proof -
  assume ok: "gomap_ok m" and m: "gget m = [k \<mapsto> v]"
  have "set m = {(k, v)}" using in_set_iff_gget [OF ok] m by (auto split: if_splits)
  moreover have "distinct m" using ok by (simp add: gomap_ok_def distinct_map)
  ultimately have "length m = 1" using distinct_card [of m] by simp
  with \<open>set m = {(k, v)}\<close> show ?thesis by (cases m) auto
qed

text \<open>
  Writing an empty entry twice deletes it. The first \<open>SetEntry\<close> stores the placeholder field
  \<open>NULL\<close>; the second finds \<open>NULL\<close> among the old fields, which the new entry does not name, and removes it
  after writing it again.
\<close>

lemma SetEntry_empty_twice:
  assumes R: "redis_total R view"
    and new: "view s db (entry_hash db table k) = Map.empty"
  shows "\<exists>t u. SetEntry R db table k (Some []) s = (Inr (), t) \<and>
    view t db (entry_hash db table k) = [''NULL'' \<mapsto> ''NULL''] \<and>
    SetEntry R db table k (Some []) t = (Inr (), u) \<and>
    view u db (entry_hash db table k) = Map.empty"
proof -
  let ?h = "entry_hash db table k"
  have mod: "ModEntry R db table k (Some []) = redis_hmset R db ?h [(''NULL'', ''NULL'')]"
    by (simp add: ModEntry_def serializeEntry_def redis_arg_def prog_simps)
  note srv = redis_reliable.axioms(1) [OF redis_total.axioms(1) [OF R]]
    and rel = redis_total.axioms(1) [OF R]
  have round: "\<exists>t. SetEntry R db table k (Some []) s = (Inr (), t) \<and>
      view t db ?h = [''NULL'' \<mapsto> ''NULL''] |` (- stale_fields (Some []) d)"
    if ok: "hash_ok (view s db ?h)" and d: "\<And>d'. gomap_ok d' \<Longrightarrow> gget d' = decode_view (view s db ?h) \<Longrightarrow> d' = d"
      and h: "view s db ?h ++ gget [(''NULL'', ''NULL'')] = [''NULL'' \<mapsto> ''NULL'']" for s d
  proof -
    obtain d' s1 where g: "GetEntry R db table [k] s = (Inr d', s1)"
      using redis_total.GetEntry_succeeds [OF R ok] by blast
    then have d': "d' = d" using redis_server.GetEntry_value [OF srv ok g] d by blast
    have v1: "view s1 = view s" using redis_server.GetEntry_view [OF srv g] .
    obtain s2 where m: "redis_hmset R db ?h [(''NULL'', ''NULL'')] s1 = (Inr (), s2)"
      using redis_total.hmset_succeeds [OF R] by blast
    have v2: "view s2 db ?h = [''NULL'' \<mapsto> ''NULL'']"
    proof -
      have "gomap_ok [(''NULL'', ''NULL'')]" by (simp add: gomap_ok_def)
      from redis_server.hmset_view [OF srv this m] show ?thesis
        by (simp only: v1 h set_hash_simps simp_thms if_True)
    qed
    show ?thesis
      using redis_reliable.hdel_loop [OF rel, of "Some []" db ?h d s2] g m v2 d'
      by (auto simp: SetEntry_def mod prog_Inr)
  qed
  have one: "d' = []" if "gget d' = decode_view (view s db ?h)" for d' :: "dval gomap"
  proof -
    have "gget d' = Map.empty" using that new by (simp add: decode_view_def fun_eq_iff)
    then show ?thesis by simp
  qed
  obtain t where t: "SetEntry R db table k (Some []) s = (Inr (), t)" "view t db ?h = [''NULL'' \<mapsto> ''NULL'']"
  proof -
    have "view s db ?h ++ gget [(''NULL'', ''NULL'')] = [''NULL'' \<mapsto> ''NULL'']" by (auto simp: new fun_eq_iff)
    from round [OF _ one this] show ?thesis using that by (auto simp: new hash_ok_def stale_fields_def)
  qed
  have dn: "decode_view [''NULL'' \<mapsto> ''NULL''] = [''NULL'' \<mapsto> VString ''NULL'']"
    by (auto simp: decode_view_def fun_eq_iff)
  have two: "d' = [(''NULL'', VString ''NULL'')]" if "gomap_ok d'" "gget d' = decode_view (view t db ?h)" for d'
    using that unfolding t(2) dn by (rule gomap_single)
  obtain u where "SetEntry R db table k (Some []) t = (Inr (), u)" "view u db ?h = Map.empty"
  proof -
    have "view t db ?h ++ gget [(''NULL'', ''NULL'')] = [''NULL'' \<mapsto> ''NULL'']" by (auto simp: t(2) fun_eq_iff)
    moreover have "stale_fields (Some []) [(''NULL'', VString ''NULL'')] = {''NULL''}"
      by (auto simp: stale_fields_def entry_field_def field_name_def)
    moreover have "[''NULL'' \<mapsto> ''NULL''] |` (- {''NULL''}) = Map.empty" by (auto simp: restrict_map_def)
    moreover have "hash_ok (view t db ?h)" by (auto simp: t(2) hash_ok_def)
    ultimately show ?thesis using round [OF _ two] that by metis
  qed
  with t show ?thesis by blast
qed

definition sample_vlan :: "dval gomap" where
  "sample_vlan = [(''vlanid'', VUint 100), (''members'', VStrings [''Ethernet1'', ''Ethernet17''])]"

lemma sample_vlan_ok: "entry_ok sample_vlan"
  by (simp add: entry_ok_def sample_vlan_def gomap_ok_def field_ok_def)

lemma mem_empty [simp]: "mem_view [] db h = Map.empty"
  by (simp add: mem_view_def mem_hash_def)

lemma hash_ok_empty [simp]: "hash_ok Map.empty"
  by (simp add: hash_ok_def)

lemma decode_view_empty [simp]: "decode_view Map.empty = Map.empty"
  by (auto simp: decode_view_def)


lemma SetEntry_empty_twice_witness:
  "\<exists>t u. SetEntry mem_redis CONFIG_DB ''VLAN'' ''Vlan100'' (Some []) [] = (Inr (), t) \<and>
     SetEntry mem_redis CONFIG_DB ''VLAN'' ''Vlan100'' (Some []) t = (Inr (), u) \<and>
     mem_view u CONFIG_DB (entry_hash CONFIG_DB ''VLAN'' ''Vlan100'') = Map.empty"
  using SetEntry_empty_twice [OF mem.redis_total_axioms mem_empty, of CONFIG_DB "''VLAN''" "''Vlan100''"] by auto

end
