(* ===== verification/Model.thy ===== *)
theory Model
  imports GoStrings
begin

section \<open>The data model (pkg/model/packet-transport.go)\<close>

text \<open>
  The structs, enumerations and list constructors generated from the YANG schema. A pointer to a
  leaf or to a container is an \<open>option\<close>, a keyed YANG list is a \<open>gomap\<close>, \<open>uintN\<close> is
  \<open>N word\<close>, and an enumeration is a datatype whose first constructor is the \<open>UNSET\<close> value
  0 of the generated type. The field names carry a prefix that names their struct.
  \<open>Validate\<close>, \<open>Unmarshal\<close> and the schema are library calls (ytypes, ygot) and are not
  part of this theory.
\<close>

subsection \<open>Enumerations and their tables\<close>

datatype ETHERNET_SPEED =
    ETHERNET_SPEED_UNSET
  | SPEED_100GB | SPEED_100MB | SPEED_10GB | SPEED_10MB | SPEED_1GB | SPEED_2500MB
  | SPEED_25GB | SPEED_40GB | SPEED_50GB | SPEED_5GB | SPEED_UNKNOWN

datatype DuplexMode = DuplexMode_UNSET | DuplexMode_FULL | DuplexMode_HALF

datatype AdminStatus = AdminStatus_UNSET | AdminStatus_UP | AdminStatus_DOWN | AdminStatus_TESTING

datatype OperStatus =
    OperStatus_UNSET | OperStatus_UP | OperStatus_DOWN | OperStatus_TESTING | OperStatus_UNKNOWN
  | OperStatus_DORMANT | OperStatus_NOT_PRESENT | OperStatus_LOWER_LAYER_DOWN

datatype FrequencyGridType = Grid_UNSET | GRID_100GHZ | GRID_50GHZ | GRID_33GHZ | GRID_25GHZ

datatype OpticalModulationType = Modulation_UNSET | DP_QPSK | DP_16QAM

datatype OpticalModuleStatusType =
    Status_UNSET | STATE_DOWN | STATE_BOOTING_TOP_HALF | STATE_WAITING_RX_SIGNAL
  | STATE_BOOTING_BOTTOM_HALF | STATE_TESTING | STATE_READY | STATE_RESETTING

text \<open>
  A table of an enumeration, as in \<open>\<Lambda>Enum\<close>: the constant, its \<open>int64\<close> value and its
  YANG name. The value 0 (\<open>UNSET\<close>) has no entry.
\<close>

type_synonym 'e enum_table = "('e \<times> int \<times> string) list"

definition ethernet_speed_enum :: "ETHERNET_SPEED enum_table" where
  "ethernet_speed_enum =
     [(SPEED_100GB, 1, ''SPEED_100GB''),
      (SPEED_100MB, 2, ''SPEED_100MB''),
      (SPEED_10GB, 3, ''SPEED_10GB''),
      (SPEED_10MB, 4, ''SPEED_10MB''),
      (SPEED_1GB, 5, ''SPEED_1GB''),
      (SPEED_2500MB, 6, ''SPEED_2500MB''),
      (SPEED_25GB, 7, ''SPEED_25GB''),
      (SPEED_40GB, 8, ''SPEED_40GB''),
      (SPEED_50GB, 9, ''SPEED_50GB''),
      (SPEED_5GB, 10, ''SPEED_5GB''),
      (SPEED_UNKNOWN, 11, ''SPEED_UNKNOWN'')]"

definition duplex_mode_enum :: "DuplexMode enum_table" where
  "duplex_mode_enum = [(DuplexMode_FULL, 1, ''FULL''), (DuplexMode_HALF, 2, ''HALF'')]"

definition admin_status_enum :: "AdminStatus enum_table" where
  "admin_status_enum =
     [(AdminStatus_UP, 1, ''UP''), (AdminStatus_DOWN, 2, ''DOWN''), (AdminStatus_TESTING, 3, ''TESTING'')]"

definition oper_status_enum :: "OperStatus enum_table" where
  "oper_status_enum =
     [(OperStatus_UP, 2, ''UP''),
      (OperStatus_DOWN, 3, ''DOWN''),
      (OperStatus_TESTING, 4, ''TESTING''),
      (OperStatus_UNKNOWN, 5, ''UNKNOWN''),
      (OperStatus_DORMANT, 6, ''DORMANT''),
      (OperStatus_NOT_PRESENT, 7, ''NOT_PRESENT''),
      (OperStatus_LOWER_LAYER_DOWN, 8, ''LOWER_LAYER_DOWN'')]"

definition grid_enum :: "FrequencyGridType enum_table" where
  "grid_enum =
     [(GRID_100GHZ, 1, ''GRID_100GHZ''),
      (GRID_50GHZ, 2, ''GRID_50GHZ''),
      (GRID_33GHZ, 3, ''GRID_33GHZ''),
      (GRID_25GHZ, 4, ''GRID_25GHZ'')]"

definition modulation_enum :: "OpticalModulationType enum_table" where
  "modulation_enum = [(DP_QPSK, 1, ''DP_QPSK''), (DP_16QAM, 2, ''DP_16QAM'')]"

definition module_status_enum :: "OpticalModuleStatusType enum_table" where
  "module_status_enum =
     [(STATE_DOWN, 1, ''STATE_DOWN''),
      (STATE_BOOTING_TOP_HALF, 2, ''STATE_BOOTING_TOP_HALF''),
      (STATE_WAITING_RX_SIGNAL, 3, ''STATE_WAITING_RX_SIGNAL''),
      (STATE_BOOTING_BOTTOM_HALF, 4, ''STATE_BOOTING_BOTTOM_HALF''),
      (STATE_TESTING, 5, ''STATE_TESTING''),
      (STATE_READY, 6, ''STATE_READY''),
      (STATE_RESETTING, 7, ''STATE_RESETTING'')]"

text \<open>\<open>e[int64(c)].Name\<close>: the zero value of the definition for a missing key.\<close>

definition enum_name :: "'e enum_table \<Rightarrow> 'e \<Rightarrow> string" where
  "enum_name tab e = (case map_of tab e of None \<Rightarrow> [] | Some (c, n) \<Rightarrow> n)"

text \<open>
  The search the CLI makes: start with \<open>UNSET\<close>, take the first entry whose name matches.
\<close>

fun enum_search :: "'e enum_table \<Rightarrow> 'e \<Rightarrow> string \<Rightarrow> 'e" where
  "enum_search [] unset s = unset"
| "enum_search ((k, c, n) # tab) unset s = (if s = n then k else enum_search tab unset s)"

locale enum_def =
  fixes tab :: "'e enum_table" and unset :: "'e"
  assumes distinct_names: "distinct (map (snd \<circ> snd) tab)"
    and distinct_consts: "distinct (map fst tab)"
    and unset_absent: "unset \<notin> fst ` set tab"
begin

lemma enum_search_cases:
  "(\<exists>c. (enum_search tab unset s, c, s) \<in> set tab) \<or>
   enum_search tab unset s = unset \<and> s \<notin> (snd \<circ> snd) ` set tab"
  by (induction tab unset s rule: enum_search.induct) auto

lemma enum_search_unset_iff: "enum_search tab unset s = unset \<longleftrightarrow> s \<notin> (snd \<circ> snd) ` set tab"
  using enum_search_cases [of s] unset_absent by force

lemma enum_search_name: "e \<in> fst ` set tab \<Longrightarrow> enum_search tab unset (enum_name tab e) = e"
proof -
  assume "e \<in> fst ` set tab"
  then obtain c n where e: "(e, c, n) \<in> set tab" by force
  then have "enum_name tab e = n" using distinct_consts by (simp add: enum_name_def)
  moreover obtain c' where "(enum_search tab unset n, c', n) \<in> set tab"
    using e enum_search_cases [of n] by force
  moreover have "inj_on (snd \<circ> snd) (set tab)" using distinct_names by (simp add: distinct_map)
  ultimately have "(enum_search tab unset n, c', n) = (e, c, n)"
    using e by (intro inj_onD [of "snd \<circ> snd" "set tab"]) simp_all
  with \<open>enum_name tab e = n\<close> show ?thesis by simp
qed

lemma enum_name_search: "enum_search tab unset s \<noteq> unset \<Longrightarrow> enum_name tab (enum_search tab unset s) = s"
  using enum_search_cases [of s] distinct_consts by (auto simp: enum_name_def)

end

interpretation speed: enum_def ethernet_speed_enum ETHERNET_SPEED_UNSET
  by unfold_locales (simp_all add: ethernet_speed_enum_def)

interpretation duplex: enum_def duplex_mode_enum DuplexMode_UNSET
  by unfold_locales (simp_all add: duplex_mode_enum_def)

interpretation admin: enum_def admin_status_enum AdminStatus_UNSET
  by unfold_locales (simp_all add: admin_status_enum_def)

interpretation oper: enum_def oper_status_enum OperStatus_UNSET
  by unfold_locales (simp_all add: oper_status_enum_def)

interpretation grid: enum_def grid_enum Grid_UNSET
  by unfold_locales (simp_all add: grid_enum_def)

interpretation modulation: enum_def modulation_enum Modulation_UNSET
  by unfold_locales (simp_all add: modulation_enum_def)

interpretation status: enum_def module_status_enum Status_UNSET
  by unfold_locales (simp_all add: module_status_enum_def)

subsection \<open>Structs of the packet transponder\<close>

record PacketTransponder_Interface_Counters =
  ctr_CarrierTransitions :: "64 word option"
  ctr_InBroadcastPkts :: "64 word option"
  ctr_InDiscards :: "64 word option"
  ctr_InErrors :: "64 word option"
  ctr_InFcsErrors :: "64 word option"
  ctr_InMulticastPkts :: "64 word option"
  ctr_InOctets :: "64 word option"
  ctr_InPkts :: "64 word option"
  ctr_InUnicastPkts :: "64 word option"
  ctr_InUnknownProtos :: "64 word option"
  ctr_LastClear :: "64 word option"
  ctr_OutBroadcastPkts :: "64 word option"
  ctr_OutDiscards :: "64 word option"
  ctr_OutErrors :: "64 word option"
  ctr_OutMulticastPkts :: "64 word option"
  ctr_OutOctets :: "64 word option"
  ctr_OutPkts :: "64 word option"
  ctr_OutUnicastPkts :: "64 word option"

record Connection_OpticalModule =
  com_Channel :: "string option"
  com_Name :: "string option"

record OpticalModuleConnection =
  omc_Id :: "32 word option"
  omc_OpticalModule :: "Connection_OpticalModule option"

record PacketTransponder_Interface =
  if_AdminStatus :: AdminStatus
  if_AutoNegotiate :: "bool option"
  if_Counters :: "PacketTransponder_Interface_Counters option"
  if_Description :: "string option"
  if_DuplexMode :: DuplexMode
  if_EnableFlowControl :: "bool option"
  if_Enabled :: "bool option"
  if_Ifindex :: "32 word option"
  if_LastChange :: "64 word option"
  if_Logical :: "bool option"
  if_LoopbackMode :: "bool option"
  if_MacAddress :: "string option"
  if_Mtu :: "16 word option"
  if_Name :: "string option"
  if_OperStatus :: OperStatus
  if_OpticalModuleConnection :: "OpticalModuleConnection option"
  if_PortSpeed :: ETHERNET_SPEED
  if_Type :: int

record ChannelStats =
  cs_HdFecBer :: "string option"
  cs_Name :: "string option"
  cs_Occupancy :: "string option"
  cs_PostFecBer :: "string option"
  cs_SdFecBer :: "string option"

record OpticalModuleFrequency =
  omf_Channel :: "8 word option"
  omf_Grid :: FrequencyGridType

record OpticalModuleRms =
  rms_Xi :: "16 word option"
  rms_Xq :: "16 word option"
  rms_Yi :: "16 word option"
  rms_Yq :: "16 word option"

record PacketTransponder_OpticalModule =
  om_AllowOversubscription :: "bool option"
  om_BerInterval :: "32 word option"
  om_ChannelStats :: "ChannelStats gomap"
  om_Description :: "string option"
  om_Enabled :: "bool option"
  om_Losi :: "bool option"
  om_ModulationType :: OpticalModulationType
  om_Name :: "string option"
  om_OperationStatus :: OpticalModuleStatusType
  om_OpticalModuleFrequency :: "OpticalModuleFrequency option"
  om_OpticalModuleRms :: "OpticalModuleRms option"
  om_Prbs :: "bool option"
  om_SyncError :: "bool option"

record BreakoutMode =
  bm_ChannelSpeed :: ETHERNET_SPEED
  bm_NumChannels :: "8 word option"

record PacketTransponder_Port =
  pt_BreakoutMode :: "BreakoutMode option"
  pt_Description :: "string option"
  pt_Name :: "string option"

record PacketTransponder =
  AllowOversubscription :: "bool option"
  Interface :: "PacketTransponder_Interface gomap"
  OpticalModule :: "PacketTransponder_OpticalModule gomap"
  Port :: "PacketTransponder_Port gomap"

text \<open>The zero values of the structs (\<open>&T{}\<close>).\<close>

definition zero_Interface :: PacketTransponder_Interface where
  "zero_Interface =
     \<lparr>if_AdminStatus = AdminStatus_UNSET, if_AutoNegotiate = None, if_Counters = None,
      if_Description = None, if_DuplexMode = DuplexMode_UNSET, if_EnableFlowControl = None,
      if_Enabled = None, if_Ifindex = None, if_LastChange = None, if_Logical = None,
      if_LoopbackMode = None, if_MacAddress = None, if_Mtu = None, if_Name = None,
      if_OperStatus = OperStatus_UNSET, if_OpticalModuleConnection = None,
      if_PortSpeed = ETHERNET_SPEED_UNSET, if_Type = 0\<rparr>"

definition zero_Connection_OpticalModule :: Connection_OpticalModule where
  "zero_Connection_OpticalModule = \<lparr>com_Channel = None, com_Name = None\<rparr>"

definition zero_Connection :: OpticalModuleConnection where
  "zero_Connection = \<lparr>omc_Id = None, omc_OpticalModule = None\<rparr>"

definition zero_ChannelStats :: ChannelStats where
  "zero_ChannelStats =
     \<lparr>cs_HdFecBer = None, cs_Name = None, cs_Occupancy = None, cs_PostFecBer = None, cs_SdFecBer = None\<rparr>"

definition zero_Frequency :: OpticalModuleFrequency where
  "zero_Frequency = \<lparr>omf_Channel = None, omf_Grid = Grid_UNSET\<rparr>"

definition zero_Rms :: OpticalModuleRms where
  "zero_Rms = \<lparr>rms_Xi = None, rms_Xq = None, rms_Yi = None, rms_Yq = None\<rparr>"

definition zero_OpticalModule :: PacketTransponder_OpticalModule where
  "zero_OpticalModule =
     \<lparr>om_AllowOversubscription = None, om_BerInterval = None, om_ChannelStats = [],
      om_Description = None, om_Enabled = None, om_Losi = None, om_ModulationType = Modulation_UNSET,
      om_Name = None, om_OperationStatus = Status_UNSET, om_OpticalModuleFrequency = None,
      om_OpticalModuleRms = None, om_Prbs = None, om_SyncError = None\<rparr>"

definition zero_Port :: PacketTransponder_Port where
  "zero_Port = \<lparr>pt_BreakoutMode = None, pt_Description = None, pt_Name = None\<rparr>"

definition zero_PacketTransponder :: PacketTransponder where
  "zero_PacketTransponder = \<lparr>AllowOversubscription = None, Interface = [], OpticalModule = [], Port = []\<rparr>"

subsection \<open>List constructors and list keys\<close>

lemma update_fresh: "k \<notin> fst ` set m \<Longrightarrow> AList.update k v m = m @ [(k, v)]"
  by (induction m) auto

text \<open>
  The generated \<open>NewX\<close> methods: refuse a key that is in use, otherwise add an entry that holds
  its key. The code returns a pointer to the entry that was added; the model returns the struct
  with the entry in it.
\<close>

definition list_insert :: "string \<Rightarrow> string \<Rightarrow> 'k \<Rightarrow> 'v \<Rightarrow> ('k \<times> 'v) list \<Rightarrow> ('k \<times> 'v) list res" where
  "list_insert listname shown key v m =
     (case map_of m key of
        Some _ \<Rightarrow> Inl (Errorf (''duplicate key %v for list '' @ listname) [shown])
      | None \<Rightarrow> Inr (AList.update key v m))"

definition NewInterface :: "string \<Rightarrow> PacketTransponder \<Rightarrow> PacketTransponder res" where
  "NewInterface name t =
     res_bind (list_insert ''Interface'' name name (zero_Interface\<lparr>if_Name := Some name\<rparr>) (Interface t))
       (\<lambda>m. Inr (t\<lparr>Interface := m\<rparr>))"

definition NewOpticalModule :: "string \<Rightarrow> PacketTransponder \<Rightarrow> PacketTransponder res" where
  "NewOpticalModule name t =
     res_bind (list_insert ''OpticalModule'' name name (zero_OpticalModule\<lparr>om_Name := Some name\<rparr>) (OpticalModule t))
       (\<lambda>m. Inr (t\<lparr>OpticalModule := m\<rparr>))"

definition NewPort :: "string \<Rightarrow> PacketTransponder \<Rightarrow> PacketTransponder res" where
  "NewPort name t =
     res_bind (list_insert ''Port'' name name (zero_Port\<lparr>pt_Name := Some name\<rparr>) (Port t))
       (\<lambda>m. Inr (t\<lparr>Port := m\<rparr>))"

definition NewChannelStats :: "string \<Rightarrow> PacketTransponder_OpticalModule \<Rightarrow> PacketTransponder_OpticalModule res" where
  "NewChannelStats name t =
     res_bind (list_insert ''ChannelStats'' name name (zero_ChannelStats\<lparr>cs_Name := Some name\<rparr>) (om_ChannelStats t))
       (\<lambda>m. Inr (t\<lparr>om_ChannelStats := m\<rparr>))"

text \<open>\<open>\<Lambda>ListKeyMap\<close>: the key leaf of a list entry, an error when it is not set.\<close>

datatype keyval = KeyString string | KeyEnum int | KeyInt "32 word"

definition key_of_name :: "string option \<Rightarrow> (string \<times> keyval) list res" where
  "key_of_name n =
     (case n of None \<Rightarrow> Inl (Errorf ''nil value for key Name'' []) | Some s \<Rightarrow> Inr [(''name'', KeyString s)])"

definition Interface_ListKeyMap :: "PacketTransponder_Interface \<Rightarrow> (string \<times> keyval) list res" where
  "Interface_ListKeyMap t = key_of_name (if_Name t)"

definition OpticalModule_ListKeyMap :: "PacketTransponder_OpticalModule \<Rightarrow> (string \<times> keyval) list res" where
  "OpticalModule_ListKeyMap t = key_of_name (om_Name t)"

definition ChannelStats_ListKeyMap :: "ChannelStats \<Rightarrow> (string \<times> keyval) list res" where
  "ChannelStats_ListKeyMap t = key_of_name (cs_Name t)"

definition Port_ListKeyMap :: "PacketTransponder_Port \<Rightarrow> (string \<times> keyval) list res" where
  "Port_ListKeyMap t = key_of_name (pt_Name t)"

text \<open>
  The contract every keyed list of the model keeps: a constructor fails exactly on a key in use,
  adds one entry and nothing else, and the key map of an entry is the key it is stored under.
\<close>

locale yang_list =
  fixes entries :: "'t \<Rightarrow> ('k \<times> 'v) list"
    and new :: "'k \<Rightarrow> 't \<Rightarrow> 't res"
    and fresh :: "'k \<Rightarrow> 'v"
    and keymap :: "'v \<Rightarrow> (string \<times> keyval) list res"
    and key :: "'k \<Rightarrow> (string \<times> keyval) list"
  assumes new_ok: "k \<notin> fst ` set (entries t) \<Longrightarrow>
      \<exists>t'. new k t = Inr t' \<and> entries t' = entries t @ [(k, fresh k)]"
    and new_dup: "k \<in> fst ` set (entries t) \<Longrightarrow> \<exists>e. new k t = Inl e"
    and keymap_fresh: "keymap (fresh k) = Inr (key k)"
begin

definition keyed :: "'t \<Rightarrow> bool" where
  "keyed t \<longleftrightarrow> distinct (map fst (entries t)) \<and> (\<forall>(k, v) \<in> set (entries t). keymap v = Inr (key k))"

lemma new_Inr: "new k t = Inr t' \<Longrightarrow> k \<notin> fst ` set (entries t) \<and> entries t' = entries t @ [(k, fresh k)]"
  using new_ok [of k t] new_dup [of k t] by fastforce

lemma new_fails_iff: "(\<exists>e. new k t = Inl e) \<longleftrightarrow> k \<in> fst ` set (entries t)"
  using new_ok [of k t] new_dup [of k t] by fastforce

lemma new_keyed: "keyed t \<Longrightarrow> new k t = Inr t' \<Longrightarrow> keyed t'"
  using new_Inr [of k t t'] keymap_fresh by (auto simp: keyed_def)

lemma new_lookup: "new k t = Inr t' \<Longrightarrow> map_of (entries t') = (map_of (entries t))(k \<mapsto> fresh k)"
  using new_Inr [of k t t'] by (metis update_conv' update_fresh)

lemma new_twice: "new k t = Inr t' \<Longrightarrow> \<exists>e. new k t' = Inl e"
  using new_Inr [of k t t'] by (simp add: new_fails_iff)

end

lemma list_insert_fresh: "k \<notin> fst ` set m \<Longrightarrow> list_insert n sh k v m = Inr (m @ [(k, v)])"
  by (simp add: list_insert_def update_fresh map_of_eq_None_iff [THEN iffD2])

lemma list_insert_dup:
  "k \<in> fst ` set m \<Longrightarrow> list_insert n sh k v m = Inl (Errorf (''duplicate key %v for list '' @ n) [sh])"
  by (cases "map_of m k") (auto simp: list_insert_def map_of_eq_None_iff)

lemma list_insert_Inr: "list_insert n sh k v m = Inr m' \<longleftrightarrow> k \<notin> fst ` set m \<and> m' = m @ [(k, v)]"
  by (cases "k \<in> fst ` set m") (auto simp: list_insert_fresh list_insert_dup)

interpretation intf_list: yang_list Interface NewInterface "\<lambda>n. zero_Interface\<lparr>if_Name := Some n\<rparr>"
    Interface_ListKeyMap "\<lambda>n. [(''name'', KeyString n)]"
  by unfold_locales
    (simp_all add: NewInterface_def list_insert_fresh list_insert_dup Interface_ListKeyMap_def key_of_name_def)

interpretation om_list: yang_list OpticalModule NewOpticalModule "\<lambda>n. zero_OpticalModule\<lparr>om_Name := Some n\<rparr>"
    OpticalModule_ListKeyMap "\<lambda>n. [(''name'', KeyString n)]"
  by unfold_locales
    (simp_all add: NewOpticalModule_def list_insert_fresh list_insert_dup OpticalModule_ListKeyMap_def key_of_name_def)

interpretation port_list: yang_list Port NewPort "\<lambda>n. zero_Port\<lparr>pt_Name := Some n\<rparr>"
    Port_ListKeyMap "\<lambda>n. [(''name'', KeyString n)]"
  by unfold_locales
    (simp_all add: NewPort_def list_insert_fresh list_insert_dup Port_ListKeyMap_def key_of_name_def)

interpretation channel_list: yang_list om_ChannelStats NewChannelStats "\<lambda>n. zero_ChannelStats\<lparr>cs_Name := Some n\<rparr>"
    ChannelStats_ListKeyMap "\<lambda>n. [(''name'', KeyString n)]"
  by unfold_locales
    (simp_all add: NewChannelStats_def list_insert_fresh list_insert_dup ChannelStats_ListKeyMap_def key_of_name_def)

end
