(* ===== verification/GoFloat.thy ===== *)
theory GoFloat
  imports GoStrings Complex_Main
begin

section \<open>Floating point as the occupancy computation uses it\<close>

text \<open>
  The occupancy of an optical channel is computed in \<open>float32\<close>, printed with \<open>%f\<close>, parsed
  back by \<open>strconv.ParseFloat(s, 64)\<close> and compared with \<open>100.0\<close>. The values are
  non-negative, so a float is its exact value, a non-negative \<open>rat\<close>, and an operation is the
  exact operation followed by \<open>fl p\<close>, IEEE rounding to \<open>p\<close> significant bits, ties to
  even (\<open>p = 24\<close> for \<open>float32\<close>, \<open>53\<close> for \<open>float64\<close>).

  Bounds. \<open>fl\<close> finds the exponent of values from \<open>2 ^ (-64)\<close> on (or 0); the smallest nonzero
  value here is a millionth. The largest input is an \<open>int64\<close>, far below the overflow threshold of
  \<open>float32\<close>, so there are no infinities.
\<close>

subsection \<open>Rounding\<close>

definition round_even :: "rat \<Rightarrow> int" where
  "round_even x =
     (let f = \<lfloor>x\<rfloor>; d = x - of_int f
      in if d < 1 / 2 then f else if 1 / 2 < d then f + 1 else if even f then f else f + 1)"

fun ilog2 :: "nat \<Rightarrow> nat" where
  "ilog2 n = (if n \<le> 1 then 0 else Suc (ilog2 (n div 2)))"

declare ilog2.simps [simp del]

text \<open>The weight of the last of \<open>p\<close> significant bits of \<open>x\<close>, times \<open>2 ^ 64 * 2 ^ p\<close>.\<close>

definition ulp :: "nat \<Rightarrow> rat \<Rightarrow> rat" where
  "ulp p x = 2 ^ ilog2 (nat \<lfloor>x * 2 ^ 64\<rfloor>) / (2 ^ 64 * 2 ^ (p - 1))"

definition fl :: "nat \<Rightarrow> rat \<Rightarrow> rat" where
  "fl p x = (if x = 0 then 0 else of_int (round_even (x / ulp p x)) * ulp p x)"

definition float32 :: "rat \<Rightarrow> rat" where "float32 = fl 24"
definition float64 :: "rat \<Rightarrow> rat" where "float64 = fl 53"

lemma round_even_of_int [simp]: "round_even (of_int n) = n"
  by (simp add: round_even_def)

lemma round_even_bounds: "\<lfloor>x\<rfloor> \<le> round_even x" "round_even x \<le> \<lfloor>x\<rfloor> + 1"
  by (auto simp: round_even_def Let_def)

lemma round_even_mono: "x \<le> y \<Longrightarrow> round_even x \<le> round_even y"
proof -
  assume le: "x \<le> y"
  show ?thesis
  proof (cases "\<lfloor>x\<rfloor> = \<lfloor>y\<rfloor>")
    case True
    with le show ?thesis by (auto simp: round_even_def Let_def)
  next
    case False
    with floor_mono [OF le] have "\<lfloor>x\<rfloor> + 1 \<le> \<lfloor>y\<rfloor>" by simp
    then show ?thesis using round_even_bounds(2) [of x] round_even_bounds(1) [of y] by linarith
  qed
qed

lemma ilog2_bounds: "0 < n \<Longrightarrow> 2 ^ ilog2 n \<le> n \<and> n < 2 * 2 ^ ilog2 n"
proof (induction n rule: ilog2.induct)
  case (1 n)
  show ?case
  proof (cases "n \<le> 1")
    case True
    with 1 show ?thesis by (simp add: ilog2.simps [of n])
  next
    case False
    with 1 have "2 ^ ilog2 (n div 2) \<le> n div 2 \<and> n div 2 < 2 * 2 ^ ilog2 (n div 2)" by simp
    with False show ?thesis by (subst (1 2) ilog2.simps) (simp, linarith)
  qed
qed

lemma ilog2_mono: "m \<le> n \<Longrightarrow> ilog2 m \<le> ilog2 n"
proof (cases "m = 0")
  case True
  then show ?thesis by (simp add: ilog2.simps [of 0])
next
  case False
  assume "m \<le> n"
  with False have "(2::nat) ^ ilog2 m < 2 ^ Suc (ilog2 n)"
    using ilog2_bounds [of m] ilog2_bounds [of n] by simp
  then have "ilog2 m < Suc (ilog2 n)" by (rule power_less_imp_less_exp [rotated]) simp
  then show ?thesis by simp
qed

definition in_range :: "rat \<Rightarrow> bool" where
  "in_range x \<longleftrightarrow> x = 0 \<or> 1 / 2 ^ 64 \<le> x"

lemma ulp_pos: "0 < ulp p x"
  by (simp add: ulp_def)

lemma ulp_mono: "0 \<le> x \<Longrightarrow> x \<le> y \<Longrightarrow> ulp p x \<le> ulp p y"
  unfolding ulp_def
  by (intro divide_right_mono power_increasing ilog2_mono nat_mono floor_mono mult_right_mono) auto

text \<open>In units of its last place a value lies between \<open>2 ^ (p - 1)\<close> and \<open>2 ^ p\<close>.\<close>

lemma ulp_bounds:
  assumes "1 / 2 ^ 64 \<le> x"
  shows "2 ^ (p - 1) \<le> x / ulp p x" "x / ulp p x < 2 * 2 ^ (p - 1)"
proof -
  let ?n = "nat \<lfloor>x * 2 ^ 64\<rfloor>"
  have one: "1 \<le> x * 2 ^ 64" using assms by (simp add: field_simps)
  then have f: "1 \<le> \<lfloor>x * 2 ^ 64\<rfloor>" by simp
  then have b: "2 ^ ilog2 ?n \<le> ?n \<and> ?n < 2 * 2 ^ ilog2 ?n" by (intro ilog2_bounds) simp
  have n: "(of_nat ?n :: rat) = of_int \<lfloor>x * 2 ^ 64\<rfloor>" using f by simp
  have "(of_nat (2 ^ ilog2 ?n) :: rat) \<le> of_nat ?n" using b of_nat_le_iff by blast
  then have "(2 ^ ilog2 ?n :: rat) \<le> of_int \<lfloor>x * 2 ^ 64\<rfloor>" unfolding n by simp
  then have lo: "(2 ^ ilog2 ?n :: rat) \<le> x * 2 ^ 64" by (rule order_trans [OF _ of_int_floor_le])
  have "(of_nat ?n + 1 :: rat) \<le> of_nat (2 * 2 ^ ilog2 ?n)"
    using b by (metis Suc_leI add.commute of_nat_Suc of_nat_le_iff)
  then have hi: "x * 2 ^ 64 < (2 * 2 ^ ilog2 ?n :: rat)" using n by simp linarith
  show "2 ^ (p - 1) \<le> x / ulp p x" "x / ulp p x < 2 * 2 ^ (p - 1)"
    using lo hi by (simp_all add: ulp_def field_simps)
qed

lemma fl_bounds:
  assumes "1 / 2 ^ 64 \<le> x"
  shows "2 ^ (p - 1) * ulp p x \<le> fl p x" "fl p x \<le> 2 * 2 ^ (p - 1) * ulp p x"
proof -
  have x: "x \<noteq> 0" using assms by auto
  have "(2 ^ (p - 1) :: int) \<le> round_even (x / ulp p x)"
    using round_even_mono [OF ulp_bounds(1) [OF assms, of p]] round_even_of_int [of "2 ^ (p - 1)"] by simp
  then have "(of_int (2 ^ (p - 1)) :: rat) \<le> of_int (round_even (x / ulp p x))" by (simp only: of_int_le_iff)
  then show "2 ^ (p - 1) * ulp p x \<le> fl p x" using x ulp_pos [of p x] by (simp add: fl_def)
  have "round_even (x / ulp p x) \<le> (2 * 2 ^ (p - 1) :: int)"
    using round_even_mono [OF less_imp_le [OF ulp_bounds(2) [OF assms, of p]]]
      round_even_of_int [of "2 * 2 ^ (p - 1)"] by simp
  then have "(of_int (round_even (x / ulp p x)) :: rat) \<le> of_int (2 * 2 ^ (p - 1))" by (simp only: of_int_le_iff)
  then show "fl p x \<le> 2 * 2 ^ (p - 1) * ulp p x" using x ulp_pos [of p x] by (simp add: fl_def)
qed

lemma ulp_double:
  assumes "ulp p x < ulp p y"
  shows "2 * ulp p x \<le> ulp p y"
proof -
  let ?i = "ilog2 (nat \<lfloor>x * 2 ^ 64\<rfloor>)" and ?j = "ilog2 (nat \<lfloor>y * 2 ^ 64\<rfloor>)"
  have "(2 :: rat) ^ ?i < 2 ^ ?j" using assms by (simp add: ulp_def divide_less_cancel)
  then have "?i < ?j" by (simp add: power_strict_increasing_iff)
  then have "(2 :: rat) ^ Suc ?i \<le> 2 ^ ?j" by (intro power_increasing) auto
  then have "(2 :: rat) ^ Suc ?i / (2 ^ 64 * 2 ^ (p - 1)) \<le> 2 ^ ?j / (2 ^ 64 * 2 ^ (p - 1))"
    by (intro divide_right_mono) auto
  then show ?thesis by (simp add: ulp_def)
qed

theorem fl_mono:
  assumes "in_range x" "in_range y" "x \<le> y"
  shows "fl p x \<le> fl p y"
proof -
  have pos: "0 \<le> fl p z" if "in_range z" for z
    using that fl_bounds(1) [of z p] ulp_pos [of p z]
    by (auto simp: in_range_def fl_def [of p 0] intro: order_trans [rotated])
  show ?thesis
  proof (cases "x = 0")
    case True
    with pos [OF assms(2)] show ?thesis by (simp add: fl_def)
  next
    case False
    with assms have x: "1 / 2 ^ 64 \<le> x" by (simp add: in_range_def)
    with assms have y: "1 / 2 ^ 64 \<le> y" by linarith
    from x have nz: "x \<noteq> 0" "y \<noteq> 0" "0 \<le> x" using y by auto
    show ?thesis
    proof (cases "ulp p x = ulp p y")
      case True
      have "x / ulp p y \<le> y / ulp p y" using assms(3) ulp_pos [of p y] by (intro divide_right_mono) auto
      then show ?thesis using True nz ulp_pos [of p y] by (simp add: fl_def round_even_mono)
    next
      case False
      with ulp_mono [OF nz(3) assms(3), of p] have "2 * ulp p x \<le> ulp p y" by (intro ulp_double) simp
      then have "2 ^ (p - 1) * (2 * ulp p x) \<le> 2 ^ (p - 1) * ulp p y" by (intro mult_left_mono) auto
      then have "2 * 2 ^ (p - 1) * ulp p x \<le> 2 ^ (p - 1) * ulp p y"
        by (simp only: mult.assoc mult.left_commute [of 2])
      with fl_bounds(2) [OF x, of p] fl_bounds(1) [OF y, of p] show ?thesis by linarith
    qed
  qed
qed

subsection \<open>The occupancy value and its text\<close>

text \<open>\<open>float32(acc) * 100 / float32(total)\<close>\<close>

definition occupancy32 :: "nat \<Rightarrow> nat \<Rightarrow> rat" where
  "occupancy32 acc capacity =
     float32 (float32 (float32 (of_nat acc) * float32 100) / float32 (of_nat capacity))"

text \<open>\<open>fmt.Sprintf("%f", x)\<close>: the exact value rounded to six decimals.\<close>

fun pad_digits :: "nat \<Rightarrow> nat \<Rightarrow> string" where
  "pad_digits 0 n = []"
| "pad_digits (Suc k) n = pad_digits k (n div 10) @ [digit_char (n mod 10)]"

abbreviation pad6 :: "nat \<Rightarrow> string" where
  "pad6 \<equiv> pad_digits 6"

definition format_f :: "rat \<Rightarrow> string" where
  "format_f x = (let n = nat (round_even (x * 1000000))
     in itoa_nat (n div 1000000) @ ''.'' @ pad6 (n mod 1000000))"

text \<open>
  \<open>strconv.ParseFloat(s, 64)\<close> on the strings \<open>%f\<close> produces, digits with an optional
  fraction. Signs, exponents and the named values of the full grammar are not modelled: they are
  an error here.
\<close>

definition ParseFloat :: "string \<Rightarrow> rat res" where
  "ParseFloat s =
     (let bad = Inl (Errorf ''strconv.ParseFloat: invalid syntax'' [s])
      in case split_char (CHR ''.'') s of
           [a] \<Rightarrow> (case parse_digits a of None \<Rightarrow> bad | Some n \<Rightarrow> Inr (float64 (of_nat n)))
         | [a, b] \<Rightarrow>
             (case parse_digits (a @ b) of None \<Rightarrow> bad
              | Some n \<Rightarrow> Inr (float64 (of_nat n / 10 ^ length b)))
         | _ \<Rightarrow> bad)"

lemma digits_acc_pad: "n < 10 ^ k \<Longrightarrow> digits_acc a (pad_digits k n) = Some (a * 10 ^ k + n)"
proof (induction k arbitrary: n)
  case (Suc k)
  then have "n div 10 < 10 ^ k" by (simp add: less_mult_imp_div_less mult.commute)
  then show ?case by (simp add: digits_acc_append Suc.IH algebra_simps)
qed simp

lemma length_pad_digits [simp]: "length (pad_digits k n) = k"
  by (induction k arbitrary: n) auto

lemma pad_digits_digits: "c \<in> set (pad_digits k n) \<Longrightarrow> is_digit c"
  by (induction k arbitrary: n) auto

lemma pad_digits_no_dot: "CHR ''.'' \<notin> set (pad_digits k n)"
  using pad_digits_digits [of "CHR ''.''" k n] by (auto simp: is_digit_def digit_val_def)

lemma itoa_nat_no_dot: "CHR ''.'' \<notin> set (itoa_nat n)"
  using itoa_nat_digits [of "CHR ''.''" n] by (auto simp: is_digit_def digit_val_def)

lemma ParseFloat_format_f:
  assumes "0 \<le> x"
  shows "ParseFloat (format_f x) = Inr (float64 (of_int (round_even (x * 1000000)) / 1000000))"
proof -
  define n where "n = nat (round_even (x * 1000000))"
  have "0 \<le> round_even (x * 1000000)"
    using round_even_mono [of 0 "x * 1000000"] round_even_of_int [of 0] assms by simp
  then have n: "(of_int (round_even (x * 1000000)) :: rat) = of_nat n" by (simp add: n_def)
  have "parse_digits (itoa_nat (n div 1000000) @ pad6 (n mod 1000000)) = Some n"
    by (simp add: parse_digits_def digits_acc_append digits_acc_itoa_nat digits_acc_pad div_mult_mod_eq)
  then show ?thesis
    unfolding n by (simp add: ParseFloat_def format_f_def n_def [symmetric] Let_def
        split_char_append [OF itoa_nat_no_dot] split_char_none [OF pad_digits_no_dot])
qed

subsection \<open>The decision an occupancy text leads to\<close>

text \<open>
  The printed and reparsed percentage exceeds 100 exactly when the sum exceeds the capacity: every
  rounding on the way is monotone, 100000 of 100000 stays exactly 100 and 100001 of 100000 stays above it.
\<close>

lemma ilog2_eval:
  "ilog2 0 = 0" "ilog2 (Suc 0) = 0" "ilog2 1 = 0"
  "ilog2 (numeral w) = (if numeral w \<le> (1::nat) then 0 else Suc (ilog2 (numeral w div 2)))"
  by (subst ilog2.simps; simp)+

lemma floor_rat_eval:
  "\<lfloor>(numeral a :: rat) / numeral b\<rfloor> = numeral a div numeral b"
  "\<lfloor>(1 :: rat) / numeral b\<rfloor> = 1 div numeral b"
  using floor_divide_of_int_eq [of "numeral a" "numeral b", where 'a = rat]
    floor_divide_of_int_eq [of "1" "numeral b", where 'a = rat] by simp_all

lemmas fl_eval = float32_def float64_def fl_def ulp_def round_even_def Let_def ilog2_eval floor_rat_eval

lemma float_exact:
  "float32 0 = 0" "float32 1 = 1" "float32 100 = 100" "float32 100000 = 100000"
  "float64 0 = 0" "float64 100 = 100"
  by (simp_all add: fl_eval)

definition occupancy_millionths :: "nat \<Rightarrow> int" where
  "occupancy_millionths acc = round_even (occupancy32 acc 100000 * 1000000)"

lemma occupancy_millionths_at:
  "occupancy_millionths 0 = 0" "occupancy_millionths 100000 = 100000000"
  "occupancy_millionths 100001 = 100000999"
  by (simp_all add: occupancy_millionths_def occupancy32_def fl_eval)

lemma in_range_int: "0 \<le> n \<Longrightarrow> in_range (of_int n)"
proof (cases "n = 0")
  case False
  assume "0 \<le> n"
  with False have "(1 :: rat) \<le> of_int n" by simp
  moreover have "1 / 2 ^ 64 \<le> (1 :: rat)" by simp
  ultimately show ?thesis unfolding in_range_def by linarith
qed (simp add: in_range_def)

lemma in_range_millionths: "0 \<le> n \<Longrightarrow> in_range (of_int n / 1000000)"
proof (cases "n = 0")
  case False
  assume "0 \<le> n"
  with False have "(1 :: rat) \<le> of_int n" by simp
  then have "1 / 1000000 \<le> (of_int n / 1000000 :: rat)" by simp
  moreover have "1 / 2 ^ 64 \<le> (1 / 1000000 :: rat)" by simp
  ultimately show ?thesis unfolding in_range_def by linarith
qed (simp add: in_range_def)

lemma float32_ge_1: "1 \<le> x \<Longrightarrow> 1 \<le> float32 x"
  using fl_mono [of 1 x 24] float_exact(2) by (simp add: float32_def in_range_def)

lemma float32_nat: "float32 (of_nat a) = 0 \<and> a = 0 \<or> 1 \<le> float32 (of_nat a)"
  by (cases "a = 0") (simp_all add: float_exact float32_ge_1)

lemma occupancy32_mono:
  assumes "a \<le> b"
  shows "occupancy32 a 100000 \<le> occupancy32 b 100000" "0 \<le> occupancy32 a 100000"
proof -
  define f where "f x = float32 (float32 x * 100) / (100000 :: rat)" for x
  have rng: "in_range (of_nat n)" for n using in_range_int [of "int n"] by simp
  have step1: "in_range (float32 (of_nat n) * 100)" for n
    using float32_nat [of n] by (auto simp: in_range_def)
  have step2: "f (of_nat n) = 0 \<and> n = 0 \<or> 1 / 100000 \<le> f (of_nat n)" for n
    using float32_nat [of n] float32_ge_1 [of "float32 (of_nat n) * 100"]
    by (auto simp: f_def float_exact divide_right_mono)
  have step3: "in_range (f (of_nat n))" for n using step2 [of n] by (auto simp: in_range_def)
  have "float32 (of_nat a) \<le> float32 (of_nat b)"
    unfolding float32_def using assms rng by (intro fl_mono) auto
  then have "float32 (float32 (of_nat a) * 100) \<le> float32 (float32 (of_nat b) * 100)"
    using step1 fl_mono [OF step1 step1] by (simp add: float32_def)
  then have "f (of_nat a) \<le> f (of_nat b)" by (simp add: f_def divide_right_mono)
  with step3 have mono: "float32 (f (of_nat a)) \<le> float32 (f (of_nat b))"
    unfolding float32_def by (intro fl_mono) auto
  have "0 \<le> f (of_nat a)" using step2 [of a] by linarith
  with step3 have "float32 0 \<le> float32 (f (of_nat a))"
    unfolding float32_def by (intro fl_mono) (auto simp: in_range_def)
  with mono show "occupancy32 a 100000 \<le> occupancy32 b 100000" "0 \<le> occupancy32 a 100000"
    by (simp_all add: occupancy32_def f_def float_exact)
qed

lemma occupancy_millionths_mono: "a \<le> b \<Longrightarrow> occupancy_millionths a \<le> occupancy_millionths b"
  unfolding occupancy_millionths_def by (intro round_even_mono mult_right_mono occupancy32_mono) auto

lemma occupancy_millionths_nonneg: "0 \<le> occupancy_millionths a"
  using occupancy_millionths_mono [of 0 a] by (simp add: occupancy_millionths_at)

text \<open>The occupancy text of \<open>acc\<close> out of the capacity 100000.\<close>

lemma occupancy_text_over:
  "\<exists>x. ParseFloat (format_f (occupancy32 acc 100000)) = Inr x \<and> (100 < x \<longleftrightarrow> 100000 < acc)"
proof -
  let ?q = "\<lambda>n. of_int (occupancy_millionths n) / 1000000 :: rat"
  have mono: "float64 (?q a) \<le> float64 (?q b)" if "a \<le> b" for a b
    unfolding float64_def using that occupancy_millionths_nonneg
    by (intro fl_mono in_range_millionths divide_right_mono) (auto intro: occupancy_millionths_mono)
  have at: "float64 (?q 100000) = 100" "100 < float64 (?q 100001)"
    by (simp_all add: occupancy_millionths_at fl_eval)
  have "100 < float64 (?q acc) \<longleftrightarrow> 100000 < acc"
  proof (cases "100000 < acc")
    case True
    with mono [of 100001 acc] at show ?thesis by simp
  next
    case False
    with mono [of acc 100000] at show ?thesis by simp
  qed
  then show ?thesis
    using ParseFloat_format_f [OF occupancy32_mono(2) [of acc acc]]
    by (simp add: occupancy_millionths_def)
qed

end
