(* ===== verification/Transport.thy ===== *)
theory Transport
  imports Redis Model GoFloat
begin

section \<open>Diff tasks and optical transport (pkg/sonic/diff.go, pkg/sonic/transport.go)\<close>

text \<open>
  A committed change reaches the transport daemon in one of two ways: \<open>HandleOptDiff\<close> turns the
  leaf changes of one optical module into fields of its \<open>MODULE_CONFIG_TABLE\<close> entry, and
  \<open>ConfigureTransport\<close> writes the entries of all modules from the model.
  \<open>FillTransportDefaultConfig\<close> completes a module, occupancy included, and
  \<open>FillTransportState\<close> reads back what the daemon reports. A function of the code that fails
  leaves its pointer argument partly written; every caller drops the argument then, so the model
  returns the updated struct on success only.
\<close>

subsection \<open>Diff tasks\<close>

datatype DiffType = DiffAdded | DiffDeleted | DiffModified

record PathElem =
  pe_Name :: string
  pe_Key :: "string gomap"

text \<open>The oneof of a gNMI \<open>TypedValue\<close>, as far as the handlers look at it.\<close>

datatype TypedValue = StringVal string | UintVal nat | BoolVal bool | OtherVal

record DiffTask =
  dt_Type :: DiffType
  dt_Path :: "PathElem list"
  dt_Value :: "TypedValue option"

definition PathElems_String :: "PathElem list \<Rightarrow> string" where
  "PathElems_String m = Join (filter (\<lambda>n. n \<noteq> ''config'') (map pe_Name m)) ''.''"

text \<open>The type assertions on \<open>t.Value.Value\<close>: a nil \<open>Value\<close> and a foreign type panic.\<close>

definition conversion_panic :: err where
  "conversion_panic = Panic ''interface conversion''"

definition task_string :: "DiffTask \<Rightarrow> string res" where
  "task_string t =
     res_bind (deref (dt_Value t)) (\<lambda>v. case v of StringVal s \<Rightarrow> Inr s | _ \<Rightarrow> Inl conversion_panic)"

definition task_uint :: "DiffTask \<Rightarrow> nat res" where
  "task_uint t =
     res_bind (deref (dt_Value t)) (\<lambda>v. case v of UintVal n \<Rightarrow> Inr n | _ \<Rightarrow> Inl conversion_panic)"

definition task_bool :: "DiffTask \<Rightarrow> bool res" where
  "task_bool t =
     res_bind (deref (dt_Value t)) (\<lambda>v. case v of BoolVal b \<Rightarrow> Inr b | _ \<Rightarrow> Inl conversion_panic)"

definition as_strings :: "dval \<Rightarrow> string list res" where
  "as_strings v = (case v of VStrings vs \<Rightarrow> Inr vs | _ \<Rightarrow> Inl conversion_panic)"

definition as_string :: "dval \<Rightarrow> string res" where
  "as_string v = (case v of VString s \<Rightarrow> Inr s | _ \<Rightarrow> Inl conversion_panic)"

definition index_of :: "'a list \<Rightarrow> nat \<Rightarrow> 'a res" where
  "index_of xs i = (if i < length xs then Inr (xs ! i) else Inl (Panic ''index out of range''))"

subsection \<open>HandleOptDiff\<close>

definition CONFIG_TABLE :: string where "CONFIG_TABLE = ''MODULE_CONFIG_TABLE''"
definition MAPPING_TABLE :: string where "MAPPING_TABLE = ''MODULE_MAPPING''"
definition NETIF_STATE_TABLE :: string where "NETIF_STATE_TABLE = ''NETIF_STATE_TABLE''"

definition gridTypeToInt :: "FrequencyGridType \<Rightarrow> int" where
  "gridTypeToInt t =
     (case t of GRID_100GHZ \<Rightarrow> 100 | GRID_50GHZ \<Rightarrow> 50 | GRID_33GHZ \<Rightarrow> 33 | GRID_25GHZ \<Rightarrow> 25 | Grid_UNSET \<Rightarrow> 50)"

definition grid_of_name :: "string \<Rightarrow> int" where
  "grid_of_name s =
     (if s = enum_name grid_enum GRID_100GHZ then 100
      else if s = enum_name grid_enum GRID_50GHZ then 50
      else if s = enum_name grid_enum GRID_33GHZ then 33
      else if s = enum_name grid_enum GRID_25GHZ then 25 else 0)"

definition on_off :: "bool \<Rightarrow> dval" where
  "on_off b = VString (if b then ''on'' else ''off'')"

definition opt_task :: "DiffTask \<Rightarrow> dval gomap \<Rightarrow> dval gomap res" where
  "opt_task t entry =
     (let path = PathElems_String (dt_Path t) in
      if path = ''optical-module-frequency.grid'' then
        res_bind (task_string t) (\<lambda>s. Inr (gput ''tx-frequency-grid'' (VInt (grid_of_name s)) entry))
      else if path = ''optical-module-frequency.channel'' then
        res_bind (task_uint t) (\<lambda>ch. Inr (gput ''tx-frequency-ch'' (VUint ch) entry))
      else if path = ''ber-interval'' then
        res_bind (task_uint t) (\<lambda>interval. Inr (gput path (VUint interval) entry))
      else if path = ''prbs'' \<or> path = ''losi'' \<or> path = ''enabled'' then
        res_bind (task_bool t) (\<lambda>b. Inr (gput path (on_off b) entry))
      else if path = ''modulation-type'' then
        res_bind (task_string t) (\<lambda>md.
          if md = enum_name modulation_enum DP_QPSK then Inr (gput path (VString ''dp-qpsk'') entry)
          else if md = enum_name modulation_enum DP_16QAM then Inr (gput path (VString ''dp-16qam'') entry)
          else Inr entry)
      else Inr entry)"

definition HandleOptDiff :: "'s redis_ops \<Rightarrow> string \<Rightarrow> DiffTask list \<Rightarrow> ('s, unit) prog" where
  "HandleOptDiff R name task =
     (if \<not> HasPrefix name ''Opt'' then pfail (Errorf ''invalid optical-module name: %s'' [name])
      else pbind (plift (for_res opt_task task [])) (\<lambda>entry.
        if entry = [] then pret ()
        else pbind (NewSONiCDBClient R TRANSPORT_CONFIG_DB) (\<lambda>c. ModEntry R c CONFIG_TABLE name (Some entry))))"

subsection \<open>Occupancy and defaults\<close>

text \<open>\<open>createCh(t, n)\<close> and a write to the channel it returns.\<close>

definition createCh :: "PacketTransponder_OpticalModule \<Rightarrow> string \<Rightarrow> PacketTransponder_OpticalModule" where
  "createCh t n =
     (case gget (om_ChannelStats t) n of
        Some _ \<Rightarrow> t
      | None \<Rightarrow> t\<lparr>om_ChannelStats := gput n (zero_ChannelStats\<lparr>cs_Name := Some n\<rparr>) (om_ChannelStats t)\<rparr>)"

definition write_ch ::
    "string \<Rightarrow> (ChannelStats \<Rightarrow> ChannelStats) \<Rightarrow> PacketTransponder_OpticalModule \<Rightarrow> PacketTransponder_OpticalModule" where
  "write_ch n f t =
     (let t' = createCh t n
      in t'\<lparr>om_ChannelStats := gput n (f (the (gget (om_ChannelStats t') n))) (om_ChannelStats t')\<rparr>)"

fun speed_mbps :: "ETHERNET_SPEED \<Rightarrow> nat option" where
  "speed_mbps SPEED_100GB = Some 100000"
| "speed_mbps SPEED_100MB = Some 100"
| "speed_mbps SPEED_10GB = Some 10000"
| "speed_mbps SPEED_10MB = Some 10"
| "speed_mbps SPEED_1GB = Some 1000"
| "speed_mbps SPEED_2500MB = Some 2500"
| "speed_mbps SPEED_25GB = Some 25000"
| "speed_mbps SPEED_40GB = Some 40000"
| "speed_mbps SPEED_50GB = Some 50000"
| "speed_mbps SPEED_5GB = Some 5000"
| "speed_mbps ETHERNET_SPEED_UNSET = None"
| "speed_mbps SPEED_UNKNOWN = None"

definition enum_value :: "'e enum_table \<Rightarrow> 'e \<Rightarrow> int" where
  "enum_value tab e = (case map_of tab e of None \<Rightarrow> 0 | Some (c, n) \<Rightarrow> c)"

definition total_capacity :: "string \<Rightarrow> PacketTransponder_OpticalModule \<Rightarrow> nat res" where
  "total_capacity ch t =
     (case om_ModulationType t of
        DP_QPSK \<Rightarrow> Inr (if ch = ''A'' then 100000 else 0)
      | DP_16QAM \<Rightarrow> Inr 100000
      | Modulation_UNSET \<Rightarrow> Inl (Errorf ''unknown modulation type: %d'' [itoa (enum_value modulation_enum (om_ModulationType t))]))"

text \<open>One turn of the loop over the interfaces.\<close>

definition occupancy_step ::
    "string \<Rightarrow> PacketTransponder_OpticalModule \<Rightarrow> string \<times> PacketTransponder_Interface \<Rightarrow> nat \<Rightarrow> nat res" where
  "occupancy_step ch t kv acc =
     (let v = snd kv in
      case if_OpticalModuleConnection v of None \<Rightarrow> Inr acc
      | Some c \<Rightarrow> (case omc_OpticalModule c of None \<Rightarrow> Inr acc
        | Some m \<Rightarrow> (case com_Name m of None \<Rightarrow> Inr acc
          | Some n \<Rightarrow> res_bind (deref (om_Name t)) (\<lambda>tn.
              if tn \<noteq> n then Inr acc
              else if com_Channel m \<noteq> Some ch then Inr acc
              else case speed_mbps (if_PortSpeed v) of
                     Some mb \<Rightarrow> Inr (acc + mb)
                   | None \<Rightarrow> Inl (Errorf ''unknown speed: %d''
                       [itoa (enum_value ethernet_speed_enum (if_PortSpeed v))])))))"

definition calculateOccupancy ::
    "string \<Rightarrow> PacketTransponder_OpticalModule \<Rightarrow> PacketTransponder \<Rightarrow> rat res" where
  "calculateOccupancy ch t current =
     res_bind (total_capacity ch t) (\<lambda>totalCapacity.
     res_bind (for_res (occupancy_step ch t) (Interface current) 0) (\<lambda>acc.
       if totalCapacity = 0
       then if 0 < acc
            then res_bind (deref (om_Name t)) (\<lambda>n. Inl (Errorf
              ''connection assigned to %s.%s which has no capacity. Check modulation format'' [n, ch]))
            else Inr 0
       else Inr (occupancy32 acc totalCapacity)))"

definition or_default :: "'a option \<Rightarrow> 'a \<Rightarrow> 'a option" where
  "or_default x d = (case x of None \<Rightarrow> Some d | Some y \<Rightarrow> Some y)"

definition default_frequency :: "OpticalModuleFrequency option \<Rightarrow> OpticalModuleFrequency" where
  "default_frequency f =
     (let f = (case f of None \<Rightarrow> zero_Frequency | Some f \<Rightarrow> f)
      in f\<lparr>omf_Channel := or_default (omf_Channel f) 1,
          omf_Grid := if omf_Grid f = Grid_UNSET then GRID_50GHZ else omf_Grid f\<rparr>)"

definition default_leaves ::
    "PacketTransponder_OpticalModule \<Rightarrow> PacketTransponder \<Rightarrow> PacketTransponder_OpticalModule" where
  "default_leaves t current =
     t\<lparr>om_OpticalModuleFrequency := Some (default_frequency (om_OpticalModuleFrequency t)),
       om_Losi := or_default (om_Losi t) False,
       om_Prbs := or_default (om_Prbs t) False,
       om_ModulationType := if om_ModulationType t = Modulation_UNSET then DP_16QAM else om_ModulationType t,
       om_BerInterval := or_default (om_BerInterval t) 100,
       om_Enabled := or_default (om_Enabled t) True,
       om_AllowOversubscription :=
         (case om_AllowOversubscription t of
            Some b \<Rightarrow> Some b
          | None \<Rightarrow> or_default (AllowOversubscription current) False)\<rparr>"

definition fill_occupancy ::
    "PacketTransponder \<Rightarrow> string \<Rightarrow> PacketTransponder_OpticalModule \<Rightarrow> PacketTransponder_OpticalModule res" where
  "fill_occupancy current ch t =
     res_bind (calculateOccupancy ch t current)
       (\<lambda>occ. Inr (write_ch ch (\<lambda>c. c\<lparr>cs_Occupancy := Some (format_f occ)\<rparr>) t))"

definition FillTransportDefaultConfig ::
    "PacketTransponder_OpticalModule \<Rightarrow> PacketTransponder \<Rightarrow> PacketTransponder_OpticalModule res" where
  "FillTransportDefaultConfig t current =
     for_res (fill_occupancy current) [''A'', ''B''] (default_leaves t current)"

subsection \<open>FillTransportState\<close>

definition trim_rms :: "string \<Rightarrow> (16 word) res" where
  "trim_rms elem = res_bind (ParseUint (Trim elem ''() ,'') 16) (\<lambda>v. Inr (of_nat v))"

definition fill_rms :: "string \<Rightarrow> PacketTransponder_OpticalModule \<Rightarrow> PacketTransponder_OpticalModule res" where
  "fill_rms rms t =
     (let e = Split rms '','';
          elems = (if length e \<noteq> 4 then [''0'', ''0'', ''0'', ''0''] else e)
      in res_bind (res_bind (index_of elems 0) trim_rms) (\<lambda>xi.
         res_bind (res_bind (index_of elems 1) trim_rms) (\<lambda>xq.
         res_bind (res_bind (index_of elems 2) trim_rms) (\<lambda>yi.
         res_bind (res_bind (index_of elems 3) trim_rms) (\<lambda>yq.
           Inr (t\<lparr>om_OpticalModuleRms := Some
             \<lparr>rms_Xi = Some xi, rms_Xq = Some xq, rms_Yi = Some yi, rms_Yq = Some yq\<rparr>\<rparr>))))))"

definition fill_sync_error :: "string \<Rightarrow> PacketTransponder_OpticalModule \<Rightarrow> PacketTransponder_OpticalModule" where
  "fill_sync_error s t =
     (if s = ''false'' then t\<lparr>om_SyncError := Some False\<rparr>
      else if s = ''true'' then t\<lparr>om_SyncError := Some True\<rparr> else t)"

definition module_status_text :: "(string \<times> OpticalModuleStatusType) list" where
  "module_status_text =
     [(''down'', STATE_DOWN), (''booting-top-half'', STATE_BOOTING_TOP_HALF),
      (''waiting-rx-signal'', STATE_WAITING_RX_SIGNAL),
      (''booting-bottom-half'', STATE_BOOTING_BOTTOM_HALF), (''testing'', STATE_TESTING),
      (''ready'', STATE_READY), (''resetting'', STATE_RESETTING)]"

definition fill_status :: "string \<Rightarrow> PacketTransponder_OpticalModule \<Rightarrow> PacketTransponder_OpticalModule" where
  "fill_status s t =
     (case map_of module_status_text s of None \<Rightarrow> t | Some st \<Rightarrow> t\<lparr>om_OperationStatus := st\<rparr>)"

text \<open>A pair of bit error rates, one per channel.\<close>

definition fill_ber ::
    "(string \<Rightarrow> ChannelStats \<Rightarrow> ChannelStats) \<Rightarrow> dval \<Rightarrow> PacketTransponder_OpticalModule \<Rightarrow>
     PacketTransponder_OpticalModule res" where
  "fill_ber set_ber s t =
     res_bind (as_strings s) (\<lambda>e.
     res_bind (index_of e 0) (\<lambda>a.
     res_bind (index_of e 1) (\<lambda>b.
       Inr (write_ch ''B'' (set_ber b) (write_ch ''A'' (set_ber a) t)))))"

definition on_field :: "dval gomap \<Rightarrow> string \<Rightarrow> (dval \<Rightarrow> 't \<Rightarrow> 't res) \<Rightarrow> 't \<Rightarrow> 't res" where
  "on_field entry k f t = (case gget entry k of None \<Rightarrow> Inr t | Some v \<Rightarrow> f v t)"

definition fill_from_entry ::
    "dval gomap \<Rightarrow> PacketTransponder_OpticalModule \<Rightarrow> PacketTransponder_OpticalModule res" where
  "fill_from_entry entry t =
     res_bind (on_field entry ''rms'' (\<lambda>s t. res_bind (as_string s) (\<lambda>rms. fill_rms rms t)) t) (\<lambda>t.
     res_bind (on_field entry ''sync-error'' (\<lambda>s t. res_bind (as_string s) (\<lambda>s. Inr (fill_sync_error s t))) t) (\<lambda>t.
     res_bind (on_field entry ''status'' (\<lambda>s t. res_bind (as_string s) (\<lambda>s. Inr (fill_status s t))) t) (\<lambda>t.
     res_bind (on_field entry ''hd-fec-ber'' (fill_ber (\<lambda>b c. c\<lparr>cs_HdFecBer := Some b\<rparr>)) t) (\<lambda>t.
     res_bind (on_field entry ''sd-fec-ber'' (fill_ber (\<lambda>b c. c\<lparr>cs_SdFecBer := Some b\<rparr>)) t) (\<lambda>t.
       on_field entry ''post-fec-ber'' (fill_ber (\<lambda>b c. c\<lparr>cs_PostFecBer := Some b\<rparr>)) t)))))"

definition FillTransportState ::
    "'s redis_ops \<Rightarrow> string \<Rightarrow> PacketTransponder_OpticalModule option \<Rightarrow> ('s, PacketTransponder_OpticalModule) prog" where
  "FillTransportState R name t =
     (case t of
        None \<Rightarrow> pfail (Errorf ''model is nil'' [])
      | Some t \<Rightarrow>
          pbind (NewSONiCDBClient R TRANSPORT_STATE_DB) (\<lambda>c.
          pbind (GetEntry R c MAPPING_TABLE [name]) (\<lambda>entry.
            case gget entry ''netif'' of
              None \<Rightarrow> pret t
            | Some s \<Rightarrow>
                pbind (plift (res_bind (as_strings s) (\<lambda>ss. index_of ss 0))) (\<lambda>nid.
                pbind (GetEntry R c NETIF_STATE_TABLE [nid]) (\<lambda>entry.
                  plift (fill_from_entry entry t))))))"

subsection \<open>ConfigureTransport\<close>

text \<open>The entry of one module: the defaults are filled in first and stay in the model.\<close>

definition transport_entry :: "int \<Rightarrow> PacketTransponder_OpticalModule \<Rightarrow> dval gomap res" where
  "transport_entry index v =
     res_bind (deref (om_OpticalModuleFrequency v)) (\<lambda>f.
     res_bind (deref (omf_Channel f)) (\<lambda>ch.
     res_bind (deref (om_BerInterval v)) (\<lambda>ber.
     res_bind (deref (om_Losi v)) (\<lambda>losi.
     res_bind (deref (om_Prbs v)) (\<lambda>prbs.
     res_bind (deref (om_Enabled v)) (\<lambda>enabled.
       Inr [(''index'', VInt (index - 1)),
            (''tx-frequency-ch'', VInt (uint ch)),
            (''tx-frequency-grid'', VInt (gridTypeToInt (omf_Grid f))),
            (''losi'', on_off losi),
            (''prbs'', on_off prbs),
            (''modulation-type'', VString (if om_ModulationType v = DP_QPSK then ''dp-qpsk'' else ''dp-16qam'')),
            (''ber-interval'', VInt (uint ber)),
            (''enabled'', on_off enabled)]))))))"

definition configure_module ::
    "'s redis_ops \<Rightarrow> int \<Rightarrow> PacketTransponder \<Rightarrow> string \<Rightarrow> PacketTransponder_OpticalModule \<Rightarrow>
     ('s, PacketTransponder_OpticalModule) prog" where
  "configure_module R c m k v =
     (if \<not> HasPrefix k ''Opt'' then pfail (Errorf ''invalid optical-module name: %s'' [k])
      else pbind (plift (res_bind (slice_from k 3) Atoi)) (\<lambda>index.
           pbind (plift (FillTransportDefaultConfig v m)) (\<lambda>v.
           pbind (plift (transport_entry index v)) (\<lambda>entry.
           pseq (SetEntry R c CONFIG_TABLE k (Some entry)) (pret v)))))"

fun configure_loop ::
    "'s redis_ops \<Rightarrow> int \<Rightarrow> PacketTransponder \<Rightarrow> PacketTransponder_OpticalModule gomap \<Rightarrow>
     ('s, PacketTransponder_OpticalModule gomap) prog" where
  "configure_loop R c m [] = pret []"
| "configure_loop R c m ((k, v) # ms) =
     pbind (configure_module R c m k v) (\<lambda>v.
     pbind (configure_loop R c m ms) (\<lambda>ms. pret ((k, v) # ms)))"

definition ConfigureTransport :: "'s redis_ops \<Rightarrow> PacketTransponder \<Rightarrow> ('s, PacketTransponder) prog" where
  "ConfigureTransport R m =
     pbind (NewSONiCDBClient R TRANSPORT_CONFIG_DB) (\<lambda>c.
     pbind (configure_loop R c m (OpticalModule m)) (\<lambda>oms. pret (m\<lparr>OpticalModule := oms\<rparr>)))"

subsection \<open>Occupancy\<close>

definition connected :: "string \<Rightarrow> string \<Rightarrow> PacketTransponder_Interface \<Rightarrow> bool" where
  "connected n ch v =
     (case if_OpticalModuleConnection v of None \<Rightarrow> False
      | Some c \<Rightarrow> (case omc_OpticalModule c of None \<Rightarrow> False
        | Some m \<Rightarrow> com_Name m = Some n \<and> com_Channel m = Some ch))"

definition connected_mbps :: "string \<Rightarrow> string \<Rightarrow> PacketTransponder \<Rightarrow> nat" where
  "connected_mbps n ch current =
     sum_list [case speed_mbps (if_PortSpeed v) of None \<Rightarrow> 0 | Some mb \<Rightarrow> mb.
       (k, v) \<leftarrow> Interface current, connected n ch v]"

definition speeds_known :: "string \<Rightarrow> string \<Rightarrow> PacketTransponder \<Rightarrow> bool" where
  "speeds_known n ch current \<longleftrightarrow>
     (\<forall>(k, v) \<in> set (Interface current). connected n ch v \<longrightarrow> speed_mbps (if_PortSpeed v) \<noteq> None)"

lemma occupancy_step_eq:
  assumes "om_Name t = Some n"
  shows "occupancy_step ch t (k, v) acc =
    (if connected n ch v
     then case speed_mbps (if_PortSpeed v) of
            Some mb \<Rightarrow> Inr (acc + mb)
          | None \<Rightarrow> Inl (Errorf ''unknown speed: %d'' [itoa (enum_value ethernet_speed_enum (if_PortSpeed v))])
     else Inr acc)"
  using assms by (auto simp: occupancy_step_def connected_def split: option.splits)

lemma occupancy_loop:
  assumes "om_Name t = Some n"
    and "\<forall>(k, v) \<in> set m. connected n ch v \<longrightarrow> speed_mbps (if_PortSpeed v) \<noteq> None"
  shows "for_res (occupancy_step ch t) m acc =
    Inr (acc + sum_list [case speed_mbps (if_PortSpeed v) of None \<Rightarrow> 0 | Some mb \<Rightarrow> mb. (k, v) \<leftarrow> m, connected n ch v])"
  using assms(2)
proof (induction m arbitrary: acc)
  case (Cons x m)
  obtain k v where x: "x = (k, v)" by (cases x)
  with Cons show ?case by (auto simp: occupancy_step_eq [OF assms(1)])
qed simp

lemma occupancy_loop_total:
  assumes "om_Name t = Some n" "speeds_known n ch current"
  shows "for_res (occupancy_step ch t) (Interface current) 0 = Inr (connected_mbps n ch current)"
  using occupancy_loop [OF assms(1), of "Interface current" ch 0] assms(2)
  by (simp add: connected_mbps_def speeds_known_def)

lemma occupancy_loop_fails:
  assumes "om_Name t = Some n" "(k, v) \<in> set m" "connected n ch v" "speed_mbps (if_PortSpeed v) = None"
  shows "\<exists>e. for_res (occupancy_step ch t) m acc = Inl e"
  using assms(2)
proof (induction m arbitrary: acc)
  case (Cons x m)
  obtain k' v' where x: "x = (k', v')" by (cases x)
  show ?case
  proof (cases "x = (k, v)")
    case True
    with assms show ?thesis by (simp add: occupancy_step_eq)
  next
    case False
    with Cons.prems have "(k, v) \<in> set m" by auto
    with Cons.IH show ?thesis
      by (cases "occupancy_step ch t x acc") auto
  qed
qed simp

definition has_capacity :: "string \<Rightarrow> PacketTransponder_OpticalModule \<Rightarrow> bool" where
  "has_capacity ch t \<longleftrightarrow> om_ModulationType t = DP_16QAM \<or> om_ModulationType t = DP_QPSK \<and> ch = ''A''"

lemma calculateOccupancy_iff:
  assumes "om_Name t = Some n"
  shows "calculateOccupancy ch t current = Inr occ \<longleftrightarrow>
    om_ModulationType t \<noteq> Modulation_UNSET \<and> speeds_known n ch current \<and>
    (if has_capacity ch t then occ = occupancy32 (connected_mbps n ch current) 100000
     else connected_mbps n ch current = 0 \<and> occ = 0)"
proof (cases "speeds_known n ch current")
  case True
  then show ?thesis using occupancy_loop_total [OF assms True] assms
    by (cases "om_ModulationType t") (auto simp: calculateOccupancy_def total_capacity_def has_capacity_def)
next
  case False
  then obtain k v where "(k, v) \<in> set (Interface current)" "connected n ch v" "speed_mbps (if_PortSpeed v) = None"
    by (auto simp: speeds_known_def)
  from occupancy_loop_fails [OF assms this, of 0] obtain e
    where "for_res (occupancy_step ch t) (Interface current) 0 = Inl e" ..
  with False show ?thesis by (auto simp: calculateOccupancy_def res_bind_Inr)
qed

text \<open>
  C17: the occupancy of a channel is the summed speed of the interfaces connected to it, in percent of
  100G; a channel without capacity must have no connection, and every other outcome is an error.
\<close>

theorem calculateOccupancy_spec:
  assumes "om_Name t = Some n"
  shows "calculateOccupancy ch t current = Inr occ \<longleftrightarrow>
    om_ModulationType t \<noteq> Modulation_UNSET \<and> speeds_known n ch current \<and>
    (if has_capacity ch t then occ = occupancy32 (connected_mbps n ch current) 100000
     else connected_mbps n ch current = 0 \<and> occ = 0)"
  by (rule calculateOccupancy_iff [OF assms])

subsection \<open>Defaults\<close>

definition complete_module :: "PacketTransponder_OpticalModule \<Rightarrow> bool" where
  "complete_module t \<longleftrightarrow>
     (case om_OpticalModuleFrequency t of None \<Rightarrow> False
      | Some f \<Rightarrow> omf_Channel f \<noteq> None \<and> omf_Grid f \<noteq> Grid_UNSET) \<and>
     om_Losi t \<noteq> None \<and> om_Prbs t \<noteq> None \<and> om_ModulationType t \<noteq> Modulation_UNSET \<and>
     om_BerInterval t \<noteq> None \<and> om_Enabled t \<noteq> None \<and> om_AllowOversubscription t \<noteq> None"

lemma or_default_set [simp]: "or_default x d \<noteq> None" "or_default (or_default x d) d' = or_default x d"
  "x \<noteq> None \<Longrightarrow> or_default x d = x"
  by (auto simp: or_default_def split: option.splits)

lemma complete_default_leaves: "complete_module (default_leaves t current)"
  by (auto simp: complete_module_def default_leaves_def default_frequency_def or_default_def Let_def split: option.splits)

lemma default_leaves_complete: "complete_module t \<Longrightarrow> default_leaves t current = t"
proof -
  assume c: "complete_module t"
  then obtain f where f: "om_OpticalModuleFrequency t = Some f" "omf_Channel f \<noteq> None" "omf_Grid f \<noteq> Grid_UNSET"
    by (auto simp: complete_module_def split: option.splits)
  then have "default_frequency (Some f) = f" by (simp add: default_frequency_def Let_def)
  with c f show ?thesis by (auto simp: complete_module_def default_leaves_def)
qed

definition with_stats :: "ChannelStats gomap \<Rightarrow> PacketTransponder_OpticalModule \<Rightarrow> PacketTransponder_OpticalModule" where
  "with_stats cs t = t\<lparr>om_ChannelStats := cs\<rparr>"

lemma write_ch_stats: "\<exists>cs. write_ch n f t = with_stats cs t"
  by (auto simp: write_ch_def createCh_def with_stats_def Let_def split: option.splits)

lemma calculateOccupancy_stats [simp]: "calculateOccupancy ch (with_stats cs t) current = calculateOccupancy ch t current"
proof -
  have same: "om_Name (with_stats cs t) = om_Name t" "om_ModulationType (with_stats cs t) = om_ModulationType t"
    by (simp_all add: with_stats_def)
  then have "occupancy_step ch (with_stats cs t) = occupancy_step ch t"
    by (intro ext) (simp only: occupancy_step_def)
  with same show ?thesis by (simp only: calculateOccupancy_def total_capacity_def)
qed

lemma calculateOccupancy_write_ch [simp]: "calculateOccupancy ch (write_ch n f t) current = calculateOccupancy ch t current"
  using write_ch_stats [of n f t] by auto

lemma complete_write_ch [simp]: "complete_module (write_ch n f t) = complete_module t"
  using write_ch_stats [of n f t] by (auto simp: with_stats_def complete_module_def)

lemma write_ch_get:
  "gget (om_ChannelStats (write_ch n f t)) n' =
     (if n' = n then Some (f (case gget (om_ChannelStats t) n of None \<Rightarrow> zero_ChannelStats\<lparr>cs_Name := Some n\<rparr> | Some c \<Rightarrow> c))
      else gget (om_ChannelStats t) n')"
  by (auto simp: write_ch_def createCh_def Let_def split: option.splits)

lemma Fill_Inr:
  "FillTransportDefaultConfig t current = Inr t' \<longleftrightarrow>
     (\<exists>a b. calculateOccupancy ''A'' (default_leaves t current) current = Inr a \<and>
        calculateOccupancy ''B'' (default_leaves t current) current = Inr b \<and>
        t' = write_ch ''B'' (\<lambda>c. c\<lparr>cs_Occupancy := Some (format_f b)\<rparr>)
          (write_ch ''A'' (\<lambda>c. c\<lparr>cs_Occupancy := Some (format_f a)\<rparr>) (default_leaves t current)))"
  by (auto simp: FillTransportDefaultConfig_def fill_occupancy_def res_bind_Inr)

lemma update_same: "map_of m k = Some v \<Longrightarrow> AList.update k v m = m"
  by (induction m) (auto split: if_splits)

lemma write_ch_id:
  assumes "gget (om_ChannelStats t) n = Some (f c)" "f (f c) = f c"
  shows "write_ch n f t = t"
  using assms by (simp add: write_ch_def createCh_def update_same)

lemma Fill_idempotent:
  assumes "FillTransportDefaultConfig t current = Inr t'"
  shows "FillTransportDefaultConfig t' current = Inr t'"
proof -
  from assms obtain a b where ab: "calculateOccupancy ''A'' (default_leaves t current) current = Inr a"
      "calculateOccupancy ''B'' (default_leaves t current) current = Inr b"
    and t': "t' = write_ch ''B'' (\<lambda>c. c\<lparr>cs_Occupancy := Some (format_f b)\<rparr>)
          (write_ch ''A'' (\<lambda>c. c\<lparr>cs_Occupancy := Some (format_f a)\<rparr>) (default_leaves t current))"
    unfolding Fill_Inr by blast
  have d: "default_leaves t' current = t'"
    by (rule default_leaves_complete) (simp add: t' complete_default_leaves)
  have "calculateOccupancy ''A'' t' current = Inr a" "calculateOccupancy ''B'' t' current = Inr b"
    using ab by (simp_all add: t')
  moreover have "write_ch ''A'' (\<lambda>c. c\<lparr>cs_Occupancy := Some (format_f a)\<rparr>) t' = t'"
    by (rule write_ch_id) (simp add: t' write_ch_get, simp)
  moreover have "write_ch ''B'' (\<lambda>c. c\<lparr>cs_Occupancy := Some (format_f b)\<rparr>) t' = t'"
    by (rule write_ch_id) (simp add: t' write_ch_get, simp)
  ultimately show ?thesis unfolding Fill_Inr d by auto
qed


subsection \<open>Live changes and full configuration agree\<close>

text \<open>The leaf at a path, as \<open>ygot.Diff\<close> reports it, and the field it becomes.\<close>

definition leaf_value :: "PacketTransponder_OpticalModule \<Rightarrow> string \<Rightarrow> TypedValue option" where
  "leaf_value t path =
     (if path = ''optical-module-frequency.grid'' then
        (case om_OpticalModuleFrequency t of None \<Rightarrow> None
         | Some f \<Rightarrow> if omf_Grid f = Grid_UNSET then None else Some (StringVal (enum_name grid_enum (omf_Grid f))))
      else if path = ''optical-module-frequency.channel'' then
        (case om_OpticalModuleFrequency t of None \<Rightarrow> None
         | Some f \<Rightarrow> map_option (\<lambda>c. UintVal (unat c)) (omf_Channel f))
      else if path = ''ber-interval'' then map_option (\<lambda>b. UintVal (unat b)) (om_BerInterval t)
      else if path = ''prbs'' then map_option BoolVal (om_Prbs t)
      else if path = ''losi'' then map_option BoolVal (om_Losi t)
      else if path = ''enabled'' then map_option BoolVal (om_Enabled t)
      else if path = ''modulation-type'' then
        (if om_ModulationType t = Modulation_UNSET then None
         else Some (StringVal (enum_name modulation_enum (om_ModulationType t))))
      else None)"

definition opt_fields :: "(string \<times> string) list" where
  "opt_fields =
     [(''optical-module-frequency.grid'', ''tx-frequency-grid''),
      (''optical-module-frequency.channel'', ''tx-frequency-ch''),
      (''ber-interval'', ''ber-interval''), (''prbs'', ''prbs''), (''losi'', ''losi''),
      (''enabled'', ''enabled''), (''modulation-type'', ''modulation-type'')]"

abbreviation task_path :: "DiffTask \<Rightarrow> string" where
  "task_path t \<equiv> PathElems_String (dt_Path t)"

definition tasks_describe ::
    "DiffTask list \<Rightarrow> PacketTransponder_OpticalModule \<Rightarrow> PacketTransponder_OpticalModule \<Rightarrow> bool" where
  "tasks_describe tasks old new \<longleftrightarrow>
     (\<forall>t \<in> set tasks. task_path t \<in> fst ` set opt_fields \<longrightarrow> dt_Value t = leaf_value new (task_path t)) \<and>
     (\<forall>p \<in> fst ` set opt_fields. leaf_value old p \<noteq> leaf_value new p \<longrightarrow> (\<exists>t \<in> set tasks. task_path t = p))"

lemma leaf_value_simps:
  "leaf_value t ''optical-module-frequency.grid'' = (case om_OpticalModuleFrequency t of None \<Rightarrow> None
     | Some f \<Rightarrow> if omf_Grid f = Grid_UNSET then None else Some (StringVal (enum_name grid_enum (omf_Grid f))))"
  "leaf_value t ''optical-module-frequency.channel'' = (case om_OpticalModuleFrequency t of None \<Rightarrow> None
     | Some f \<Rightarrow> map_option (\<lambda>c. UintVal (unat c)) (omf_Channel f))"
  "leaf_value t ''ber-interval'' = map_option (\<lambda>b. UintVal (unat b)) (om_BerInterval t)"
  "leaf_value t ''prbs'' = map_option BoolVal (om_Prbs t)"
  "leaf_value t ''losi'' = map_option BoolVal (om_Losi t)"
  "leaf_value t ''enabled'' = map_option BoolVal (om_Enabled t)"
  "leaf_value t ''modulation-type'' = (if om_ModulationType t = Modulation_UNSET then None
     else Some (StringVal (enum_name modulation_enum (om_ModulationType t))))"
  by (simp_all add: leaf_value_def)

lemma opt_fields_cases:
  assumes "map_of opt_fields p = Some f"
  obtains "p = ''optical-module-frequency.grid''" "f = ''tx-frequency-grid''"
  | "p = ''optical-module-frequency.channel''" "f = ''tx-frequency-ch''"
  | "p = ''ber-interval''" "f = ''ber-interval''" | "p = ''prbs''" "f = ''prbs''"
  | "p = ''losi''" "f = ''losi''" | "p = ''enabled''" "f = ''enabled''"
  | "p = ''modulation-type''" "f = ''modulation-type''"
  using map_of_SomeD [OF assms] unfolding opt_fields_def set_simps insert_iff prod.inject empty_iff simp_thms
  by (elim disjE conjE; (erule (1) that)?) blast?

lemma complete_moduleE:
  assumes "complete_module t"
  obtains f ch ber losi prbs en al where "om_OpticalModuleFrequency t = Some f" "omf_Channel f = Some ch"
    "omf_Grid f \<noteq> Grid_UNSET" "om_BerInterval t = Some ber" "om_Losi t = Some losi" "om_Prbs t = Some prbs"
    "om_Enabled t = Some en" "om_AllowOversubscription t = Some al" "om_ModulationType t \<noteq> Modulation_UNSET"
  using assms by (auto simp: complete_module_def split: option.splits)

text \<open>The value a task on a complete module writes into its field.\<close>

definition leaf_field :: "PacketTransponder_OpticalModule \<Rightarrow> string \<Rightarrow> dval" where
  "leaf_field t path =
     (case leaf_value t path of
        Some (UintVal n) \<Rightarrow> VUint n
      | Some (BoolVal b) \<Rightarrow> on_off b
      | Some (StringVal s) \<Rightarrow>
          if path = ''modulation-type''
          then VString (if s = enum_name modulation_enum DP_QPSK then ''dp-qpsk'' else ''dp-16qam'')
          else VInt (grid_of_name s)
      | _ \<Rightarrow> VString [])"

lemma modulation_names:
  "enum_name modulation_enum DP_QPSK = ''DP_QPSK''" "enum_name modulation_enum DP_16QAM = ''DP_16QAM''"
  by (simp_all add: enum_name_def modulation_enum_def)

lemma grid_names:
  "enum_name grid_enum GRID_100GHZ = ''GRID_100GHZ''" "enum_name grid_enum GRID_50GHZ = ''GRID_50GHZ''"
  "enum_name grid_enum GRID_33GHZ = ''GRID_33GHZ''" "enum_name grid_enum GRID_25GHZ = ''GRID_25GHZ''"
  by (simp_all add: enum_name_def grid_enum_def)

lemma grid_of_enum_name: "g \<noteq> Grid_UNSET \<Longrightarrow> grid_of_name (enum_name grid_enum g) = gridTypeToInt g"
  by (cases g) (simp_all add: grid_of_name_def grid_names gridTypeToInt_def)

lemma opt_paths:
  "fst ` set opt_fields =
    {''optical-module-frequency.grid'', ''optical-module-frequency.channel'', ''ber-interval'', ''prbs'',
     ''losi'', ''enabled'', ''modulation-type''}"
  by (simp only: opt_fields_def list.set image_insert image_empty fst_conv)

lemma opt_task_field:
  assumes "complete_module new" "dt_Value t = leaf_value new (task_path t)" "map_of opt_fields (task_path t) = Some f"
  shows "opt_task t entry = Inr (gput f (leaf_field new (task_path t)) entry)"
proof -
  obtain fr ch ber losi prbs en al where new: "om_OpticalModuleFrequency new = Some fr" "omf_Channel fr = Some ch"
    "omf_Grid fr \<noteq> Grid_UNSET" "om_BerInterval new = Some ber" "om_Losi new = Some losi" "om_Prbs new = Some prbs"
    "om_Enabled new = Some en" "om_ModulationType new \<noteq> Modulation_UNSET"
    by (rule complete_moduleE [OF assms(1)])
  have md: "om_ModulationType new = DP_QPSK \<or> om_ModulationType new = DP_16QAM"
    using new(8) by (cases "om_ModulationType new") auto
  from assms(3) show ?thesis
  proof (cases rule: opt_fields_cases)
    case 7
    with assms(2) new md show ?thesis
      by (elim disjE) (simp_all add: opt_task_def Let_def leaf_field_def leaf_value_simps task_string_def modulation_names)
  qed (use assms(2) new in \<open>simp_all add: opt_task_def Let_def leaf_field_def leaf_value_simps
      task_string_def task_uint_def task_bool_def\<close>)
qed

lemma opt_task_other:
  "map_of opt_fields (task_path t) = None \<Longrightarrow> opt_task t entry = Inr entry"
  unfolding map_of_eq_None_iff opt_paths insert_iff de_Morgan_disj opt_task_def Let_def
  by (simp only: simp_thms if_False empty_iff)

lemma opt_fields_distinct: "distinct (map fst opt_fields)" "distinct (map snd opt_fields)"
  by code_simp+

lemma opt_fields_inj: "map_of opt_fields p = Some f \<Longrightarrow> map_of opt_fields p' = Some f \<Longrightarrow> p = p'"
proof -
  assume "map_of opt_fields p = Some f" "map_of opt_fields p' = Some f"
  then have "(p, f) \<in> set opt_fields" "(p', f) \<in> set opt_fields" by (auto dest: map_of_SomeD)
  moreover have "inj_on snd (set opt_fields)" using opt_fields_distinct(2) by (simp add: distinct_map)
  ultimately show "p = p'" by (metis inj_onD prod.inject snd_conv)
qed

lemma opt_tasks_entry:
  assumes new: "complete_module new"
    and vals: "\<forall>t \<in> set tasks. task_path t \<in> fst ` set opt_fields \<longrightarrow> dt_Value t = leaf_value new (task_path t)"
  shows "\<exists>e. for_res opt_task tasks [] = Inr e \<and> gomap_ok e \<and>
    gkeys e = {f. \<exists>t \<in> set tasks. map_of opt_fields (task_path t) = Some f} \<and>
    (\<forall>p f. map_of opt_fields p = Some f \<longrightarrow>
       gget e f = (if p \<in> task_path ` set tasks then Some (leaf_field new p) else None))"
proof -
  have step: "opt_task t e = (case map_of opt_fields (task_path t) of None \<Rightarrow> Inr e
      | Some f \<Rightarrow> Inr (gput f (leaf_field new (task_path t)) e))" if t: "t \<in> set tasks" for t e
  proof (cases "map_of opt_fields (task_path t)")
    case (Some f)
    then have "task_path t \<in> fst ` set opt_fields" by (metis map_of_eq_None_iff option.distinct(1))
    with vals t Some show ?thesis by (simp add: opt_task_field [OF new])
  qed (simp add: opt_task_other)
  have "\<exists>e. for_res opt_task tasks [] = Inr e \<and> gomap_ok e \<and>
    gkeys e = gkeys ([] :: dval gomap) \<union> {f. \<exists>t \<in> set tasks. map_of opt_fields (task_path t) = Some f} \<and>
    (\<forall>p f. map_of opt_fields p = Some f \<longrightarrow>
       gget e f = (if p \<in> (\<lambda>t. task_path t) ` set tasks then Some (leaf_field new p) else gget [] f))"
    by (rule for_res_puts [where path = "\<lambda>t. task_path t" and F = opt_fields and val = "leaf_field new" and ts = tasks])
      (rule step, assumption, rule opt_fields_inj, assumption+, rule gomap_ok_Nil)
  then show ?thesis by (simp only: list.set image_empty Un_empty_left map_of.simps)
qed


lemma stored_scalar: "\<not> is_slice v \<Longrightarrow> stored v = VString (wire_text v)"
  by (cases v) (simp_all add: stored_def)

lemma wire_text_simps [simp]:
  "wire_text (VString s) = s" "wire_text (VInt i) = itoa i" "wire_text (VUint n) = itoa_nat n"
  by (simp_all add: wire_text_def)

text \<open>The entry of a complete module holds, field by field, the text of its leaves.\<close>

lemma transport_entry_complete:
  assumes "complete_module t"
  shows "\<exists>e. transport_entry i t = Inr e \<and> entry_ok e \<and> gkeys e = insert ''index'' (snd ` set opt_fields) \<and>
    gget e ''index'' = Some (VInt (i - 1)) \<and>
    (\<forall>p f. map_of opt_fields p = Some f \<longrightarrow> stored_view e f = Some (stored (leaf_field t p)))"
proof -
  obtain fr ch ber losi prbs en al where t: "om_OpticalModuleFrequency t = Some fr" "omf_Channel fr = Some ch"
    "omf_Grid fr \<noteq> Grid_UNSET" "om_BerInterval t = Some ber" "om_Losi t = Some losi" "om_Prbs t = Some prbs"
    "om_Enabled t = Some en" "om_ModulationType t \<noteq> Modulation_UNSET"
    by (rule complete_moduleE [OF assms])
  define e where "e = [(''index'', VInt (i - 1)),
            (''tx-frequency-ch'', VInt (uint ch)),
            (''tx-frequency-grid'', VInt (gridTypeToInt (omf_Grid fr))),
            (''losi'', on_off losi),
            (''prbs'', on_off prbs),
            (''modulation-type'', VString (if om_ModulationType t = DP_QPSK then ''dp-qpsk'' else ''dp-16qam'')),
            (''ber-interval'', VInt (uint ber)),
            (''enabled'', on_off en)]"
  have "transport_entry i t = Inr e" using t by (simp add: transport_entry_def e_def)
  moreover have "entry_ok e"
    by (simp add: entry_ok_def e_def gomap_ok_def field_ok_def on_off_def)
  moreover have "gkeys e = insert ''index'' (snd ` set opt_fields)"
  proof -
    have "map fst e = [''index'', ''tx-frequency-ch'', ''tx-frequency-grid'', ''losi'', ''prbs'', ''modulation-type'',
        ''ber-interval'', ''enabled'']" by (simp add: e_def)
    moreover have "set [''index'', ''tx-frequency-ch'', ''tx-frequency-grid'', ''losi'', ''prbs'', ''modulation-type'',
        ''ber-interval'', ''enabled''] = insert ''index'' (snd ` set opt_fields)" by code_simp
    ultimately show ?thesis by (metis list.set_map)
  qed
  moreover have "gget e ''index'' = Some (VInt (i - 1))" by (simp add: e_def)
  moreover have "stored_view e f = Some (stored (leaf_field t p))" if "map_of opt_fields p = Some f" for p f
    using that
  proof (cases rule: opt_fields_cases)
    case 7
    have "om_ModulationType t = DP_QPSK \<or> om_ModulationType t = DP_16QAM"
      using t(8) by (cases "om_ModulationType t") auto
    then show ?thesis
      by (elim disjE) (simp_all add: 7 e_def stored_view_def leaf_field_def leaf_value_simps modulation_names)
  qed (use t in \<open>simp_all add: e_def stored_view_def leaf_field_def leaf_value_simps stored_def grid_of_enum_name itoa_def\<close>)
  ultimately show ?thesis by blast
qed


lemma leaf_field_scalar: "\<not> is_slice (leaf_field t p)"
  by (auto simp: leaf_field_def on_off_def split: option.split TypedValue.split)

lemma field_ok_scalar: "\<not> is_slice v \<Longrightarrow> field_ok k v \<longleftrightarrow> k \<noteq> [] \<and> last k \<noteq> CHR ''@''"
  by (cases v) (simp_all add: field_ok_def)

lemma opt_fields_key: "map_of opt_fields p = Some f \<Longrightarrow> field_ok f (leaf_field t p)"
  by (erule opt_fields_cases) (simp_all add: field_ok_scalar leaf_field_scalar)

lemma opt_fields_field: "f \<in> snd ` set opt_fields \<longleftrightarrow> (\<exists>p. map_of opt_fields p = Some f)"
proof
  assume "f \<in> snd ` set opt_fields"
  then obtain p where "(p, f) \<in> set opt_fields" by auto
  then show "\<exists>p. map_of opt_fields p = Some f" using opt_fields_distinct(1) by (metis map_of_is_SomeI)
next
  assume "\<exists>p. map_of opt_fields p = Some f"
  then obtain p where "(p, f) \<in> set opt_fields" by (blast dest: map_of_SomeD)
  then show "f \<in> snd ` set opt_fields" by (metis image_eqI snd_conv)
qed

lemma index_not_field: "map_of opt_fields p \<noteq> Some ''index''"
  by (rule notI, erule opt_fields_cases) simp_all

text \<open>The fields of \<open>e\<close> over those of \<open>eo\<close> are those of \<open>en\<close>.\<close>

lemma merge_leaves:
  assumes e: "\<And>f. gget e f \<noteq> None \<Longrightarrow> \<exists>p \<in> ps. map_of opt_fields p = Some f"
      "\<And>p f. map_of opt_fields p = Some f \<Longrightarrow> gget e f = (if p \<in> ps then Some (leaf_field new p) else None)"
    and eo: "gkeys eo = insert ''index'' (snd ` set opt_fields)" "gget eo ''index'' = Some x"
      "\<And>p f. map_of opt_fields p = Some f \<Longrightarrow> stored_view eo f = Some (stored (leaf_field old p))"
    and en: "gkeys en = insert ''index'' (snd ` set opt_fields)" "gget en ''index'' = Some x"
      "\<And>p f. map_of opt_fields p = Some f \<Longrightarrow> stored_view en f = Some (stored (leaf_field new p))"
    and same: "\<And>p f. map_of opt_fields p = Some f \<Longrightarrow> p \<notin> ps \<Longrightarrow> leaf_field old p = leaf_field new p"
  shows "stored_view eo ++ stored_view e = stored_view en"
proof
  fix f
  show "(stored_view eo ++ stored_view e) f = stored_view en f"
  proof (cases "\<exists>p. map_of opt_fields p = Some f")
    case True
    then obtain p where p: "map_of opt_fields p = Some f" ..
    show ?thesis
    proof (cases "p \<in> ps")
      case True
      then have "stored_view e f = Some (stored (leaf_field new p))" by (simp add: stored_view_def e(2) [OF p])
      then show ?thesis by (simp add: map_add_def en(3) [OF p])
    next
      case False
      then have "stored_view e f = None" by (simp add: stored_view_def e(2) [OF p])
      then show ?thesis using same [OF p False] by (simp add: map_add_def en(3) [OF p] eo(3) [OF p])
    qed
  next
    case False
    then have "gget e f = None" using e(1) [of f] by blast
    then have none: "stored_view e f = None" by (simp add: stored_view_def)
    show ?thesis
    proof (cases "f = ''index''")
      case True
      with none show ?thesis by (simp add: map_add_def stored_view_def eo(2) en(2))
    next
      case False
      with \<open>\<nexists>p. map_of opt_fields p = Some f\<close> have "f \<notin> gkeys eo" "f \<notin> gkeys en"
        unfolding eo(1) en(1) insert_iff opt_fields_field by blast+
      then have "gget eo f = None" "gget en f = None" unfolding map_of_eq_None_iff .
      with none show ?thesis by (simp add: map_add_def stored_view_def)
    qed
  qed
qed

definition transport_hash :: "string \<Rightarrow> string" where
  "transport_hash name = entry_hash TRANSPORT_CONFIG_DB CONFIG_TABLE name"

lemma HandleOptDiff_Inr:
  assumes "HasPrefix name ''Opt''" "for_res opt_task tasks [] = Inr e"
  shows "HandleOptDiff R name tasks s = (Inr (), t) \<longleftrightarrow>
    (if e = [] then t = s else \<exists>u. redis_ping R TRANSPORT_CONFIG_DB s = (Inr (), u) \<and>
      ModEntry R TRANSPORT_CONFIG_DB CONFIG_TABLE name (Some e) u = (Inr (), t))"
  using assms by (auto simp: HandleOptDiff_def NewSONiCDBClient_def prog_Inr)

lemma transport_entry_fields:
  assumes "complete_module t" "transport_entry i t = Inr e"
  shows "gkeys e = insert ''index'' (snd ` set opt_fields)" "gget e ''index'' = Some (VInt (i - 1))"
    "map_of opt_fields p = Some f \<Longrightarrow> stored_view e f = Some (stored (leaf_field t p))" "entry_ok e"
  using transport_entry_complete [OF assms(1), of i] assms(2) by auto

lemma opt_diff_agrees:
  assumes R: "redis_server R view"
    and old: "complete_module old" "transport_entry i old = Inr e_old"
    and new: "complete_module new" "transport_entry i new = Inr e_new"
    and stored: "decode_view (view s TRANSPORT_CONFIG_DB (transport_hash name)) = stored_view e_old"
    and tasks: "tasks_describe tasks old new"
    and run: "HandleOptDiff R name tasks s = (Inr (), t)"
  shows "decode_view (view t TRANSPORT_CONFIG_DB (transport_hash name)) = stored_view e_new"
proof -
  let ?ps = "task_path ` set tasks"
  have pre: "HasPrefix name ''Opt''"
    by (rule ccontr) (use run in \<open>simp add: HandleOptDiff_def pfail_def\<close>)
  note vals = tasks [unfolded tasks_describe_def, THEN conjunct1]
    and changed = tasks [unfolded tasks_describe_def, THEN conjunct2, rule_format]
  from opt_tasks_entry [OF new(1) vals] obtain e where e: "for_res opt_task tasks [] = Inr e" "gomap_ok e"
      "gkeys e = {f. \<exists>t \<in> set tasks. map_of opt_fields (task_path t) = Some f}"
      and e4: "\<forall>p f. map_of opt_fields p = Some f \<longrightarrow> gget e f = (if p \<in> ?ps then Some (leaf_field new p) else None)"
    by (elim exE conjE)
  note e = e e4 [rule_format]
  have keys: "\<exists>p \<in> ?ps. map_of opt_fields p = Some f" if "gget e f \<noteq> None" for f
    using that e(3) unfolding map_of_eq_None_iff by blast
  have leafE: "\<exists>p. map_of opt_fields p = Some f \<and> v = leaf_field new p" if "gget e f = Some v" for f v
  proof -
    from that keys [of f] obtain p where p: "p \<in> ?ps" "map_of opt_fields p = Some f" by auto
    with e(4) [OF p(2)] that show ?thesis by auto
  qed
  have same: "leaf_field old p = leaf_field new p" if p: "map_of opt_fields p = Some f" "p \<notin> ?ps" for p f
  proof -
    have pk: "p \<in> fst ` set opt_fields" using p(1) by (metis map_of_eq_None_iff option.distinct(1))
    have "leaf_value old p = leaf_value new p"
    proof (rule ccontr)
      assume "leaf_value old p \<noteq> leaf_value new p"
      from changed [OF pk this] p(2) show False by blast
    qed
    then show ?thesis by (simp only: leaf_field_def)
  qed
  note old_fields = transport_entry_fields [OF old] and new_fields = transport_entry_fields [OF new]
  have merge: "stored_view e_old ++ stored_view e = stored_view e_new"
    by (rule merge_leaves [OF keys e(4) old_fields(1,2,3) new_fields(1,2,3) same])
  have scalar: "same_kinds (stored_view e_old) e"
    unfolding same_kinds_def
  proof (intro allI impI)
    fix f v v' assume v: "stored_view e_old f = Some v" "gget e f = Some v'"
    with leafE obtain p where p: "map_of opt_fields p = Some f" "v' = leaf_field new p" by blast
    with transport_entry_fields(3) [OF old p(1)] v(1) have "v = stored (leaf_field old p)" by simp
    with p show "is_slice v = is_slice v'" using leaf_field_scalar by (simp add: stored_scalar)
  qed
  show ?thesis
  proof (cases "e = []")
    case True
    then have "stored_view e = Map.empty" by (simp add: stored_view_def fun_eq_iff)
    then show ?thesis using run stored merge HandleOptDiff_Inr [OF pre e(1), of R s t] True by simp
  next
    case False
    then obtain u where u: "redis_ping R TRANSPORT_CONFIG_DB s = (Inr (), u)"
        "ModEntry R TRANSPORT_CONFIG_DB CONFIG_TABLE name (Some e) u = (Inr (), t)"
      using run HandleOptDiff_Inr [OF pre e(1), of R s t] by auto
    have "field_ok f v" if "(f, v) \<in> set e" for f v
      using leafE [of f v] that opt_fields_key by (auto simp: in_set_iff_gget [OF e(2)])
    then have eok: "entry_ok e" using False e(2) by (auto simp: entry_ok_def)
    have v: "view u = view s" using redis_server.ping_view [OF R u(1)] .
    have sk: "same_kinds (decode_view (view u TRANSPORT_CONFIG_DB (transport_hash name))) e"
      unfolding v stored by (rule scalar)
    show ?thesis
      using redis_server.ModEntry_view [OF R eok u(2)] decode_view_encode [OF eok sk] merge v stored
      by (simp add: transport_hash_def)
  qed
qed

text \<open>
  C12: applying the leaf changes of a commit to a module's entry leaves the entry that
  \<open>ConfigureTransport\<close> writes for the new configuration.
\<close>

theorem HandleOptDiff_agrees:
  assumes R: "redis_server R view"
    and old: "complete_module old" "transport_entry i old = Inr e_old"
    and new: "complete_module new" "transport_entry i new = Inr e_new"
    and stored: "decode_view (view s TRANSPORT_CONFIG_DB (transport_hash name)) = stored_view e_old"
    and tasks: "tasks_describe tasks old new"
    and run: "HandleOptDiff R name tasks s = (Inr (), t)"
  shows "decode_view (view t TRANSPORT_CONFIG_DB (transport_hash name)) = stored_view e_new"
  by (rule opt_diff_agrees [OF R old new stored tasks run])

subsection \<open>The full configuration\<close>

lemma Fill_complete: "FillTransportDefaultConfig t current = Inr t' \<Longrightarrow> complete_module t'"
  by (auto simp: Fill_Inr complete_default_leaves)

lemma slice_from_Inr: "slice_from s n = Inr r \<longleftrightarrow> n \<le> length s \<and> r = drop n s"
  by (auto simp: slice_from_def)

definition index_of_module :: "string \<Rightarrow> int res" where
  "index_of_module k = res_bind (slice_from k 3) Atoi"

text \<open>What \<open>ConfigureTransport\<close> needs of a module, and the entry it writes.\<close>

definition module_entry :: "PacketTransponder \<Rightarrow> string \<Rightarrow> PacketTransponder_OpticalModule \<Rightarrow> dval gomap res" where
  "module_entry m k v =
     res_bind (index_of_module k) (\<lambda>i. res_bind (FillTransportDefaultConfig v m) (transport_entry i))"

lemma module_entry_iff:
  "(\<exists>e. module_entry m k v = Inr e) \<longleftrightarrow>
     (\<exists>i. index_of_module k = Inr i) \<and> (\<exists>v'. FillTransportDefaultConfig v m = Inr v')"
proof -
  have "\<exists>e. transport_entry i v' = Inr e" if "FillTransportDefaultConfig v m = Inr v'" for i v'
    using transport_entry_complete [OF Fill_complete [OF that], of i] by (elim exE conjE) (rule exI)
  then show ?thesis unfolding module_entry_def res_bind_Inr by metis
qed

lemma module_entry_ok: "module_entry m k v = Inr e \<Longrightarrow> entry_ok e"
  by (auto simp: module_entry_def res_bind_Inr dest: Fill_complete transport_entry_fields(4))

lemma transport_entry_scalar:
  assumes "complete_module t" "transport_entry i t = Inr e" "gget e f = Some v"
  shows "\<not> is_slice v"
  using assms by (auto simp: transport_entry_def res_bind_Inr deref_def on_off_def split: if_splits option.splits)

definition scalar_hash :: "(string \<rightharpoonup> string) \<Rightarrow> bool" where
  "scalar_hash h \<longleftrightarrow> hash_ok h \<and> (\<forall>f v. decode_view h f = Some v \<longrightarrow> \<not> is_slice v)"

lemma module_entry_kinds: "module_entry m k v = Inr e \<Longrightarrow> scalar_hash h \<Longrightarrow> same_kinds (decode_view h) e"
  by (auto simp: module_entry_def res_bind_Inr same_kinds_def scalar_hash_def
      dest: transport_entry_scalar [OF Fill_complete])

lemma configure_module_Inr:
  "configure_module R c m k v s = (Inr v', t) \<longleftrightarrow>
     HasPrefix k ''Opt'' \<and> FillTransportDefaultConfig v m = Inr v' \<and>
     (\<exists>e. module_entry m k v = Inr e \<and> SetEntry R c CONFIG_TABLE k (Some e) s = (Inr (), t))"
  by (cases "HasPrefix k ''Opt''")
    (auto simp: configure_module_def module_entry_def index_of_module_def prog_Inr res_bind_Inr)

lemma transport_hash_inj [simp]: "transport_hash k = transport_hash k' \<longleftrightarrow> k = k'"
  by (simp add: transport_hash_def)

text \<open>The state of the server and of the model after the loop.\<close>

definition configured ::
    "(int \<Rightarrow> string \<Rightarrow> string \<rightharpoonup> string) \<Rightarrow> (int \<Rightarrow> string \<Rightarrow> string \<rightharpoonup> string) \<Rightarrow> PacketTransponder \<Rightarrow>
     PacketTransponder_OpticalModule gomap \<Rightarrow> PacketTransponder_OpticalModule gomap \<Rightarrow> bool" where
  "configured before after m ms ms' \<longleftrightarrow>
     map fst ms' = map fst ms \<and>
     (\<forall>(k, v) \<in> set ms. \<exists>v' e. (k, v') \<in> set ms' \<and> FillTransportDefaultConfig v m = Inr v' \<and>
        module_entry m k v = Inr e \<and> after TRANSPORT_CONFIG_DB (transport_hash k) = gget (encode_entry e)) \<and>
     (\<forall>db h. \<not> (db = TRANSPORT_CONFIG_DB \<and> h \<in> transport_hash ` fst ` set ms) \<longrightarrow> after db h = before db h)"

lemma configured_Cons:
  assumes e: "FillTransportDefaultConfig v0 m = Inr v0'" "module_entry m k0 v0 = Inr e"
      "mid = set_hash before TRANSPORT_CONFIG_DB (transport_hash k0) (gget (encode_entry e))"
    and new: "k0 \<notin> fst ` set ms" and rest: "configured mid after m ms ms'"
  shows "configured before after m ((k0, v0) # ms) ((k0, v0') # ms')"
proof -
  have "transport_hash k0 \<notin> transport_hash ` fst ` set ms" using new by force
  then have "after TRANSPORT_CONFIG_DB (transport_hash k0) = gget (encode_entry e)"
    using rest e(3) by (simp add: configured_def)
  moreover have "after db h = before db h"
    if "\<not> (db = TRANSPORT_CONFIG_DB \<and> h \<in> transport_hash ` fst ` set ((k0, v0) # ms))" for db h
    using rest e(3) that by (auto simp: configured_def)
  ultimately show ?thesis using rest e(1,2) by (fastforce simp: configured_def)
qed

context redis_reliable begin

lemma configure_module_view:
  assumes "scalar_hash (view s TRANSPORT_CONFIG_DB (transport_hash k))"
    and "configure_module R TRANSPORT_CONFIG_DB m k v s = (Inr v', t)"
  shows "\<exists>e. FillTransportDefaultConfig v m = Inr v' \<and> module_entry m k v = Inr e \<and>
    view t = set_hash (view s) TRANSPORT_CONFIG_DB (transport_hash k) (gget (encode_entry e))"
proof -
  from assms(2) obtain e where e: "FillTransportDefaultConfig v m = Inr v'" "module_entry m k v = Inr e"
      "SetEntry R TRANSPORT_CONFIG_DB CONFIG_TABLE k (Some e) s = (Inr (), t)"
    unfolding configure_module_Inr by blast
  have "hash_ok (view s TRANSPORT_CONFIG_DB (transport_hash k))" using assms(1) by (simp add: scalar_hash_def)
  from SetEntry_view [OF module_entry_ok [OF e(2)] _ _ e(3)] this module_entry_kinds [OF e(2) assms(1)]
  show ?thesis using e by (auto simp: transport_hash_def)
qed

lemma configure_loop_view:
  assumes "distinct (map fst ms)" "\<forall>k \<in> fst ` set ms. scalar_hash (view s TRANSPORT_CONFIG_DB (transport_hash k))"
    and "configure_loop R TRANSPORT_CONFIG_DB m ms s = (Inr ms', t)"
  shows "configured (view s) (view t) m ms ms'"
  using assms
proof (induction ms arbitrary: s ms')
  case Nil
  then show ?case by (simp add: pret_def configured_def)
next
  case (Cons x ms)
  obtain k0 v0 where x: "x = (k0, v0)" by (cases x)
  from Cons.prems(3) obtain v0' u ms1 where step: "configure_module R TRANSPORT_CONFIG_DB m k0 v0 s = (Inr v0', u)"
      "configure_loop R TRANSPORT_CONFIG_DB m ms u = (Inr ms1, t)" "ms' = (k0, v0') # ms1"
    by (auto simp: x prog_Inr)
  from configure_module_view [OF _ step(1)] Cons.prems(2) x
  obtain e where e: "FillTransportDefaultConfig v0 m = Inr v0'" "module_entry m k0 v0 = Inr e"
      "view u = set_hash (view s) TRANSPORT_CONFIG_DB (transport_hash k0) (gget (encode_entry e))" by auto
  have D: "distinct (map fst ms)" "k0 \<notin> fst ` set ms" using Cons.prems(1) x by auto
  have S: "\<forall>k \<in> fst ` set ms. scalar_hash (view u TRANSPORT_CONFIG_DB (transport_hash k))"
    using Cons.prems(2) D(2) x e(3) by auto
  show ?case unfolding step(3) x
    by (rule configured_Cons [OF e D(2) Cons.IH [OF D(1) S step(2)]])
qed

end

lemma configure_loop_cases:
  "(\<exists>r t. configure_loop R c m ((k, v) # ms) s = (Inr r, t)) \<longleftrightarrow>
     (\<exists>v' u. configure_module R c m k v s = (Inr v', u) \<and> (\<exists>r t. configure_loop R c m ms u = (Inr r, t)))"
  by (auto simp: prog_Inr)

context redis_total begin

lemma configure_loop_succeeds:
  assumes "distinct (map fst ms)" "\<forall>k \<in> fst ` set ms. scalar_hash (view s TRANSPORT_CONFIG_DB (transport_hash k))"
  shows "(\<exists>ms' t. configure_loop R TRANSPORT_CONFIG_DB m ms s = (Inr ms', t)) \<longleftrightarrow>
    (\<forall>(k, v) \<in> set ms. HasPrefix k ''Opt'' \<and> (\<exists>e. module_entry m k v = Inr e))"
  using assms
proof (induction ms arbitrary: s)
  case (Cons x ms)
  obtain k v where x: "x = (k, v)" by (cases x)
  have H: "scalar_hash (view s TRANSPORT_CONFIG_DB (transport_hash k))" using Cons.prems(2) x by simp
  have first: "(\<exists>v' u. configure_module R TRANSPORT_CONFIG_DB m k v s = (Inr v', u)) \<longleftrightarrow>
      HasPrefix k ''Opt'' \<and> (\<exists>e. module_entry m k v = Inr e)"
  proof
    assume "HasPrefix k ''Opt'' \<and> (\<exists>e. module_entry m k v = Inr e)"
    then obtain e where e: "HasPrefix k ''Opt''" "module_entry m k v = Inr e" by blast
    have "\<exists>t. SetEntry R TRANSPORT_CONFIG_DB CONFIG_TABLE k (Some e) s = (Inr (), t)"
      using SetEntry_succeeds [OF module_entry_ok [OF e(2)]] H by (simp add: scalar_hash_def transport_hash_def)
    with e show "\<exists>v' u. configure_module R TRANSPORT_CONFIG_DB m k v s = (Inr v', u)"
      by (auto simp: configure_module_Inr) (auto simp: module_entry_def res_bind_Inr)
  qed (auto simp: configure_module_Inr)
  have D: "distinct (map fst ms)" "k \<notin> fst ` set ms" using Cons.prems(1) x by auto
  have rest: "(\<exists>ms' t. configure_loop R TRANSPORT_CONFIG_DB m ms u = (Inr ms', t)) \<longleftrightarrow>
    (\<forall>(k, v) \<in> set ms. HasPrefix k ''Opt'' \<and> (\<exists>e. module_entry m k v = Inr e))"
    if "configure_module R TRANSPORT_CONFIG_DB m k v s = (Inr v', u)" for v' u
  proof (rule Cons.IH [OF D(1)])
    from configure_module_view [OF H that] obtain e where
      "view u = set_hash (view s) TRANSPORT_CONFIG_DB (transport_hash k) (gget (encode_entry e))" by blast
    then show "\<forall>k \<in> fst ` set ms. scalar_hash (view u TRANSPORT_CONFIG_DB (transport_hash k))"
      using Cons.prems(2) D(2) x by auto
  qed
  show ?case unfolding x configure_loop_cases using first rest by auto
qed (simp add: pret_def)

end

lemma ConfigureTransport_view:
  assumes R: "redis_reliable R view"
    and ok: "gomap_ok (OpticalModule m)"
    and old: "\<forall>k \<in> gkeys (OpticalModule m). scalar_hash (view s TRANSPORT_CONFIG_DB (transport_hash k))"
    and run: "ConfigureTransport R m s = (Inr m', t)"
  shows "\<exists>oms. m' = m\<lparr>OpticalModule := oms\<rparr> \<and> configured (view s) (view t) m (OpticalModule m) oms"
proof -
  from run obtain u oms where u: "redis_ping R TRANSPORT_CONFIG_DB s = (Inr (), u)"
      and l: "configure_loop R TRANSPORT_CONFIG_DB m (OpticalModule m) u = (Inr oms, t)"
      and m': "m' = m\<lparr>OpticalModule := oms\<rparr>"
    by (auto simp: ConfigureTransport_def NewSONiCDBClient_def prog_Inr)
  have v: "view u = view s"
    using redis_server.ping_view [OF redis_reliable.axioms(1) [OF R] u] .
  show ?thesis
    using redis_reliable.configure_loop_view [OF R _ _ l] ok old v m' by (auto simp: gomap_ok_def)
qed

text \<open>
  C16: after \<open>ConfigureTransport\<close> the entry of every module is the stored form of its completed
  configuration, the model holds the completed modules, and no other hash of the server changed.
\<close>

theorem ConfigureTransport_writes:
  assumes R: "redis_reliable R view"
    and ok: "gomap_ok (OpticalModule m)"
    and old: "\<forall>k \<in> gkeys (OpticalModule m). scalar_hash (view s TRANSPORT_CONFIG_DB (transport_hash k))"
    and run: "ConfigureTransport R m s = (Inr m', t)"
  shows "\<exists>oms. m' = m\<lparr>OpticalModule := oms\<rparr> \<and> configured (view s) (view t) m (OpticalModule m) oms"
  by (rule ConfigureTransport_view [OF R ok old run])

lemma ConfigureTransport_iff:
  assumes R: "redis_total R view"
    and ok: "gomap_ok (OpticalModule m)"
    and old: "\<forall>k \<in> gkeys (OpticalModule m). scalar_hash (view s TRANSPORT_CONFIG_DB (transport_hash k))"
  shows "(\<exists>m' t. ConfigureTransport R m s = (Inr m', t)) \<longleftrightarrow>
    (\<forall>(k, v) \<in> set (OpticalModule m). HasPrefix k ''Opt'' \<and> (\<exists>i. index_of_module k = Inr i) \<and>
       (\<exists>v'. FillTransportDefaultConfig v m = Inr v'))"
proof -
  obtain u where u: "NewSONiCDBClient R TRANSPORT_CONFIG_DB s = (Inr TRANSPORT_CONFIG_DB, u)" "view u = view s"
    using redis_total.NewSONiCDBClient_succeeds [OF R] by blast
  have run: "ConfigureTransport R m s =
      pbind (configure_loop R TRANSPORT_CONFIG_DB m (OpticalModule m)) (\<lambda>oms. pret (m\<lparr>OpticalModule := oms\<rparr>)) u"
    using u(1) by (simp add: ConfigureTransport_def res_simps)
  have "(\<exists>m' t. ConfigureTransport R m s = (Inr m', t)) \<longleftrightarrow>
      (\<exists>oms t. configure_loop R TRANSPORT_CONFIG_DB m (OpticalModule m) u = (Inr oms, t))"
    unfolding run pbind_Inr pret_Inr by blast
  also have "\<dots> \<longleftrightarrow> (\<forall>(k, v) \<in> set (OpticalModule m). HasPrefix k ''Opt'' \<and> (\<exists>e. module_entry m k v = Inr e))"
    using ok old by (intro redis_total.configure_loop_succeeds [OF R]) (simp_all add: gomap_ok_def u(2))
  finally show ?thesis unfolding module_entry_iff .
qed

text \<open>
  C28: on a server that carries out its commands, \<open>ConfigureTransport\<close> succeeds exactly when every
  module is called \<open>Opt<n>\<close> and its occupancy can be computed.
\<close>

theorem ConfigureTransport_succeeds_iff:
  assumes R: "redis_total R view"
    and ok: "gomap_ok (OpticalModule m)"
    and old: "\<forall>k \<in> gkeys (OpticalModule m). scalar_hash (view s TRANSPORT_CONFIG_DB (transport_hash k))"
  shows "(\<exists>m' t. ConfigureTransport R m s = (Inr m', t)) \<longleftrightarrow>
    (\<forall>(k, v) \<in> set (OpticalModule m). HasPrefix k ''Opt'' \<and> (\<exists>i. index_of_module k = Inr i) \<and>
       (\<exists>v'. FillTransportDefaultConfig v m = Inr v'))"
  by (rule ConfigureTransport_iff [OF R ok old])

subsection \<open>Deleted leaves and reported state\<close>

definition is_deleted_leaf :: "DiffTask \<Rightarrow> bool" where
  "is_deleted_leaf t \<longleftrightarrow> dt_Value t = None \<and> task_path t \<in> fst ` set opt_fields"

lemma opt_task_deleted:
  assumes "is_deleted_leaf t"
  shows "opt_task t entry = Inl (Panic ''nil pointer dereference'')"
proof -
  from assms obtain f where "map_of opt_fields (task_path t) = Some f" "dt_Value t = None"
    unfolding is_deleted_leaf_def by (metis map_of_eq_None_iff option.exhaust)
  then show ?thesis
    by (elim opt_fields_cases) (simp_all add: opt_task_def Let_def task_string_def task_uint_def task_bool_def)
qed

lemma for_res_fails:
  assumes "x \<in> set xs" "\<And>s. \<exists>e. f x s = Inl e"
  shows "\<exists>e. for_res f xs s = Inl e"
  using assms(1)
proof (induction xs arbitrary: s)
  case (Cons y ys)
  then show ?case
  proof (cases "f y s")
    case (Inr s')
    with Cons assms(2) show ?thesis by (metis Inl_Inr_False for_res.simps(2) res_bind.simps(2) set_ConsD)
  qed simp
qed simp

lemma task_value_panic: "task_string t = Inl e \<or> task_uint t = Inl e' \<or> task_bool t = Inl e'' \<Longrightarrow>
  (task_string t = Inl e \<longrightarrow> is_panic e) \<and> (task_uint t = Inl e' \<longrightarrow> is_panic e') \<and> (task_bool t = Inl e'' \<longrightarrow> is_panic e'')"
  by (cases "dt_Value t")
    (auto simp: task_string_def task_uint_def task_bool_def conversion_panic_def is_panic_def split: TypedValue.splits)

lemma opt_task_panic: "opt_task t entry = Inl e \<Longrightarrow> is_panic e"
  using task_value_panic [of t e e e]
  by (cases "task_string t"; cases "task_uint t"; cases "task_bool t")
    (auto simp: opt_task_def Let_def split: if_splits)

lemma for_res_error: "for_res f xs s = Inl e \<Longrightarrow> \<exists>x s'. f x s' = Inl e"
proof (induction xs arbitrary: s)
  case (Cons x xs)
  then show ?case by (cases "f x s") auto
qed simp

text \<open>
  A commit that removes a leaf the handler knows never reaches the transport: the handler
  panics on the missing value, and the server is not touched.
\<close>

lemma HandleOptDiff_delete_panics:
  assumes "HasPrefix name ''Opt''" "t \<in> set tasks" "is_deleted_leaf t"
  shows "\<exists>e. HandleOptDiff R name tasks s = (Inl e, s) \<and> is_panic e"
proof -
  obtain e where e: "for_res opt_task tasks [] = Inl e"
    using for_res_fails [OF assms(2), of opt_task] opt_task_deleted [OF assms(3)] by blast
  from for_res_error [OF this] obtain x s' where "opt_task x s' = Inl e" by (elim exE)
  then have "is_panic e" by (rule opt_task_panic)
  with e assms(1) show ?thesis by (simp add: HandleOptDiff_def plift_def pbind_def)
qed

subsection \<open>Reading the state\<close>

lemma Trim_core:
  assumes "set a \<subseteq> set cs" "set b \<subseteq> set cs" "m \<noteq> []" "set m \<inter> set cs = {}"
  shows "Trim (a @ m @ b) cs = m"
proof -
  obtain x xs y ys where m: "m = x # xs" "m = ys @ [y]" using assms(3) by (metis neq_Nil_conv rev_exhaust)
  have "x \<in> set m" unfolding m(1) by simp
  moreover have "y \<in> set m" unfolding m(2) by simp
  ultimately have xy: "x \<notin> set cs" "y \<notin> set cs" using assms(4) by auto
  have "dropWhile (\<lambda>c. c \<in> set cs) (a @ m @ b) = m @ b"
    using assms(1) xy(1) m(1) by (subst dropWhile_append2) auto
  moreover have "dropWhile (\<lambda>c. c \<in> set cs) (rev b @ rev m) = rev m"
    using assms(2) xy(2) m(2) by (subst dropWhile_append2) auto
  ultimately show ?thesis by (simp add: Trim_def)
qed

lemma itoa_nat_cut: "set (itoa_nat n) \<inter> set ''() ,'' = {}"
proof -
  have "\<forall>c \<in> set ''() ,''. \<not> is_digit c" by (simp add: is_digit_def digit_val_def)
  then show ?thesis using itoa_nat_digits by blast
qed

lemma trim_rms_number:
  assumes "n < 2 ^ 16" "set a \<subseteq> set ''() ,''" "set b \<subseteq> set ''() ,''"
  shows "trim_rms (a @ itoa_nat n @ b) = Inr (of_nat n)"
  unfolding trim_rms_def Trim_core [OF assms(2,3) itoa_nat_nonempty itoa_nat_cut]
  using ParseUint_itoa [OF assms(1)] by simp

definition rms_text :: "nat \<Rightarrow> nat \<Rightarrow> nat \<Rightarrow> nat \<Rightarrow> string" where
  "rms_text a b c d = ''('' @ itoa_nat a @ '', '' @ itoa_nat b @ '', '' @ itoa_nat c @ '', '' @ itoa_nat d @ '')''"

text \<open>
  C29: the four 16-bit values of an rms text \<open>(xi, xq, yi, yq)\<close> are read back exactly.
\<close>

theorem fill_rms_roundtrip:
  assumes "xi < 2 ^ 16" "xq < 2 ^ 16" "yi < 2 ^ 16" "yq < 2 ^ 16"
  shows "fill_rms (rms_text xi xq yi yq) t = Inr (t\<lparr>om_OpticalModuleRms := Some
    \<lparr>rms_Xi = Some (of_nat xi), rms_Xq = Some (of_nat xq), rms_Yi = Some (of_nat yi), rms_Yq = Some (of_nat yq)\<rparr>\<rparr>)"
proof -
  have no: "CHR '','' \<notin> set (''('' @ itoa_nat xi)" "CHR '','' \<notin> set ('' '' @ itoa_nat n)"
    "CHR '','' \<notin> set ('' '' @ itoa_nat n @ '')'')" for n by simp_all
  have "Split (rms_text xi xq yi yq) '','' = [''('' @ itoa_nat xi, '' '' @ itoa_nat xq, '' '' @ itoa_nat yi, '' '' @ itoa_nat yq @ '')'']"
    using split_char_append [OF no(1), of "'' '' @ itoa_nat xq @ '', '' @ itoa_nat yi @ '', '' @ itoa_nat yq @ '')''"]
      split_char_append [OF no(2) [of xq], of "'' '' @ itoa_nat yi @ '', '' @ itoa_nat yq @ '')''"]
      split_char_append [OF no(2) [of yi], of "'' '' @ itoa_nat yq @ '')''"] split_char_none [OF no(3) [of yq]]
    by (simp add: rms_text_def)
  moreover have "trim_rms (''('' @ itoa_nat xi) = Inr (of_nat xi)" "trim_rms ('' '' @ itoa_nat xq) = Inr (of_nat xq)"
      "trim_rms ('' '' @ itoa_nat yi) = Inr (of_nat yi)" "trim_rms ('' '' @ itoa_nat yq @ '')'') = Inr (of_nat yq)"
    using trim_rms_number [OF assms(1), of "''(''" "[]"] trim_rms_number [OF assms(2), of "'' ''" "[]"]
      trim_rms_number [OF assms(3), of "'' ''" "[]"] trim_rms_number [OF assms(4), of "'' ''" "'')''"] by simp_all
  ultimately show ?thesis by (simp add: fill_rms_def index_of_def)
qed

text \<open>Filling in the state keeps the configuration.\<close>

definition config_part :: "PacketTransponder_OpticalModule \<Rightarrow> PacketTransponder_OpticalModule" where
  "config_part t = t\<lparr>om_ChannelStats := [], om_OperationStatus := Status_UNSET, om_OpticalModuleRms := None, om_SyncError := None\<rparr>"

lemma config_part_write_ch [simp]: "config_part (write_ch n f t) = config_part t"
  using write_ch_stats [of n f t] by (auto simp: with_stats_def config_part_def)

lemma write_ch_keeps:
  "om_OperationStatus (write_ch n f t) = om_OperationStatus t"
  "om_SyncError (write_ch n f t) = om_SyncError t"
  "om_OpticalModuleRms (write_ch n f t) = om_OpticalModuleRms t"
  using write_ch_stats [of n f t] by (auto simp: with_stats_def)

definition same_but_ber :: "PacketTransponder_OpticalModule \<Rightarrow> PacketTransponder_OpticalModule \<Rightarrow> bool" where
  "same_but_ber t t' \<longleftrightarrow> config_part t' = config_part t \<and> om_OperationStatus t' = om_OperationStatus t \<and>
     om_SyncError t' = om_SyncError t \<and> om_OpticalModuleRms t' = om_OpticalModuleRms t"

lemma fill_ber_keeps: "on_field entry k (fill_ber sb) t = Inr t' \<Longrightarrow> same_but_ber t t'"
  by (auto simp: on_field_def fill_ber_def res_bind_Inr write_ch_keeps same_but_ber_def split: option.splits)

lemma fill_rms_keeps:
  "fill_rms x t = Inr t' \<Longrightarrow> config_part t' = config_part t \<and> om_OperationStatus t' = om_OperationStatus t \<and>
     om_SyncError t' = om_SyncError t"
  by (auto simp: fill_rms_def Let_def res_bind_Inr config_part_def)

lemma fill_sync_keeps: "config_part (fill_sync_error s t) = config_part t"
    "om_OperationStatus (fill_sync_error s t) = om_OperationStatus t"
  by (auto simp: fill_sync_error_def config_part_def)

lemma fill_status_keeps: "config_part (fill_status s t) = config_part t" "om_SyncError (fill_status s t) = om_SyncError t"
  by (auto simp: fill_status_def config_part_def split: option.split)

definition reported :: "(string \<rightharpoonup> dval) \<Rightarrow> string \<Rightarrow> string" where
  "reported d k = (case d k of Some (VString s) \<Rightarrow> s | _ \<Rightarrow> [])"

lemma fill_from_entry_reports:
  assumes "fill_from_entry entry t = Inr t'"
  shows "config_part t' = config_part t \<and>
    om_OperationStatus t' = (case map_of module_status_text (reported (gget entry) ''status'') of
      None \<Rightarrow> om_OperationStatus t | Some st \<Rightarrow> st) \<and>
    om_SyncError t' = (let s = reported (gget entry) ''sync-error'' in
      if s = ''false'' then Some False else if s = ''true'' then Some True else om_SyncError t)"
proof -
  from assms obtain t1 t2 t3 t4 t5 where
      1: "on_field entry ''rms'' (\<lambda>s t. res_bind (as_string s) (\<lambda>rms. fill_rms rms t)) t = Inr t1"
    and 2: "on_field entry ''sync-error'' (\<lambda>s t. res_bind (as_string s) (\<lambda>s. Inr (fill_sync_error s t))) t1 = Inr t2"
    and 3: "on_field entry ''status'' (\<lambda>s t. res_bind (as_string s) (\<lambda>s. Inr (fill_status s t))) t2 = Inr t3"
    and 4: "on_field entry ''hd-fec-ber'' (fill_ber (\<lambda>b c. c\<lparr>cs_HdFecBer := Some b\<rparr>)) t3 = Inr t4"
      "on_field entry ''sd-fec-ber'' (fill_ber (\<lambda>b c. c\<lparr>cs_SdFecBer := Some b\<rparr>)) t4 = Inr t5"
      "on_field entry ''post-fec-ber'' (fill_ber (\<lambda>b c. c\<lparr>cs_PostFecBer := Some b\<rparr>)) t5 = Inr t'"
    unfolding fill_from_entry_def res_bind_Inr by blast
  from 1 have c1: "config_part t1 = config_part t \<and> om_OperationStatus t1 = om_OperationStatus t \<and> om_SyncError t1 = om_SyncError t"
    using fill_rms_keeps by (auto simp: on_field_def res_bind_Inr split: option.splits)
  have str: "as_string v = Inr s \<longleftrightarrow> v = VString s" for v s by (cases v) (simp_all add: as_string_def)
  from 2 have c2: "config_part t2 = config_part t1 \<and> om_OperationStatus t2 = om_OperationStatus t1 \<and>
      om_SyncError t2 = (let s = reported (gget entry) ''sync-error'' in
      if s = ''false'' then Some False else if s = ''true'' then Some True else om_SyncError t1)"
    using fill_sync_keeps
    by (auto simp: on_field_def res_bind_Inr str reported_def fill_sync_error_def Let_def config_part_def split: option.splits)
  have none: "map_of module_status_text [] = None" by (simp add: module_status_text_def)
  from 3 have c3: "config_part t3 = config_part t2 \<and> om_SyncError t3 = om_SyncError t2 \<and>
      om_OperationStatus t3 = (case map_of module_status_text (reported (gget entry) ''status'') of
      None \<Rightarrow> om_OperationStatus t2 | Some st \<Rightarrow> st)"
  proof (cases "gget entry ''status''")
    case None
    with 3 none show ?thesis by (simp add: on_field_def reported_def)
  next
    case (Some v)
    with 3 obtain x where x: "v = VString x" "t3 = fill_status x t2" by (auto simp: on_field_def res_bind_Inr str)
    with Some show ?thesis
      by (cases "map_of module_status_text x") (simp_all add: reported_def fill_status_def config_part_def)
  qed
  have "same_but_ber t3 t4" "same_but_ber t4 t5" "same_but_ber t5 t'" using 4 by (auto intro: fill_ber_keeps)
  with c1 c2 c3 show ?thesis by (simp add: same_but_ber_def Let_def split: option.split)
qed

text \<open>
  C30: what \<open>FillTransportState\<close> reports is the entry of the interface the module maps to: the status
  and the sync error are the decoded texts (an unknown text changes nothing), and the
  configuration leaves of the module are never touched.
\<close>

theorem FillTransportState_reports:
  assumes R: "redis_server R view"
    and map: "hash_ok (view s TRANSPORT_STATE_DB (entry_hash TRANSPORT_STATE_DB MAPPING_TABLE name))"
      "decode_view (view s TRANSPORT_STATE_DB (entry_hash TRANSPORT_STATE_DB MAPPING_TABLE name)) ''netif'' = Some (VStrings (nid # nids))"
    and ok: "hash_ok (view s TRANSPORT_STATE_DB (entry_hash TRANSPORT_STATE_DB NETIF_STATE_TABLE nid))"
    and d: "d = decode_view (view s TRANSPORT_STATE_DB (entry_hash TRANSPORT_STATE_DB NETIF_STATE_TABLE nid))"
    and run: "FillTransportState R name (Some t) s = (Inr t', u)"
  shows "config_part t' = config_part t \<and>
    om_OperationStatus t' = (case map_of module_status_text (reported d ''status'') of
      None \<Rightarrow> om_OperationStatus t | Some st \<Rightarrow> st) \<and>
    om_SyncError t' = (let s = reported d ''sync-error'' in
      if s = ''false'' then Some False else if s = ''true'' then Some True else om_SyncError t) \<and> view u = view s"
proof -
  note server = redis_server.GetEntry_value [OF R] redis_server.GetEntry_view [OF R]
  from run obtain s1 m1 s2 where p: "redis_ping R TRANSPORT_STATE_DB s = (Inr (), s1)"
      and g: "GetEntry R TRANSPORT_STATE_DB MAPPING_TABLE [name] s1 = (Inr m1, s2)"
      and rest: "(case gget m1 ''netif'' of None \<Rightarrow> pret t
        | Some s \<Rightarrow> pbind (plift (res_bind (as_strings s) (\<lambda>ss. index_of ss 0))) (\<lambda>nid.
            pbind (GetEntry R TRANSPORT_STATE_DB NETIF_STATE_TABLE [nid]) (\<lambda>entry. plift (fill_from_entry entry t)))) s2 = (Inr t', u)"
    by (auto simp: FillTransportState_def NewSONiCDBClient_def prog_Inr)
  have v1: "view s1 = view s" using redis_server.ping_view [OF R p] .
  have v2: "view s2 = view s" using server(2) [OF g] v1 by simp
  have "gget m1 ''netif'' = Some (VStrings (nid # nids))" using server(1) [OF _ g] map v1 by simp
  with rest obtain e where e: "GetEntry R TRANSPORT_STATE_DB NETIF_STATE_TABLE [nid] s2 = (Inr e, u)"
      "fill_from_entry e t = Inr t'"
    by (auto simp: as_strings_def index_of_def prog_Inr)
  have "gget e = d" using server(1) [OF _ e(1)] ok d v2 by simp
  with fill_from_entry_reports [OF e(2)] server(2) [OF e(1)] v2 show ?thesis by simp
qed

subsection \<open>Concrete runs\<close>

definition sample_module :: PacketTransponder_OpticalModule where
  "sample_module = default_leaves (zero_OpticalModule\<lparr>om_Name := Some ''Opt1''\<rparr>) zero_PacketTransponder"

definition sample_interface :: PacketTransponder_Interface where
  "sample_interface = zero_Interface\<lparr>if_Name := Some ''Ethernet1'', if_PortSpeed := SPEED_100GB,
     if_OpticalModuleConnection := Some \<lparr>omc_Id = Some 100,
       omc_OpticalModule = Some \<lparr>com_Channel = Some ''A'', com_Name = Some ''Opt1''\<rparr>\<rparr>\<rparr>"

definition sample_transponder :: PacketTransponder where
  "sample_transponder = zero_PacketTransponder\<lparr>Interface := [(''Ethernet1'', sample_interface)],
     OpticalModule := [(''Opt1'', zero_OpticalModule\<lparr>om_Name := Some ''Opt1''\<rparr>)]\<rparr>"

definition sample_prbs_task :: "TypedValue option \<Rightarrow> DiffTask" where
  "sample_prbs_task v = \<lparr>dt_Type = DiffModified, dt_Path = [\<lparr>pe_Name = ''config'', pe_Key = []\<rparr>, \<lparr>pe_Name = ''prbs'', pe_Key = []\<rparr>],
     dt_Value = v\<rparr>"

definition entry_db :: "string \<Rightarrow> dval gomap \<Rightarrow> mem_db" where
  "entry_db h e = [((TRANSPORT_CONFIG_DB, h), encode_entry e)]"

lemma decode_encode: "entry_ok e \<Longrightarrow> decode_view (gget (encode_entry e)) = stored_view e"
proof -
  assume e: "entry_ok e"
  have d: "decode_view Map.empty = Map.empty" by (auto simp: decode_view_def)
  then have "same_kinds (decode_view Map.empty) e" by (simp add: same_kinds_def)
  from decode_view_encode [OF e this] d show ?thesis by simp
qed

lemma sample_prbs_path: "task_path (sample_prbs_task v) = ''prbs''"
  by (simp add: sample_prbs_task_def PathElems_String_def)

lemma sample_prbs_run: "opt_task (sample_prbs_task (Some (BoolVal b))) [] = Inr [(''prbs'', on_off b)]"
proof -
  have "task_bool (sample_prbs_task (Some (BoolVal b))) = Inr b"
    by (simp add: task_bool_def sample_prbs_task_def)
  then show ?thesis by (simp add: opt_task_def sample_prbs_path)
qed

lemma sample_prbs_entry: "entry_ok [(''prbs'', on_off b)]"
  by (simp add: entry_ok_def gomap_ok_def field_ok_def on_off_def)

lemma complete_sample: "complete_module sample_module" "complete_module (sample_module\<lparr>om_Prbs := Some True\<rparr>)"
  using complete_default_leaves [of "zero_OpticalModule\<lparr>om_Name := Some ''Opt1''\<rparr>" zero_PacketTransponder]
  by (simp_all add: sample_module_def complete_module_def)

lemma entry_of_sample: "complete_module t \<Longrightarrow> transport_entry 1 t = Inr (projr (transport_entry 1 t))"
proof -
  assume "complete_module t"
  from transport_entry_complete [OF this, of 1] obtain e where "transport_entry 1 t = Inr e" by (elim exE conjE)
  then show ?thesis by simp
qed

lemma HandleOptDiff_agrees_witness:
  "decode_view (mem_view (snd (HandleOptDiff mem_redis ''Opt1'' [sample_prbs_task (Some (BoolVal True))]
       (entry_db (transport_hash ''Opt1'') (projr (transport_entry 1 sample_module)))))
     TRANSPORT_CONFIG_DB (transport_hash ''Opt1'')) =
   stored_view (projr (transport_entry 1 (sample_module\<lparr>om_Prbs := Some True\<rparr>)))"
proof (rule HandleOptDiff_agrees [OF mem.redis_server_axioms complete_sample(1) entry_of_sample [OF complete_sample(1)]
    complete_sample(2) entry_of_sample [OF complete_sample(2)]])
  show "decode_view (mem_view (entry_db (transport_hash ''Opt1'') (projr (transport_entry 1 sample_module)))
      TRANSPORT_CONFIG_DB (transport_hash ''Opt1'')) = stored_view (projr (transport_entry 1 sample_module))"
    using decode_encode [OF transport_entry_fields(4) [OF complete_sample(1) entry_of_sample [OF complete_sample(1)]]]
    by (simp add: mem_view_def mem_hash_def entry_db_def)
  have same: "leaf_value sample_module p = leaf_value (sample_module\<lparr>om_Prbs := Some True\<rparr>) p" if "p \<noteq> ''prbs''" for p
    using that by (simp add: leaf_value_def)
  have prbs: "leaf_value (sample_module\<lparr>om_Prbs := Some True\<rparr>) ''prbs'' = Some (BoolVal True)"
    by (simp add: leaf_value_simps)
  show "tasks_describe [sample_prbs_task (Some (BoolVal True))] sample_module (sample_module\<lparr>om_Prbs := Some True\<rparr>)"
    unfolding tasks_describe_def
  proof (intro conjI ballI impI)
    fix t assume "t \<in> set [sample_prbs_task (Some (BoolVal True))]"
    then have t: "t = sample_prbs_task (Some (BoolVal True))" by simp
    show "dt_Value t = leaf_value (sample_module\<lparr>om_Prbs := Some True\<rparr>) (task_path t)"
      unfolding t sample_prbs_path prbs by (simp add: sample_prbs_task_def)
  next
    fix p assume "leaf_value sample_module p \<noteq> leaf_value (sample_module\<lparr>om_Prbs := Some True\<rparr>) p"
    with same have "p = ''prbs''" by blast
    then show "\<exists>t \<in> set [sample_prbs_task (Some (BoolVal True))]. task_path t = p" using sample_prbs_path by simp
  qed
  show "HandleOptDiff mem_redis ''Opt1'' [sample_prbs_task (Some (BoolVal True))]
      (entry_db (transport_hash ''Opt1'') (projr (transport_entry 1 sample_module))) =
    (Inr (), snd (HandleOptDiff mem_redis ''Opt1'' [sample_prbs_task (Some (BoolVal True))]
      (entry_db (transport_hash ''Opt1'') (projr (transport_entry 1 sample_module)))))"
    by (simp add: HandleOptDiff_def HasPrefix_def sample_prbs_run mem_client mem_ModEntry_ok sample_prbs_entry prog_simps)
qed


lemma HandleOptDiff_delete_panics_witness:
  "\<exists>e. HandleOptDiff mem_redis ''Opt1'' [sample_prbs_task None] [] = (Inl e, []) \<and> is_panic e"
proof (rule HandleOptDiff_delete_panics)
  show "HasPrefix ''Opt1'' ''Opt''" by (simp add: HasPrefix_def)
  show "sample_prbs_task None \<in> set [sample_prbs_task None]" by simp
  have "''prbs'' \<in> fst ` set opt_fields" unfolding opt_paths by simp
  then show "is_deleted_leaf (sample_prbs_task None)"
    unfolding is_deleted_leaf_def sample_prbs_path by (simp add: sample_prbs_task_def)
qed

lemma calculateOccupancy_spec_witness:
  "calculateOccupancy ''A'' sample_module sample_transponder = Inr 100"
proof -
  have c: "connected_mbps ''Opt1'' ''A'' sample_transponder = 100000"
    by (simp add: connected_mbps_def connected_def sample_transponder_def sample_interface_def)
  have k: "speeds_known ''Opt1'' ''A'' sample_transponder"
    by (simp add: speeds_known_def connected_def sample_transponder_def sample_interface_def)
  have m: "om_ModulationType sample_module = DP_16QAM" by (simp add: sample_module_def default_leaves_def zero_OpticalModule_def)
  have o: "occupancy32 100000 100000 = 100" by (simp add: occupancy32_def float_exact fl_eval)
  have n: "om_Name sample_module = Some ''Opt1''" by (simp add: sample_module_def default_leaves_def)
  show ?thesis unfolding calculateOccupancy_spec [OF n] has_capacity_def using c k m o by simp
qed

lemma Fill_sample: "\<exists>v. FillTransportDefaultConfig (zero_OpticalModule\<lparr>om_Name := Some ''Opt1''\<rparr>) sample_transponder = Inr v"
proof -
  let ?t = "default_leaves (zero_OpticalModule\<lparr>om_Name := Some ''Opt1''\<rparr>) sample_transponder"
  have "om_Name ?t = Some ''Opt1''" "om_ModulationType ?t = DP_16QAM"
    by (simp_all add: default_leaves_def zero_OpticalModule_def)
  moreover have "speeds_known ''Opt1'' ch sample_transponder" for ch
    by (simp add: speeds_known_def connected_def sample_transponder_def sample_interface_def)
  ultimately have "\<exists>a. calculateOccupancy ch ?t sample_transponder = Inr a" for ch
    by (simp add: calculateOccupancy_def total_capacity_def occupancy_loop_total)
  then show ?thesis unfolding Fill_Inr by blast
qed

lemma sample_modules: "OpticalModule sample_transponder = [(''Opt1'', zero_OpticalModule\<lparr>om_Name := Some ''Opt1''\<rparr>)]"
  by (simp add: sample_transponder_def)

lemma sample_index: "index_of_module ''Opt1'' = Inr 1"
  by (simp add: index_of_module_def slice_from_def Atoi_def parse_digits_def digit_val_def)

lemma scalar_hash_empty [simp]: "scalar_hash Map.empty"
  by (simp add: scalar_hash_def)

lemma ConfigureTransport_succeeds_iff_witness:
  "\<exists>m' t. ConfigureTransport mem_redis sample_transponder [] = (Inr m', t)"
proof -
  have "(\<exists>m' t. ConfigureTransport mem_redis sample_transponder [] = (Inr m', t)) \<longleftrightarrow>
    (\<forall>(k, v) \<in> set (OpticalModule sample_transponder). HasPrefix k ''Opt'' \<and> (\<exists>i. index_of_module k = Inr i) \<and>
       (\<exists>v'. FillTransportDefaultConfig v sample_transponder = Inr v'))"
    by (rule ConfigureTransport_succeeds_iff [OF mem.redis_total_axioms])
      (simp_all add: sample_modules gomap_ok_def scalar_hash_empty)
  then show ?thesis using Fill_sample by (simp add: sample_modules HasPrefix_def sample_index)
qed

text \<open>Stated of the run itself, so that it does not rest on the theorem above.\<close>

lemma sample_configure: "\<exists>m' t. ConfigureTransport mem_redis sample_transponder [] = (Inr m', t)"
proof -
  obtain v where v: "FillTransportDefaultConfig (zero_OpticalModule\<lparr>om_Name := Some ''Opt1''\<rparr>) sample_transponder = Inr v"
    using Fill_sample by blast
  obtain e where e: "transport_entry 1 v = Inr e" "entry_ok e"
    using transport_entry_complete [OF Fill_complete [OF v], of 1] by (elim exE conjE)
  have "module_entry sample_transponder ''Opt1'' (zero_OpticalModule\<lparr>om_Name := Some ''Opt1''\<rparr>) = Inr e"
    using v e sample_index by (simp add: module_entry_def)
  then have "\<exists>m' t. configure_loop mem_redis TRANSPORT_CONFIG_DB sample_transponder
      (OpticalModule sample_transponder) [] = (Inr m', t)"
    using mem.configure_loop_succeeds [of "OpticalModule sample_transponder" "[]" sample_transponder]
    by (simp add: sample_modules scalar_hash_empty HasPrefix_def)
  then show ?thesis by (auto simp: ConfigureTransport_def mem_client prog_Inr)
qed

lemma ConfigureTransport_writes_witness:
  "\<exists>oms t. configured (mem_view []) (mem_view t) sample_transponder (OpticalModule sample_transponder) oms"
proof -
  obtain m' t where run: "ConfigureTransport mem_redis sample_transponder [] = (Inr m', t)"
    using sample_configure by blast
  show ?thesis
    using ConfigureTransport_writes [OF mem.redis_reliable_axioms _ _ run]
    by (auto simp: sample_modules gomap_ok_def scalar_hash_empty)
qed

lemma fill_rms_roundtrip_witness:
  "fill_rms (rms_text 1 2 3 65535) sample_module = Inr (sample_module\<lparr>om_OpticalModuleRms := Some
    \<lparr>rms_Xi = Some (of_nat 1), rms_Xq = Some (of_nat 2), rms_Yi = Some (of_nat 3), rms_Yq = Some (of_nat 65535)\<rparr>\<rparr>)"
  by (rule fill_rms_roundtrip) simp_all

definition sample_state_db :: mem_db where
  "sample_state_db =
     [((TRANSPORT_STATE_DB, entry_hash TRANSPORT_STATE_DB MAPPING_TABLE ''Opt1''), [(''netif@'', ''N0'')]),
      ((TRANSPORT_STATE_DB, entry_hash TRANSPORT_STATE_DB NETIF_STATE_TABLE ''N0''),
       [(''status'', ''ready''), (''sync-error'', ''false'')])]"

lemma sample_state_hashes:
  "mem_view sample_state_db TRANSPORT_STATE_DB (entry_hash TRANSPORT_STATE_DB MAPPING_TABLE ''Opt1'') = [''netif@'' \<mapsto> ''N0'']"
  "mem_view sample_state_db TRANSPORT_STATE_DB (entry_hash TRANSPORT_STATE_DB NETIF_STATE_TABLE ''N0'') =
     [''sync-error'' \<mapsto> ''false'', ''status'' \<mapsto> ''ready'']"
  by (simp_all add: sample_state_db_def mem_view_def mem_hash_def entry_hash_def MAPPING_TABLE_def NETIF_STATE_TABLE_def
      ToUpper_def upper_char_def fun_upd_twist)

lemma sample_state_get:
  "GetEntry mem_redis TRANSPORT_STATE_DB MAPPING_TABLE [''Opt1''] sample_state_db =
     (Inr [(''netif'', VStrings [''N0''])], sample_state_db)"
  "GetEntry mem_redis TRANSPORT_STATE_DB NETIF_STATE_TABLE [''N0''] sample_state_db =
     (Inr [(''status'', VString ''ready''), (''sync-error'', VString ''false'')], sample_state_db)"
  by (simp_all add: GetEntry_def mem_redis_def mem_hash_def sample_state_db_def entry_hash_def MAPPING_TABLE_def
      NETIF_STATE_TABLE_def ToUpper_def upper_char_def prog_simps)

lemma FillTransportState_reports_witness:
  "om_OperationStatus (projr (fst (FillTransportState mem_redis ''Opt1'' (Some sample_module) sample_state_db))) = STATE_READY"
proof -
  let ?run = "FillTransportState mem_redis ''Opt1'' (Some sample_module) sample_state_db"
  have run: "?run = (Inr (projr (fst ?run)), sample_state_db)"
    by (simp add: FillTransportState_def mem_client sample_state_get as_strings_def index_of_def fill_from_entry_def
        on_field_def as_string_def prog_simps)
  have netif: "decode_view [''netif@'' \<mapsto> ''N0''] ''netif'' = Some (VStrings [''N0''])"
    by (simp add: decode_view_def)
  have ok: "hash_ok [''netif@'' \<mapsto> ''N0'']" "hash_ok [''sync-error'' \<mapsto> ''false'', ''status'' \<mapsto> ''ready'']"
    by (auto simp: hash_ok_def)
  have "reported (decode_view [''sync-error'' \<mapsto> ''false'', ''status'' \<mapsto> ''ready'']) ''status'' = ''ready''"
    by (simp add: reported_def decode_view_def)
  with FillTransportState_reports [OF mem.redis_server_axioms _ _ _ refl run, of "''N0''" "[]"]
  show ?thesis unfolding sample_state_hashes using netif ok by (simp add: module_status_text_def)
qed



end
