(* ===== verification/Iface.thy ===== *)
theory Iface
  imports Transport
begin

section \<open>Interfaces and VLANs (pkg/sonic/interface.go)\<close>

text \<open>
  \<open>HandleInterfaceDiff\<close> applies the changes of one interface to the VLAN tables of the SONiC
  configuration database: an interface that is connected to an optical module is an untagged member
  of the VLAN of its connection, and the module's line port a tagged one. \<open>HandlePortDiff\<close>
  decides whether a port change needs a reboot, \<open>FillInterfaceState\<close> reads back the state of an
  interface.
\<close>

definition VLAN_TABLE :: string where "VLAN_TABLE = ''VLAN''"
definition VLAN_MEMBER_TABLE :: string where "VLAN_MEMBER_TABLE = ''VLAN_MEMBER''"
definition PORT_TABLE :: string where "PORT_TABLE = ''PORT_TABLE''"

subsection \<open>Line ports\<close>

text \<open>\<open>int\<close> of the 64-bit target: arithmetic wraps.\<close>

definition wrap64 :: "int \<Rightarrow> int" where
  "wrap64 i = sint (word_of_int i :: 64 word)"

definition OptEthernetName :: "Connection_OpticalModule option \<Rightarrow> string res" where
  "OptEthernetName m =
     (case m of None \<Rightarrow> Inl (Errorf ''module is nil'' [])
      | Some c \<Rightarrow>
          (case (com_Name c, com_Channel c) of
             (Some name, Some ch) \<Rightarrow>
               res_bind (slice_from name 3) (\<lambda>digits.
               res_bind (Atoi digits) (\<lambda>index.
                 let subindex = (if ch = ''B'' then 1 else 0)
                 in Inr (eth_name (wrap64 (2 * index - 1 + subindex + 16)))))
           | _ \<Rightarrow> Inl (Errorf ''module is nil'' [])))"

subsection \<open>Ports\<close>

fun port_tasks_reboot :: "DiffTask list \<Rightarrow> bool" where
  "port_tasks_reboot [] = False"
| "port_tasks_reboot (t # ts) =
     (if PathElems_String (dt_Path t) = ''description'' then port_tasks_reboot ts else True)"

definition HandlePortDiff :: "string \<Rightarrow> DiffTask list \<Rightarrow> bool res" where
  "HandlePortDiff name task =
     (if \<not> HasPrefix name ''Port'' then Inl (Errorf ''invalid optical-module name: %s'' [name])
      else Inr (port_tasks_reboot task))"

subsection \<open>Interfaces\<close>

record diff_flags =
  modEther :: bool
  modOpt :: bool
  delOld :: bool

text \<open>The scan of the tasks stops at the first deletion.\<close>

fun scan_tasks :: "DiffTask list \<Rightarrow> diff_flags \<Rightarrow> diff_flags" where
  "scan_tasks [] g = g"
| "scan_tasks (t # ts) g =
     (if dt_Type t = DiffDeleted then g\<lparr>delOld := True\<rparr>
      else let path = PathElems_String (dt_Path t) in
        scan_tasks ts
          (if path = ''optical-module-connection.optical-module.channel'' then g\<lparr>modOpt := True\<rparr>
           else if path = ''optical-module-connection.optical-module.name'' then g\<lparr>modOpt := True\<rparr>
           else if path = ''optical-module-connection.id'' then g\<lparr>modOpt := True, modEther := True\<rparr>
           else g))"

definition interface_connection :: "PacketTransponder \<Rightarrow> string \<Rightarrow> OpticalModuleConnection option" where
  "interface_connection cfg name =
     (case gget (Interface cfg) name of None \<Rightarrow> None | Some i \<Rightarrow> if_OpticalModuleConnection i)"

definition vlan_of_id :: "32 word \<Rightarrow> string" where
  "vlan_of_id vid = vlan_name (unat vid)"

text \<open>What the database and the old configuration say of the old VLAN: its name, entry and line port.\<close>

record old_vlan =
  oldVlanName :: string
  oldVlan :: "dval gomap"
  oldOptName :: string

definition no_old_vlan :: old_vlan where
  "no_old_vlan = \<lparr>oldVlanName = [], oldVlan = [], oldOptName = []\<rparr>"

text \<open>\<open>name, _ := OptEthernetName(m)\<close>: the empty string on an error, but a panic stays a panic.\<close>

definition name_or_empty :: "string res \<Rightarrow> string res" where
  "name_or_empty r = (case r of Inl e \<Rightarrow> if is_panic e then Inl e else Inr [] | Inr n \<Rightarrow> Inr n)"

definition get_old_vlan :: "'s redis_ops \<Rightarrow> int \<Rightarrow> PacketTransponder \<Rightarrow> string \<Rightarrow> ('s, old_vlan) prog" where
  "get_old_vlan R c oldConfig name =
     (case interface_connection oldConfig name of None \<Rightarrow> pret no_old_vlan
      | Some cn \<Rightarrow>
          (case omc_Id cn of None \<Rightarrow> pret no_old_vlan
           | Some oldVid \<Rightarrow>
               pbind (GetEntry R c VLAN_TABLE [vlan_of_id oldVid]) (\<lambda>v.
                 if omc_OpticalModule cn = None
                 then pret \<lparr>oldVlanName = vlan_of_id oldVid, oldVlan = v, oldOptName = []\<rparr>
                 else pbind (plift (name_or_empty (OptEthernetName (omc_OpticalModule cn)))) (\<lambda>opt.
                   pret \<lparr>oldVlanName = vlan_of_id oldVid, oldVlan = v, oldOptName = opt\<rparr>))))"

definition delete_old_vlan :: "'s redis_ops \<Rightarrow> int \<Rightarrow> old_vlan \<Rightarrow> ('s, unit) prog" where
  "delete_old_vlan R c old =
     (if oldVlanName old = [] then pret ()
      else pseq (ModEntry R c VLAN_TABLE (oldVlanName old) None)
        (case gget (oldVlan old) ''members'' of None \<Rightarrow> pret ()
         | Some v \<Rightarrow> pbind (plift (as_strings v)) (\<lambda>members.
             pfor (\<lambda>m. ModEntry R c VLAN_MEMBER_TABLE (vlan_member_key (oldVlanName old) m) None) members)))"

definition vlan_member_entry :: "string \<Rightarrow> dval gomap" where
  "vlan_member_entry mode = [(''tagging_mode'', VString mode)]"

definition attach_ether ::
    "'s redis_ops \<Rightarrow> int \<Rightarrow> old_vlan \<Rightarrow> string \<Rightarrow> string \<Rightarrow> string list \<Rightarrow> ('s, string list) prog" where
  "attach_ether R c old vlan name members =
     pseq (if oldVlanName old \<noteq> []
           then ModEntry R c VLAN_MEMBER_TABLE (vlan_member_key (oldVlanName old) name) None
           else pret ())
     (pseq (SetEntry R c VLAN_MEMBER_TABLE (vlan_member_key vlan name) (Some (vlan_member_entry ''untagged'')))
       (pret (members @ [name])))"

definition attach_opt ::
    "'s redis_ops \<Rightarrow> int \<Rightarrow> old_vlan \<Rightarrow> string \<Rightarrow> string \<Rightarrow> string list \<Rightarrow> ('s, string list) prog" where
  "attach_opt R c old vlan optName members =
     pbind
       (if oldVlanName old \<noteq> [] \<and> oldOptName old \<noteq> []
        then pseq (ModEntry R c VLAN_MEMBER_TABLE (vlan_member_key (oldVlanName old) (oldOptName old)) None)
          (pret (filter (\<lambda>m. m \<noteq> oldOptName old) (members @ [optName])))
        else pret (members @ [optName])) (\<lambda>ms.
     pseq (SetEntry R c VLAN_MEMBER_TABLE (vlan_member_key vlan optName) (Some (vlan_member_entry ''tagged'')))
       (pret ms))"

text \<open>
  The old VLAN's new member list: each member that stays is written as the name of the interface
  (\<open>append(oldVlanUpdatedMembers, name)\<close>). The result of the second write is not looked at.
\<close>

definition old_members_left :: "string \<Rightarrow> string \<Rightarrow> diff_flags \<Rightarrow> string list \<Rightarrow> string list" where
  "old_members_left name optName f ms =
     map (\<lambda>v. name) (filter (\<lambda>v. \<not> (v = name \<and> modEther f) \<and> \<not> (v = optName \<and> modOpt f)) ms)"

definition shrink_old_vlan ::
    "'s redis_ops \<Rightarrow> int \<Rightarrow> old_vlan \<Rightarrow> string \<Rightarrow> string \<Rightarrow> diff_flags \<Rightarrow> ('s, unit) prog" where
  "shrink_old_vlan R c old name optName f =
     (if oldVlanName old = [] then pret ()
      else pbind (plift (case gget (oldVlan old) ''members'' of None \<Rightarrow> Inl conversion_panic | Some v \<Rightarrow> as_strings v)) (\<lambda>ms.
        let left = old_members_left name optName f ms
        in if left = [] then ModEntry R c VLAN_TABLE (oldVlanName old) None
           else pbind (ptry (ModEntry R c VLAN_TABLE (oldVlanName old) (Some [(''members'', VStrings left)]))) (\<lambda>_. pret ())))"

definition apply_connection ::
    "'s redis_ops \<Rightarrow> int \<Rightarrow> old_vlan \<Rightarrow> OpticalModuleConnection \<Rightarrow> string \<Rightarrow> diff_flags \<Rightarrow> ('s, unit) prog" where
  "apply_connection R c old cn name flags =
     pbind (plift (deref (omc_Id cn))) (\<lambda>newVid.
     let vlan = vlan_of_id newVid in
     pbind (GetEntry R c VLAN_TABLE [vlan]) (\<lambda>newVlan.
     pbind (plift (case gget newVlan ''members'' of None \<Rightarrow> Inr [] | Some v \<Rightarrow> as_strings v)) (\<lambda>members.
     pbind (plift (if omc_OpticalModule cn = None then Inr []
                   else name_or_empty (OptEthernetName (omc_OpticalModule cn)))) (\<lambda>optName.
     let f = (if optName = [] then flags\<lparr>modOpt := False\<rparr> else flags) in
     if \<not> modOpt f \<and> \<not> modEther f then pret ()
     else
       pbind (if modEther f then attach_ether R c old vlan name members else pret members) (\<lambda>members.
       pbind (if modOpt f then attach_opt R c old vlan optName members else pret members) (\<lambda>members.
       pseq (shrink_old_vlan R c old name optName f)
         (ModEntry R c VLAN_TABLE vlan
            (Some ((if newVlan = [] then [(''vlanid'', VUint (unat newVid))] else []) @
                   [(''members'', VStrings members)])))))))))"

definition HandleInterfaceDiff ::
    "'s redis_ops \<Rightarrow> PacketTransponder \<Rightarrow> PacketTransponder \<Rightarrow> string \<Rightarrow> DiffTask list \<Rightarrow> ('s, unit) prog" where
  "HandleInterfaceDiff R newConfig oldConfig name task =
     (if \<not> HasPrefix name ''Ethernet'' then pfail (Errorf ''invalid optical-module name: %s'' [name])
      else let flags = scan_tasks task \<lparr>modEther = False, modOpt = False, delOld = False\<rparr> in
        case interface_connection newConfig name of None \<Rightarrow> pret ()
        | Some cn \<Rightarrow>
            pbind (NewSONiCDBClient R CONFIG_DB) (\<lambda>c.
            pbind (get_old_vlan R c oldConfig name) (\<lambda>old.
              if delOld flags then delete_old_vlan R c old
              else apply_connection R c old cn name flags)))"

subsection \<open>FillInterfaceState\<close>

definition fill_mtu :: "string \<Rightarrow> PacketTransponder_Interface \<Rightarrow> PacketTransponder_Interface res" where
  "fill_mtu s t = res_bind (ParseUint s 16) (\<lambda>mtu. Inr (t\<lparr>if_Mtu := Some (of_nat mtu)\<rparr>))"

definition fill_admin :: "string \<Rightarrow> PacketTransponder_Interface \<Rightarrow> PacketTransponder_Interface" where
  "fill_admin s t =
     (if s = ''up'' then t\<lparr>if_AdminStatus := AdminStatus_UP\<rparr>
      else if s = ''down'' then t\<lparr>if_AdminStatus := AdminStatus_DOWN\<rparr> else t)"

definition fill_oper :: "string \<Rightarrow> PacketTransponder_Interface \<Rightarrow> PacketTransponder_Interface" where
  "fill_oper s t =
     (if s = ''up'' then t\<lparr>if_OperStatus := OperStatus_UP\<rparr>
      else if s = ''down'' then t\<lparr>if_OperStatus := OperStatus_DOWN\<rparr> else t)"

definition fill_interface :: "dval gomap \<Rightarrow> PacketTransponder_Interface \<Rightarrow> PacketTransponder_Interface res" where
  "fill_interface entry t =
     res_bind (on_field entry ''mtu'' (\<lambda>v t. res_bind (as_string v) (\<lambda>s. fill_mtu s t)) t) (\<lambda>t.
     res_bind (on_field entry ''admin_status'' (\<lambda>v t. res_bind (as_string v) (\<lambda>s. Inr (fill_admin s t))) t) (\<lambda>t.
       on_field entry ''oper_status'' (\<lambda>v t. res_bind (as_string v) (\<lambda>s. Inr (fill_oper s t))) t))"

definition FillInterfaceState ::
    "'s redis_ops \<Rightarrow> string \<Rightarrow> PacketTransponder_Interface option \<Rightarrow> ('s, PacketTransponder_Interface) prog" where
  "FillInterfaceState R name t =
     (case t of None \<Rightarrow> pfail (Errorf ''model is nil'' [])
      | Some t \<Rightarrow>
          pbind (NewSONiCDBClient R APPL_DB) (\<lambda>c.
          pbind (GetEntry R c PORT_TABLE [name]) (\<lambda>entry. plift (fill_interface entry t))))"

subsection \<open>Line port names\<close>

lemma wrap64_id: "- (2 ^ 63) \<le> i \<Longrightarrow> i < 2 ^ 63 \<Longrightarrow> wrap64 i = i"
  unfolding wrap64_def sint_sbintrunc' by (simp add: signed_take_bit_int_eq_self)

definition line_port :: "nat \<Rightarrow> bool \<Rightarrow> string" where
  "line_port n b = eth_name (2 * int n + 15 + (if b then 1 else 0))"

lemma OptEthernetName_eq:
  assumes "n < 2 ^ 61"
  shows "OptEthernetName (Some \<lparr>com_Channel = Some ch, com_Name = Some (opt_name n)\<rparr>) = Inr (line_port n (ch = ''B''))"
proof -
  have "slice_from (opt_name n) 3 = Inr (itoa_nat n)" by (simp add: opt_name_def slice_from_def)
  moreover have "Atoi (itoa_nat n) = Inr (int n)" using assms by (intro Atoi_itoa_nat) simp
  moreover have "wrap64 (2 * int n - 1 + k + 16) = 2 * int n + 15 + k" if "k = 0 \<or> k = 1" for k
    using that assms by (subst wrap64_id) auto
  ultimately show ?thesis by (simp add: OptEthernetName_def line_port_def Let_def)
qed

lemma line_port_inj: "line_port n b = line_port n' b' \<longleftrightarrow> n = n' \<and> b = b'"
  by (auto simp: line_port_def split: if_splits) presburger+

text \<open>
  The channels A and B of the modules \<open>Opt<n>\<close> have pairwise distinct line ports, and those of
  the eight modules of the transponder are \<open>Ethernet17\<close> to \<open>Ethernet32\<close>.
\<close>

lemma OptEthernetName_ports:
  assumes "n < 2 ^ 61" "n' < 2 ^ 61" "ch \<in> {''A'', ''B''}" "ch' \<in> {''A'', ''B''}"
  shows "(OptEthernetName (Some \<lparr>com_Channel = Some ch, com_Name = Some (opt_name n)\<rparr>) =
      OptEthernetName (Some \<lparr>com_Channel = Some ch', com_Name = Some (opt_name n')\<rparr>) \<longleftrightarrow> n = n' \<and> ch = ch') \<and>
    (\<exists>i. OptEthernetName (Some \<lparr>com_Channel = Some ch, com_Name = Some (opt_name n)\<rparr>) = Inr (eth_name i) \<and>
      (17 \<le> i \<and> i \<le> 32 \<longleftrightarrow> 1 \<le> n \<and> n \<le> 8))"
proof -
  have "(ch = ''B'') = (ch' = ''B'') \<longleftrightarrow> ch = ch'" using assms(3,4) by auto
  moreover have "17 \<le> 2 * int n + 15 + (if b then 1 else 0) \<and> 2 * int n + 15 + (if b then 1 else 0) \<le> 32 \<longleftrightarrow>
      1 \<le> n \<and> n \<le> 8" for b by auto
  ultimately show ?thesis
    using line_port_inj [of n "ch = ''B''" n' "ch' = ''B''"]
    unfolding OptEthernetName_eq [OF assms(1)] OptEthernetName_eq [OF assms(2)] line_port_def by auto
qed

lemma OptEthernetName_ports_witness:
  "OptEthernetName (Some \<lparr>com_Channel = Some ''A'', com_Name = Some (opt_name 1)\<rparr>) \<noteq>
   OptEthernetName (Some \<lparr>com_Channel = Some ''B'', com_Name = Some (opt_name 1)\<rparr>)"
  using OptEthernetName_ports [of 1 1 "''A''" "''B''"] by simp

lemma line_port_nonempty [simp]: "line_port n b \<noteq> []"
  by (simp add: line_port_def eth_name_def)

lemma itoa_no_comma: "CHR '','' \<notin> set (itoa i)"
  by (auto simp: itoa_def)

lemma eth_name_no_comma [simp]: "CHR '','' \<notin> set (eth_name i)"
  by (simp add: eth_name_def itoa_no_comma)

subsection \<open>The scan of the tasks\<close>

lemma scan_tasks_keep:
  assumes "\<forall>t \<in> set ts. dt_Type t \<noteq> DiffDeleted"
  shows "scan_tasks ts g = g\<lparr>
    modOpt := modOpt g \<or> (\<exists>t \<in> set ts. task_path t \<in> {''optical-module-connection.optical-module.channel'',
      ''optical-module-connection.optical-module.name'', ''optical-module-connection.id''}),
    modEther := modEther g \<or> (\<exists>t \<in> set ts. task_path t = ''optical-module-connection.id'')\<rparr>"
  using assms
proof (induction ts arbitrary: g)
  case (Cons t ts)
  have "dt_Type t \<noteq> DiffDeleted" using Cons.prems by simp
  have IH: "scan_tasks ts g = g\<lparr>
    modOpt := modOpt g \<or> (\<exists>t \<in> set ts. task_path t \<in> {''optical-module-connection.optical-module.channel'',
      ''optical-module-connection.optical-module.name'', ''optical-module-connection.id''}),
    modEther := modEther g \<or> (\<exists>t \<in> set ts. task_path t = ''optical-module-connection.id'')\<rparr>" for g
    using Cons by simp
  show ?case using \<open>dt_Type t \<noteq> DiffDeleted\<close> by (simp add: IH Let_def)
qed simp

lemma scan_tasks_deleted:
  assumes "\<exists>t \<in> set ts. dt_Type t = DiffDeleted"
  shows "delOld (scan_tasks ts g)"
  using assms by (induction ts arbitrary: g) (auto simp: Let_def)


subsection \<open>The VLAN tables\<close>

definition cfg_hash :: "string \<Rightarrow> string \<Rightarrow> string" where
  "cfg_hash tab k = entry_hash CONFIG_DB tab k"

lemma cfg_hash_simps [simp]:
  "cfg_hash tab k = cfg_hash tab k' \<longleftrightarrow> k = k'"
  "cfg_hash VLAN_TABLE k \<noteq> cfg_hash VLAN_MEMBER_TABLE k'"
  "cfg_hash VLAN_MEMBER_TABLE k' \<noteq> cfg_hash VLAN_TABLE k"
  by (simp_all add: cfg_hash_def entry_hash_def VLAN_TABLE_def VLAN_MEMBER_TABLE_def ToUpper_def upper_char_def
      tableNameSeparatorMap_def db_defs)

lemma vlan_of_id_inj [simp]: "vlan_of_id v = vlan_of_id w \<longleftrightarrow> v = w"
  by (simp add: vlan_of_id_def word_unat_eq_iff)

lemma vlan_of_id_nonempty [simp]: "vlan_of_id v \<noteq> []"
  by (simp add: vlan_of_id_def vlan_name_def)

lemma member_key_simps [simp]:
  "vlan_member_key (vlan_of_id v) m = vlan_member_key (vlan_of_id w) n \<longleftrightarrow> v = w \<and> m = n"
  by (simp add: vlan_of_id_def word_unat_eq_iff)

definition vlan_entry :: "32 word \<Rightarrow> string list \<Rightarrow> dval gomap" where
  "vlan_entry vid ms = [(''vlanid'', VUint (unat vid)), (''members'', VStrings ms)]"

text \<open>The decoded entry of a table, and a connection as the tables describe it.\<close>

definition cfg_entry :: "(int \<Rightarrow> string \<Rightarrow> string \<rightharpoonup> string) \<Rightarrow> string \<Rightarrow> string \<Rightarrow> string \<rightharpoonup> dval" where
  "cfg_entry V tab k = decode_view (V CONFIG_DB (cfg_hash tab k))"

definition vlan_connected ::
    "(int \<Rightarrow> string \<Rightarrow> string \<rightharpoonup> string) \<Rightarrow> 32 word \<Rightarrow> string \<Rightarrow> string \<Rightarrow> bool" where
  "vlan_connected V vid name opt \<longleftrightarrow>
     cfg_entry V VLAN_TABLE (vlan_of_id vid) = stored_view (vlan_entry vid [name, opt]) \<and>
     cfg_entry V VLAN_MEMBER_TABLE (vlan_member_key (vlan_of_id vid) name) = stored_view (vlan_member_entry ''untagged'') \<and>
     cfg_entry V VLAN_MEMBER_TABLE (vlan_member_key (vlan_of_id vid) opt) = stored_view (vlan_member_entry ''tagged'')"

definition no_commas :: "string list \<Rightarrow> bool" where
  "no_commas ms \<longleftrightarrow> ms \<noteq> [] \<and> (\<forall>m \<in> set ms. CHR '','' \<notin> set m)"

lemma vlan_entries_ok:
  "entry_ok (vlan_member_entry mode)"
  "no_commas ms \<Longrightarrow> entry_ok (vlan_entry vid ms)"
  "no_commas ms \<Longrightarrow> entry_ok [(''members'', VStrings ms)]"
  by (auto simp: entry_ok_def gomap_ok_def field_ok_def vlan_member_entry_def vlan_entry_def no_commas_def)

lemma stored_vlan_entry: "stored_view (vlan_entry vid ms) =
    [''vlanid'' \<mapsto> VString (itoa_nat (unat vid)), ''members'' \<mapsto> VStrings ms]"
  by (auto simp: stored_view_def vlan_entry_def stored_def fun_eq_iff)

lemma stored_members: "stored_view [(''members'', VStrings ms)] = [''members'' \<mapsto> VStrings ms]"
  by (auto simp: stored_view_def stored_def fun_eq_iff)

context redis_reliable begin

text \<open>The effect of the three kinds of writes, on the view of the configuration database.\<close>

lemma write_member:
  assumes "SetEntry R CONFIG_DB VLAN_MEMBER_TABLE k (Some (vlan_member_entry mode)) s = (Inr (), t)"
    and "view s CONFIG_DB (cfg_hash VLAN_MEMBER_TABLE k) = Map.empty"
  shows "view t = set_hash (view s) CONFIG_DB (cfg_hash VLAN_MEMBER_TABLE k) (gget (encode_entry (vlan_member_entry mode)))"
  using assms SetEntry_view [OF vlan_entries_ok(1) _ _ assms(1)] by (simp add: cfg_hash_def same_kinds_def)

lemma drop_entry:
  assumes "ModEntry R CONFIG_DB tab k None s = (Inr (), t)"
  shows "view t = set_hash (view s) CONFIG_DB (cfg_hash tab k) Map.empty"
  using ModEntry_del_view [OF assms] by (simp add: cfg_hash_def)

lemma write_vlan:
  assumes "entry_ok e" "ModEntry R CONFIG_DB VLAN_TABLE k (Some e) s = (Inr (), t)"
  shows "view t = set_hash (view s) CONFIG_DB (cfg_hash VLAN_TABLE k)
      (view s CONFIG_DB (cfg_hash VLAN_TABLE k) ++ gget (encode_entry e))"
  using ModEntry_view [OF assms] by (simp add: cfg_hash_def)

lemma read_vlan:
  assumes "GetEntry R CONFIG_DB VLAN_TABLE [k] s = (Inr d, t)" "hash_ok (view s CONFIG_DB (cfg_hash VLAN_TABLE k))"
  shows "view t = view s" "gomap_ok d" "gget d = cfg_entry (view s) VLAN_TABLE k"
  using GetEntry_view [OF assms(1)] GetEntry_value [OF _ assms(1)] assms(2) by (auto simp: cfg_hash_def cfg_entry_def)

end

lemma decode_stored: "entry_ok e \<Longrightarrow> decode_view (gget (encode_entry e)) = stored_view e"
  by (rule decode_encode)

text \<open>
  C14: a new connection. When the interface had none and the VLAN is not in use, the handler
  creates the VLAN of the connection with the interface and the line port as its members.
\<close>

theorem HandleInterfaceDiff_connects:
  assumes R: "redis_reliable R view"
    and old: "interface_connection oldConfig name = None"
    and new: "interface_connection newConfig name = Some \<lparr>omc_Id = Some vid, omc_OpticalModule = Some m\<rparr>"
    and opt: "OptEthernetName (Some m) = Inr opt" "opt \<noteq> []" "opt \<noteq> name" "no_commas [name, opt]"
    and tasks: "\<forall>t \<in> set tasks. dt_Type t \<noteq> DiffDeleted"
      "\<exists>t \<in> set tasks. task_path t = ''optical-module-connection.id''"
    and free: "view s CONFIG_DB (cfg_hash VLAN_TABLE (vlan_of_id vid)) = Map.empty"
      "\<forall>n. view s CONFIG_DB (cfg_hash VLAN_MEMBER_TABLE (vlan_member_key (vlan_of_id vid) n)) = Map.empty"
    and run: "HandleInterfaceDiff R newConfig oldConfig name tasks s = (Inr (), t)"
  shows "vlan_connected (view t) vid name opt"
proof -
  let ?v = "vlan_of_id vid"
  have fl: "scan_tasks tasks \<lparr>modEther = False, modOpt = False, delOld = False\<rparr> =
      \<lparr>modEther = True, modOpt = True, delOld = False\<rparr>"
    using scan_tasks_keep [OF tasks(1), of "\<lparr>modEther = False, modOpt = False, delOld = False\<rparr>"] tasks(2) by auto
  have pre: "HasPrefix name ''Ethernet''"
    by (rule ccontr) (use run in \<open>simp add: HandleInterfaceDiff_def pfail_def\<close>)
  obtain s1 where s1: "redis_ping R CONFIG_DB s = (Inr (), s1)"
      and ap: "apply_connection R CONFIG_DB no_old_vlan \<lparr>omc_Id = Some vid, omc_OpticalModule = Some m\<rparr> name
        \<lparr>modEther = True, modOpt = True, delOld = False\<rparr> s1 = (Inr (), t)"
    using run pre by (auto simp: HandleInterfaceDiff_def Let_def fl new get_old_vlan_def old NewSONiCDBClient_def prog_Inr)
  have v1: "view s1 = view s" using redis_server.ping_view [OF redis_reliable.axioms(1) [OF R] s1] .
  obtain nv s2 where g: "GetEntry R CONFIG_DB VLAN_TABLE [?v] s1 = (Inr nv, s2)"
    using ap by (auto simp: apply_connection_def prog_Inr Let_def)
  note rd = redis_reliable.read_vlan [OF R g]
  have "gget nv = Map.empty" using rd(3) v1 free(1) by (simp add: cfg_entry_def)
  then have nv: "nv = []" by simp
  have v2: "view s2 = view s" using rd(1) v1 free(1) by simp
  obtain s3 s4 where 3: "SetEntry R CONFIG_DB VLAN_MEMBER_TABLE (vlan_member_key ?v name) (Some (vlan_member_entry ''untagged'')) s2 = (Inr (), s3)"
    and 4: "SetEntry R CONFIG_DB VLAN_MEMBER_TABLE (vlan_member_key ?v opt) (Some (vlan_member_entry ''tagged'')) s3 = (Inr (), s4)"
    and 5: "ModEntry R CONFIG_DB VLAN_TABLE ?v (Some (vlan_entry vid [name, opt])) s4 = (Inr (), t)"
    using ap g nv opt(1,2)
    by (auto simp: apply_connection_def prog_Inr Let_def name_or_empty_def attach_ether_def attach_opt_def
        shrink_old_vlan_def no_old_vlan_def vlan_entry_def)
  have v3: "view s3 = set_hash (view s) CONFIG_DB (cfg_hash VLAN_MEMBER_TABLE (vlan_member_key ?v name))
      (gget (encode_entry (vlan_member_entry ''untagged'')))"
    using redis_reliable.write_member [OF R 3] v2 free(2) by simp
  have v4: "view s4 = set_hash (view s3) CONFIG_DB (cfg_hash VLAN_MEMBER_TABLE (vlan_member_key ?v opt))
      (gget (encode_entry (vlan_member_entry ''tagged'')))"
    using redis_reliable.write_member [OF R 4] v3 free(2) opt(3) by simp
  note ok = vlan_entries_ok(2) [OF opt(4), of vid]
  show ?thesis
    using redis_reliable.write_vlan [OF R ok 5] v4 v3 free(1) opt(3) decode_stored [OF ok]
      decode_stored [OF vlan_entries_ok(1)]
    by (simp add: vlan_connected_def cfg_entry_def)
qed


lemma stored_vlan_same_kinds:
  "same_kinds (stored_view (vlan_entry vid ms)) [(''members'', VStrings ms')]"
  by (auto simp: same_kinds_def stored_vlan_entry is_slice_def split: if_splits)

lemma hash_ok_set_hash [simp]: "hash_ok (set_hash V db h x db' h') \<longleftrightarrow> (if db' = db \<and> h' = h then hash_ok x else hash_ok (V db' h'))"
  by simp

lemma cfg_entry_simps:
  "cfg_entry (set_hash V CONFIG_DB (cfg_hash tab k) x) tab' k' =
     (if cfg_hash tab' k' = cfg_hash tab k then decode_view x else cfg_entry V tab' k')"
  by (simp add: cfg_entry_def)

text \<open>Writing the member list of an existing VLAN.\<close>

context redis_reliable begin

lemma write_members:
  assumes "no_commas ms'" "ModEntry R CONFIG_DB VLAN_TABLE k (Some [(''members'', VStrings ms')]) s = (Inr (), t)"
    and "cfg_entry (view s) VLAN_TABLE k = stored_view (vlan_entry vid ms)"
  shows "cfg_entry (view t) VLAN_TABLE k = stored_view (vlan_entry vid ms')"
    and "h \<noteq> cfg_hash VLAN_TABLE k \<Longrightarrow> view t CONFIG_DB h = view s CONFIG_DB h"
proof -
  note ok = vlan_entries_ok(3) [OF assms(1)]
  have v: "view t = set_hash (view s) CONFIG_DB (cfg_hash VLAN_TABLE k)
      (view s CONFIG_DB (cfg_hash VLAN_TABLE k) ++ gget (encode_entry [(''members'', VStrings ms')]))"
    by (rule write_vlan [OF ok assms(2)])
  have d: "decode_view (view s CONFIG_DB (cfg_hash VLAN_TABLE k)) = stored_view (vlan_entry vid ms)"
    using assms(3) by (simp add: cfg_entry_def)
  have "decode_view (view s CONFIG_DB (cfg_hash VLAN_TABLE k) ++ gget (encode_entry [(''members'', VStrings ms')])) =
      stored_view (vlan_entry vid ms) ++ stored_view [(''members'', VStrings ms')]"
    using decode_view_encode [OF ok, of "view s CONFIG_DB (cfg_hash VLAN_TABLE k)"] stored_vlan_same_kinds unfolding d by blast
  also have "\<dots> = stored_view (vlan_entry vid ms')"
    unfolding stored_vlan_entry stored_members by (auto simp: fun_eq_iff map_add_def)
  finally show "cfg_entry (view t) VLAN_TABLE k = stored_view (vlan_entry vid ms')"
    using v by (simp add: cfg_entry_def)
  show "h \<noteq> cfg_hash VLAN_TABLE k \<Longrightarrow> view t CONFIG_DB h = view s CONFIG_DB h" using v by simp
qed

end

text \<open>
  C15: changing the line port of a connection in its VLAN. The handler moves the connection to the
  new line port: the VLAN has the interface and the new port as members, and the old port's
  membership is gone.
\<close>

theorem HandleInterfaceDiff_switches:
  assumes T: "redis_total R view"
    and old: "interface_connection oldConfig name = Some \<lparr>omc_Id = Some vid, omc_OpticalModule = Some m\<rparr>"
    and new: "interface_connection newConfig name = Some \<lparr>omc_Id = Some vid, omc_OpticalModule = Some m'\<rparr>"
    and opt: "OptEthernetName (Some m) = Inr opt" "OptEthernetName (Some m') = Inr opt'"
      "distinct [name, opt, opt']" "no_commas [name, opt, opt']" "opt \<noteq> []" "opt' \<noteq> []" "name \<noteq> []"
    and tasks: "\<forall>t \<in> set tasks. dt_Type t \<noteq> DiffDeleted \<and> task_path t \<noteq> ''optical-module-connection.id''"
      "\<exists>t \<in> set tasks. task_path t \<in> {''optical-module-connection.optical-module.channel'',
        ''optical-module-connection.optical-module.name''}"
    and before: "vlan_connected (view s) vid name opt" "hash_ok (view s CONFIG_DB (cfg_hash VLAN_TABLE (vlan_of_id vid)))"
      "view s CONFIG_DB (cfg_hash VLAN_MEMBER_TABLE (vlan_member_key (vlan_of_id vid) opt')) = Map.empty"
    and run: "HandleInterfaceDiff R newConfig oldConfig name tasks s = (Inr (), t)"
  shows "vlan_connected (view t) vid name opt' \<and>
    cfg_entry (view t) VLAN_MEMBER_TABLE (vlan_member_key (vlan_of_id vid) opt) = Map.empty"
proof -
  note R = redis_total.axioms(1) [OF T]
  let ?v = "vlan_of_id vid"
  let ?fl = "\<lparr>modEther = False, modOpt = True, delOld = False\<rparr>"
  have fl: "scan_tasks tasks \<lparr>modEther = False, modOpt = False, delOld = False\<rparr> = ?fl"
    using scan_tasks_keep [of tasks "\<lparr>modEther = False, modOpt = False, delOld = False\<rparr>"] tasks by auto
  have pre: "HasPrefix name ''Ethernet''"
    by (rule ccontr) (use run in \<open>simp add: HandleInterfaceDiff_def pfail_def\<close>)
  obtain s1 ov s2 where s1: "redis_ping R CONFIG_DB s = (Inr (), s1)"
      and go: "GetEntry R CONFIG_DB VLAN_TABLE [?v] s1 = (Inr ov, s2)"
      and ap: "apply_connection R CONFIG_DB \<lparr>oldVlanName = ?v, oldVlan = ov, oldOptName = opt\<rparr>
        \<lparr>omc_Id = Some vid, omc_OpticalModule = Some m'\<rparr> name ?fl s2 = (Inr (), t)"
    using run pre by (auto simp: HandleInterfaceDiff_def Let_def fl new get_old_vlan_def old NewSONiCDBClient_def
        name_or_empty_def opt(1) prog_Inr)
  have v1: "view s1 = view s" using redis_server.ping_view [OF redis_reliable.axioms(1) [OF R] s1] .
  have v2: "view s2 = view s" using redis_reliable.read_vlan(1) [OF R go] before(2) v1 by simp
  have ov: "gget ov ''members'' = Some (VStrings [name, opt])"
    using redis_reliable.read_vlan(3) [OF R go] before v1 by (simp add: vlan_connected_def stored_vlan_entry)
  obtain nv s3 where g: "GetEntry R CONFIG_DB VLAN_TABLE [?v] s2 = (Inr nv, s3)"
    using ap by (auto simp: apply_connection_def prog_Inr Let_def)
  have v3: "view s3 = view s" using redis_reliable.read_vlan(1) [OF R g] before(2) v2 by simp
  have nv: "gget nv ''members'' = Some (VStrings [name, opt])"
    using redis_reliable.read_vlan(3) [OF R g] before v2 by (simp add: vlan_connected_def stored_vlan_entry)
  then have ne: "nv \<noteq> []" by auto
  obtain s4 s5 s6 where
      4: "ModEntry R CONFIG_DB VLAN_MEMBER_TABLE (vlan_member_key ?v opt) None s3 = (Inr (), s4)"
    and 5: "SetEntry R CONFIG_DB VLAN_MEMBER_TABLE (vlan_member_key ?v opt') (Some (vlan_member_entry ''tagged'')) s4 = (Inr (), s5)"
    and 6: "shrink_old_vlan R CONFIG_DB \<lparr>oldVlanName = ?v, oldVlan = ov, oldOptName = opt\<rparr> name opt' ?fl s5 = (Inr (), s6)"
    and 7: "ModEntry R CONFIG_DB VLAN_TABLE ?v (Some [(''members'', VStrings [name, opt'])]) s6 = (Inr (), t)"
    using ap g nv ne opt(2,3,5,6)
    by (auto simp: apply_connection_def prog_Inr Let_def name_or_empty_def attach_opt_def as_strings_def)
  note drop = redis_reliable.drop_entry [OF R]
  have v5: "view s5 = set_hash (view s4) CONFIG_DB (cfg_hash VLAN_MEMBER_TABLE (vlan_member_key ?v opt'))
      (gget (encode_entry (vlan_member_entry ''tagged'')))"
    using redis_reliable.write_member [OF R 5] drop [OF 4] v3 before(3) opt(3) by simp
  have "old_members_left name opt' ?fl [name, opt] = [name, name]"
    using opt(3) by (simp add: old_members_left_def)
  then obtain r where 6: "ModEntry R CONFIG_DB VLAN_TABLE ?v (Some [(''members'', VStrings [name, name])]) s5 = (r, s6)"
    using 6 ov by (auto simp: shrink_old_vlan_def as_strings_def prog_Inr Let_def)
  have commas: "no_commas [name, name]" "no_commas [name, opt']" using opt(4) by (simp_all add: no_commas_def)
  have "r = Inr ()" using redis_total.ModEntry_succeeds [OF T vlan_entries_ok(3) [OF commas(1)], of CONFIG_DB VLAN_TABLE ?v s5] 6
    by auto
  note 6 = 6 [unfolded this]
  have e5: "cfg_entry (view s5) VLAN_TABLE ?v = stored_view (vlan_entry vid [name, opt])"
    using v5 drop [OF 4] v3 before(1) by (simp add: vlan_connected_def cfg_entry_simps)
  note w6 = redis_reliable.write_members [OF R commas(1) 6 e5]
  note w7 = redis_reliable.write_members [OF R commas(2) 7 w6(1)]
  have mem: "cfg_entry (view t) VLAN_MEMBER_TABLE k = cfg_entry (view s5) VLAN_MEMBER_TABLE k" for k
    using w7(2) w6(2) by (simp add: cfg_entry_def)
  show ?thesis
    using w7(1) before(1) opt(3) v3 drop [OF 4] decode_stored [OF vlan_entries_ok(1)]
    by (simp add: vlan_connected_def mem v5 cfg_entry_simps)
qed


text \<open>
  C33: moving a connection to another VLAN id with its module unchanged loses the line port: the new
  VLAN is created with the interface as its only member, although a tagged membership of the line
  port is written for it. (The handler drops the old line port's name from the new member list, and here it is
  the name of the new line port as well.)
\<close>

theorem HandleInterfaceDiff_renumber_loses_port:
  assumes R: "redis_reliable R view"
    and old: "interface_connection oldConfig name = Some \<lparr>omc_Id = Some vid, omc_OpticalModule = Some m\<rparr>"
    and new: "interface_connection newConfig name = Some \<lparr>omc_Id = Some vid', omc_OpticalModule = Some m\<rparr>"
    and ids: "vid \<noteq> vid'"
    and opt: "OptEthernetName (Some m) = Inr opt" "opt \<noteq> name" "no_commas [name, opt]" "opt \<noteq> []" "name \<noteq> []"
    and tasks: "\<forall>t \<in> set tasks. dt_Type t \<noteq> DiffDeleted"
      "\<exists>t \<in> set tasks. task_path t = ''optical-module-connection.id''"
    and before: "vlan_connected (view s) vid name opt" "hash_ok (view s CONFIG_DB (cfg_hash VLAN_TABLE (vlan_of_id vid)))"
    and free: "view s CONFIG_DB (cfg_hash VLAN_TABLE (vlan_of_id vid')) = Map.empty"
      "\<forall>n. view s CONFIG_DB (cfg_hash VLAN_MEMBER_TABLE (vlan_member_key (vlan_of_id vid') n)) = Map.empty"
    and run: "HandleInterfaceDiff R newConfig oldConfig name tasks s = (Inr (), t)"
  shows "cfg_entry (view t) VLAN_TABLE (vlan_of_id vid') = stored_view (vlan_entry vid' [name]) \<and>
    cfg_entry (view t) VLAN_MEMBER_TABLE (vlan_member_key (vlan_of_id vid') opt) = stored_view (vlan_member_entry ''tagged'') \<and>
    \<not> vlan_connected (view t) vid' name opt"
proof -
  let ?v = "vlan_of_id vid" and ?w = "vlan_of_id vid'"
  let ?fl = "\<lparr>modEther = True, modOpt = True, delOld = False\<rparr>"
  have fl: "scan_tasks tasks \<lparr>modEther = False, modOpt = False, delOld = False\<rparr> = ?fl"
    using scan_tasks_keep [of tasks "\<lparr>modEther = False, modOpt = False, delOld = False\<rparr>"] tasks by auto
  have pre: "HasPrefix name ''Ethernet''"
    by (rule ccontr) (use run in \<open>simp add: HandleInterfaceDiff_def pfail_def\<close>)
  obtain s1 ov s2 where s1: "redis_ping R CONFIG_DB s = (Inr (), s1)"
      and go: "GetEntry R CONFIG_DB VLAN_TABLE [?v] s1 = (Inr ov, s2)"
      and ap: "apply_connection R CONFIG_DB \<lparr>oldVlanName = ?v, oldVlan = ov, oldOptName = opt\<rparr>
        \<lparr>omc_Id = Some vid', omc_OpticalModule = Some m\<rparr> name ?fl s2 = (Inr (), t)"
    using run pre by (auto simp: HandleInterfaceDiff_def Let_def fl new get_old_vlan_def old NewSONiCDBClient_def
        name_or_empty_def opt(1) prog_Inr)
  have v1: "view s1 = view s" using redis_server.ping_view [OF redis_reliable.axioms(1) [OF R] s1] .
  have v2: "view s2 = view s" using redis_reliable.read_vlan(1) [OF R go] before(2) v1 by simp
  have ov: "gget ov ''members'' = Some (VStrings [name, opt])"
    using redis_reliable.read_vlan(3) [OF R go] before v1 by (simp add: vlan_connected_def stored_vlan_entry)
  obtain nv s3 where g: "GetEntry R CONFIG_DB VLAN_TABLE [?w] s2 = (Inr nv, s3)"
    using ap by (auto simp: apply_connection_def prog_Inr Let_def)
  have v3: "view s3 = view s" using redis_reliable.read_vlan(1) [OF R g] free(1) v2 by simp
  have "gget nv = Map.empty" using redis_reliable.read_vlan(3) [OF R g] v2 free(1) by (simp add: cfg_entry_def)
  then have nv: "nv = []" by simp
  obtain s4 s5 s6 s7 s8 where
      4: "ModEntry R CONFIG_DB VLAN_MEMBER_TABLE (vlan_member_key ?v name) None s3 = (Inr (), s4)"
    and 5: "SetEntry R CONFIG_DB VLAN_MEMBER_TABLE (vlan_member_key ?w name) (Some (vlan_member_entry ''untagged'')) s4 = (Inr (), s5)"
    and 6: "ModEntry R CONFIG_DB VLAN_MEMBER_TABLE (vlan_member_key ?v opt) None s5 = (Inr (), s6)"
    and 7: "SetEntry R CONFIG_DB VLAN_MEMBER_TABLE (vlan_member_key ?w opt) (Some (vlan_member_entry ''tagged'')) s6 = (Inr (), s7)"
    and 8: "shrink_old_vlan R CONFIG_DB \<lparr>oldVlanName = ?v, oldVlan = ov, oldOptName = opt\<rparr> name opt ?fl s7 = (Inr (), s8)"
    and 9: "ModEntry R CONFIG_DB VLAN_TABLE ?w (Some (vlan_entry vid' [name])) s8 = (Inr (), t)"
    using ap g nv opt(1,2,4)
    by (auto simp: apply_connection_def prog_Inr Let_def name_or_empty_def attach_ether_def attach_opt_def vlan_entry_def)
  note drop = redis_reliable.drop_entry [OF R] and put = redis_reliable.write_member [OF R]
  have v5: "view s5 = set_hash (view s4) CONFIG_DB (cfg_hash VLAN_MEMBER_TABLE (vlan_member_key ?w name))
      (gget (encode_entry (vlan_member_entry ''untagged'')))"
    using put [OF 5] drop [OF 4] v3 free(2) ids by simp
  have v7: "view s7 = set_hash (view s6) CONFIG_DB (cfg_hash VLAN_MEMBER_TABLE (vlan_member_key ?w opt))
      (gget (encode_entry (vlan_member_entry ''tagged'')))"
    using put [OF 7] drop [OF 6] v5 drop [OF 4] v3 free(2) ids opt(2) by simp
  have "old_members_left name opt ?fl [name, opt] = []" by (simp add: old_members_left_def)
  then have "ModEntry R CONFIG_DB VLAN_TABLE ?v None s7 = (Inr (), s8)"
    using 8 ov by (auto simp: shrink_old_vlan_def as_strings_def prog_Inr Let_def)
  note v8 = drop [OF this]
  have comma: "no_commas [name]" using opt(3) by (simp add: no_commas_def)
  have empty: "view s8 CONFIG_DB (cfg_hash VLAN_TABLE ?w) = Map.empty"
    using v8 v7 v5 drop [OF 4] drop [OF 6] v3 free(1) ids by simp
  have V: "cfg_entry (view t) VLAN_TABLE ?w = stored_view (vlan_entry vid' [name])"
    using redis_reliable.write_vlan [OF R vlan_entries_ok(2) [OF comma] 9] empty decode_stored [OF vlan_entries_ok(2) [OF comma]]
    by (simp add: cfg_entry_def)
  moreover have "cfg_entry (view t) VLAN_MEMBER_TABLE (vlan_member_key ?w opt) = stored_view (vlan_member_entry ''tagged'')"
    using redis_reliable.write_vlan [OF R vlan_entries_ok(2) [OF comma] 9] v8 v7 decode_stored [OF vlan_entries_ok(1)]
    by (simp add: cfg_entry_simps)
  moreover have "stored_view (vlan_entry vid' [name]) \<noteq> stored_view (vlan_entry vid' [name, opt])"
    unfolding stored_vlan_entry by (metis (no_types, lifting) dval.inject(4) fun_upd_same list.inject not_Cons_self2 option.inject)
  ultimately show ?thesis by (simp add: vlan_connected_def)
qed


text \<open>
  A deletion is taken for the end of the connection. When any leaf of an interface is deleted,
  the handler removes the VLAN and its memberships, also when the new configuration still holds the
  connection.
\<close>

lemma HandleInterfaceDiff_deletes_vlan:
  assumes R: "redis_reliable R view"
    and old: "interface_connection oldConfig name = Some \<lparr>omc_Id = Some vid, omc_OpticalModule = Some m\<rparr>"
    and new: "interface_connection newConfig name = interface_connection oldConfig name"
    and opt: "OptEthernetName (Some m) = Inr opt" "opt \<noteq> name"
    and tasks: "\<exists>t \<in> set tasks. dt_Type t = DiffDeleted"
    and before: "vlan_connected (view s) vid name opt" "hash_ok (view s CONFIG_DB (cfg_hash VLAN_TABLE (vlan_of_id vid)))"
    and run: "HandleInterfaceDiff R newConfig oldConfig name tasks s = (Inr (), t)"
  shows "cfg_entry (view t) VLAN_TABLE (vlan_of_id vid) = Map.empty \<and>
    cfg_entry (view t) VLAN_MEMBER_TABLE (vlan_member_key (vlan_of_id vid) name) = Map.empty \<and>
    cfg_entry (view t) VLAN_MEMBER_TABLE (vlan_member_key (vlan_of_id vid) opt) = Map.empty"
proof -
  let ?v = "vlan_of_id vid"
  have fl: "delOld (scan_tasks tasks \<lparr>modEther = False, modOpt = False, delOld = False\<rparr>)"
    by (rule scan_tasks_deleted [OF tasks])
  have pre: "HasPrefix name ''Ethernet''"
    by (rule ccontr) (use run in \<open>simp add: HandleInterfaceDiff_def pfail_def\<close>)
  obtain s1 ov s2 where s1: "redis_ping R CONFIG_DB s = (Inr (), s1)"
      and go: "GetEntry R CONFIG_DB VLAN_TABLE [?v] s1 = (Inr ov, s2)"
      and del: "delete_old_vlan R CONFIG_DB \<lparr>oldVlanName = ?v, oldVlan = ov, oldOptName = opt\<rparr> s2 = (Inr (), t)"
    using run pre fl by (auto simp: HandleInterfaceDiff_def Let_def new get_old_vlan_def old NewSONiCDBClient_def
        name_or_empty_def opt(1) prog_Inr)
  have v1: "view s1 = view s" using redis_server.ping_view [OF redis_reliable.axioms(1) [OF R] s1] .
  have "gget ov ''members'' = Some (VStrings [name, opt])"
    using redis_reliable.read_vlan(3) [OF R go] before v1 by (simp add: vlan_connected_def stored_vlan_entry)
  then obtain s3 s4 where 3: "ModEntry R CONFIG_DB VLAN_TABLE ?v None s2 = (Inr (), s3)"
    and 4: "ModEntry R CONFIG_DB VLAN_MEMBER_TABLE (vlan_member_key ?v name) None s3 = (Inr (), s4)"
    and 5: "ModEntry R CONFIG_DB VLAN_MEMBER_TABLE (vlan_member_key ?v opt) None s4 = (Inr (), t)"
    using del by (auto simp: delete_old_vlan_def as_strings_def prog_Inr)
  note drop = redis_reliable.drop_entry [OF R]
  show ?thesis using drop [OF 3] drop [OF 4] drop [OF 5] opt(2) by (simp add: cfg_entry_simps)
qed

subsection \<open>Concrete runs\<close>

lemma mem_hash_update [simp]:
  "mem_hash (AList.update (db, h) m s) db' h' = (if db' = db \<and> h' = h then m else mem_hash s db' h')"
  by (auto simp: mem_hash_def update_conv')

lemma mem_GetEntry:
  "GetEntry mem_redis db tab [k] s = (decode_fields (dedup (mem_hash s db (entry_hash db tab k))) [], s)"
  by (simp add: GetEntry_def mem_redis_def prog_simps split: sum.split)

lemma mem_ModEntry_None: "ModEntry mem_redis db tab k None s = (Inr (), AList.update (db, entry_hash db tab k) [] s)"
  by (simp add: ModEntry_None mem_redis_def)

lemma mem_SetEntry_fresh:
  assumes "entry_ok e" "mem_hash s db (entry_hash db tab k) = []"
  shows "SetEntry mem_redis db tab k (Some e) s =
    (Inr (), AList.update (db, entry_hash db tab k) (put_all (encode_entry e) []) s)"
  using assms by (simp add: SetEntry_def mem_GetEntry mem_ModEntry_ok prog_simps)

definition sample_connection :: "32 word \<Rightarrow> string \<Rightarrow> OpticalModuleConnection" where
  "sample_connection vid ch = \<lparr>omc_Id = Some vid, omc_OpticalModule = Some \<lparr>com_Channel = Some ch, com_Name = Some (opt_name 3)\<rparr>\<rparr>"

definition sample_config :: "OpticalModuleConnection option \<Rightarrow> PacketTransponder" where
  "sample_config cn = zero_PacketTransponder\<lparr>Interface := [(''Ethernet1'', zero_Interface\<lparr>if_OpticalModuleConnection := cn\<rparr>)]\<rparr>"

definition sample_task :: "DiffType \<Rightarrow> string list \<Rightarrow> DiffTask" where
  "sample_task ty path = \<lparr>dt_Type = ty, dt_Path = map (\<lambda>n. \<lparr>pe_Name = n, pe_Key = []\<rparr>) path, dt_Value = Some (UintVal 100)\<rparr>"

lemma sample_connection_of [simp]: "interface_connection (sample_config cn) ''Ethernet1'' = cn"
  by (simp add: interface_connection_def sample_config_def)

lemma sample_task_simps [simp]:
  "dt_Type (sample_task ty path) = ty"
  "task_path (sample_task ty [''optical-module-connection'', ''config'', ''id'']) = ''optical-module-connection.id''"
  "task_path (sample_task ty [''optical-module-connection'', ''optical-module'', ''config'', ''channel'']) =
     ''optical-module-connection.optical-module.channel''"
  by (simp_all add: sample_task_def PathElems_String_def)

lemma sample_ports:
  "OptEthernetName (Some \<lparr>com_Channel = Some ''A'', com_Name = Some (opt_name 3)\<rparr>) = Inr (eth_name 21)"
  "OptEthernetName (Some \<lparr>com_Channel = Some ''B'', com_Name = Some (opt_name 3)\<rparr>) = Inr (eth_name 22)"
  by (simp_all add: OptEthernetName_eq line_port_def)

lemma sample_port_names: "eth_name 21 \<noteq> ''Ethernet1''" "eth_name 22 \<noteq> ''Ethernet1''" "eth_name i \<noteq> []"
  using eth_name_inj [of 21 1] eth_name_inj [of 22 1] by (simp_all add: eth_name_def itoa_def itoa_nat.simps digit_char_def)

lemma sample_vlan_entry: "entry_ok [(''vlanid'', VUint n), (''members'', VStrings [''Ethernet1'', eth_name i])]"
  "entry_ok [(''vlanid'', VUint n), (''members'', VStrings [''Ethernet1''])]"
  by (simp_all add: entry_ok_def gomap_ok_def field_ok_def)

lemma HandleInterfaceDiff_connects_witness:
  "vlan_connected (mem_view (snd (HandleInterfaceDiff mem_redis (sample_config (Some (sample_connection 100 ''A''))) (sample_config None)
     ''Ethernet1'' [sample_task DiffAdded [''optical-module-connection'', ''config'', ''id'']] []))) 100 ''Ethernet1'' (eth_name 21)"
proof (rule HandleInterfaceDiff_connects [OF mem.redis_reliable_axioms, where m = "\<lparr>com_Channel = Some ''A'', com_Name = Some (opt_name 3)\<rparr>"])
  let ?run = "HandleInterfaceDiff mem_redis (sample_config (Some (sample_connection 100 ''A''))) (sample_config None)
     ''Ethernet1'' [sample_task DiffAdded [''optical-module-connection'', ''config'', ''id'']] []"
  have "fst ?run = Inr ()"
    by (simp add: HandleInterfaceDiff_def HasPrefix_def mem_client get_old_vlan_def prog_simps Let_def apply_connection_def
      sample_connection_def no_old_vlan_def mem_GetEntry mem_hash_def sample_ports name_or_empty_def sample_port_names
      attach_ether_def attach_opt_def mem_SetEntry_fresh vlan_entries_ok shrink_old_vlan_def
      mem_ModEntry_ok sample_vlan_entry)
  then show "?run = (Inr (), snd ?run)" by (metis prod.collapse)
qed (simp_all add: sample_connection_def sample_ports sample_port_names no_commas_def)


text \<open>The database of a connected interface.\<close>

definition sample_vlan_db :: "32 word \<Rightarrow> mem_db" where
  "sample_vlan_db vid =
     [((CONFIG_DB, cfg_hash VLAN_TABLE (vlan_of_id vid)), encode_entry (vlan_entry vid [''Ethernet1'', eth_name 21])),
      ((CONFIG_DB, cfg_hash VLAN_MEMBER_TABLE (vlan_member_key (vlan_of_id vid) ''Ethernet1'')),
        encode_entry (vlan_member_entry ''untagged'')),
      ((CONFIG_DB, cfg_hash VLAN_MEMBER_TABLE (vlan_member_key (vlan_of_id vid) (eth_name 21))),
        encode_entry (vlan_member_entry ''tagged''))]"

lemma sample_no_commas: "no_commas [''Ethernet1'']" "no_commas [''Ethernet1'', eth_name i]" "no_commas [''Ethernet1'', eth_name i, eth_name j]"
  by (simp_all add: no_commas_def)

lemma sample_vlan_db_connected: "vlan_connected (mem_view (sample_vlan_db vid)) vid ''Ethernet1'' (eth_name 21)"
  using decode_encode [OF vlan_entries_ok(2) [OF sample_no_commas(2)], of vid 21] decode_encode [OF vlan_entries_ok(1)]
  by (simp add: vlan_connected_def cfg_entry_def mem_view_def mem_hash_def sample_vlan_db_def sample_port_names)

lemma sample_vlan_db_ok: "hash_ok (mem_view (sample_vlan_db vid) CONFIG_DB (cfg_hash VLAN_TABLE (vlan_of_id vid)))"
  using hash_ok_encode [OF vlan_entries_ok(2) [OF sample_no_commas(2)], of vid 21]
  by (simp add: mem_view_def mem_hash_def sample_vlan_db_def)

lemma sample_vlan_db_get:
  "GetEntry mem_redis CONFIG_DB VLAN_TABLE [vlan_of_id vid] (sample_vlan_db vid) =
     (Inr [(''vlanid'', VString (itoa_nat (unat vid))), (''members'', VStrings [''Ethernet1'', eth_name 21])], sample_vlan_db vid)"
  "w \<noteq> vid \<Longrightarrow> GetEntry mem_redis CONFIG_DB VLAN_TABLE [vlan_of_id w] (sample_vlan_db vid) = (Inr [], sample_vlan_db vid)"
proof -
  have "split_char (CHR '','') (''Ethernet1,'' @ eth_name 21) = [''Ethernet1'', eth_name 21]"
    using split_char_append [of "CHR '',''" "''Ethernet1''" "eth_name 21"] split_char_none [OF eth_name_no_comma, of 21] by simp
  then show "GetEntry mem_redis CONFIG_DB VLAN_TABLE [vlan_of_id vid] (sample_vlan_db vid) =
     (Inr [(''vlanid'', VString (itoa_nat (unat vid))), (''members'', VStrings [''Ethernet1'', eth_name 21])], sample_vlan_db vid)"
    by (simp add: mem_GetEntry cfg_hash_def [symmetric] mem_hash_def sample_vlan_db_def encode_entry_def vlan_entry_def
        field_name_def wire_text_def)
  show "w \<noteq> vid \<Longrightarrow> GetEntry mem_redis CONFIG_DB VLAN_TABLE [vlan_of_id w] (sample_vlan_db vid) = (Inr [], sample_vlan_db vid)"
    by (simp add: mem_GetEntry cfg_hash_def [symmetric] mem_hash_def sample_vlan_db_def)
qed

lemma sample_vlan_db_mem:
  "mem_hash (sample_vlan_db vid) CONFIG_DB (cfg_hash VLAN_MEMBER_TABLE (vlan_member_key (vlan_of_id vid) (eth_name 22))) = []"
  "w \<noteq> vid \<Longrightarrow> mem_hash (sample_vlan_db vid) CONFIG_DB (cfg_hash VLAN_MEMBER_TABLE (vlan_member_key (vlan_of_id w) n)) = []"
  by (simp_all add: mem_hash_def sample_vlan_db_def sample_port_names sample_port_names [symmetric])

lemma sample_vlan_db_free:
  "w \<noteq> vid \<Longrightarrow> mem_view (sample_vlan_db vid) CONFIG_DB (cfg_hash VLAN_TABLE (vlan_of_id w)) = Map.empty"
  "w \<noteq> vid \<Longrightarrow> mem_view (sample_vlan_db vid) CONFIG_DB (cfg_hash VLAN_MEMBER_TABLE (vlan_member_key (vlan_of_id w) n)) = Map.empty"
  "mem_view (sample_vlan_db vid) CONFIG_DB (cfg_hash VLAN_MEMBER_TABLE (vlan_member_key (vlan_of_id vid) (eth_name 22))) = Map.empty"
  by (simp_all add: mem_view_def mem_hash_def sample_vlan_db_def sample_port_names sample_port_names [symmetric])

lemma HandleInterfaceDiff_deletes_vlan_witness:
  "cfg_entry (mem_view (snd (HandleInterfaceDiff mem_redis (sample_config (Some (sample_connection 100 ''A'')))
     (sample_config (Some (sample_connection 100 ''A''))) ''Ethernet1'' [sample_task DiffDeleted [''description'']] (sample_vlan_db 100))))
     VLAN_TABLE (vlan_of_id 100) = Map.empty"
proof -
  let ?run = "HandleInterfaceDiff mem_redis (sample_config (Some (sample_connection 100 ''A'')))
     (sample_config (Some (sample_connection 100 ''A''))) ''Ethernet1'' [sample_task DiffDeleted [''description'']] (sample_vlan_db 100)"
  have "fst ?run = Inr ()"
    by (simp add: HandleInterfaceDiff_def HasPrefix_def mem_client get_old_vlan_def prog_simps Let_def
      sample_connection_def sample_vlan_db_get sample_ports name_or_empty_def delete_old_vlan_def as_strings_def mem_ModEntry_None)
  then have run: "?run = (Inr (), snd ?run)" by (metis prod.collapse)
  show ?thesis
    using HandleInterfaceDiff_deletes_vlan [OF mem.redis_reliable_axioms _ _ sample_ports(1) sample_port_names(1) _
        sample_vlan_db_connected sample_vlan_db_ok run]
    by (simp add: sample_connection_def)
qed

lemma HandleInterfaceDiff_switches_witness:
  "vlan_connected (mem_view (snd (HandleInterfaceDiff mem_redis (sample_config (Some (sample_connection 100 ''B'')))
     (sample_config (Some (sample_connection 100 ''A''))) ''Ethernet1''
     [sample_task DiffModified [''optical-module-connection'', ''optical-module'', ''config'', ''channel'']] (sample_vlan_db 100))))
     100 ''Ethernet1'' (eth_name 22)"
proof -
  let ?run = "HandleInterfaceDiff mem_redis (sample_config (Some (sample_connection 100 ''B'')))
     (sample_config (Some (sample_connection 100 ''A''))) ''Ethernet1''
     [sample_task DiffModified [''optical-module-connection'', ''optical-module'', ''config'', ''channel'']] (sample_vlan_db 100)"
  have ne: "eth_name 21 \<noteq> eth_name 22" by simp
  have "fst ?run = Inr ()"
    by (simp add: HandleInterfaceDiff_def HasPrefix_def mem_client get_old_vlan_def prog_simps Let_def apply_connection_def
      sample_connection_def sample_vlan_db_get sample_ports name_or_empty_def as_strings_def mem_ModEntry_None sample_port_names
      attach_opt_def shrink_old_vlan_def old_members_left_def mem_ModEntry_ok vlan_entries_ok mem_SetEntry_fresh
      cfg_hash_def [symmetric] no_commas_def sample_vlan_db_mem)
  then have run: "?run = (Inr (), snd ?run)" by (metis prod.collapse)
  have "vlan_connected (mem_view (snd ?run)) 100 ''Ethernet1'' (eth_name 22) \<and>
      cfg_entry (mem_view (snd ?run)) VLAN_MEMBER_TABLE (vlan_member_key (vlan_of_id 100) (eth_name 21)) = Map.empty"
    by (rule HandleInterfaceDiff_switches [OF mem.redis_total_axioms _ _ sample_ports(1) sample_ports(2) _ sample_no_commas(3)
        sample_port_names(3) sample_port_names(3) _ _ _ sample_vlan_db_connected sample_vlan_db_ok sample_vlan_db_free(3) run])
      (simp_all add: sample_connection_def sample_port_names sample_port_names [symmetric])
  then show ?thesis by (rule conjunct1)
qed


lemma HandleInterfaceDiff_renumber_loses_port_witness:
  "\<not> vlan_connected (mem_view (snd (HandleInterfaceDiff mem_redis (sample_config (Some (sample_connection 101 ''A'')))
     (sample_config (Some (sample_connection 100 ''A''))) ''Ethernet1''
     [sample_task DiffModified [''optical-module-connection'', ''config'', ''id'']] (sample_vlan_db 100))))
     101 ''Ethernet1'' (eth_name 21)"
proof -
  let ?run = "HandleInterfaceDiff mem_redis (sample_config (Some (sample_connection 101 ''A'')))
     (sample_config (Some (sample_connection 100 ''A''))) ''Ethernet1''
     [sample_task DiffModified [''optical-module-connection'', ''config'', ''id'']] (sample_vlan_db 100)"
  have "fst ?run = Inr ()"
    by (simp add: HandleInterfaceDiff_def HasPrefix_def mem_client get_old_vlan_def prog_simps Let_def apply_connection_def
      sample_connection_def sample_vlan_db_get sample_ports name_or_empty_def as_strings_def mem_ModEntry_None sample_port_names
      attach_ether_def attach_opt_def shrink_old_vlan_def old_members_left_def mem_ModEntry_ok vlan_entries_ok mem_SetEntry_fresh
      cfg_hash_def [symmetric] no_commas_def sample_vlan_db_mem sample_vlan_entry sample_port_names [symmetric])
  then have run: "?run = (Inr (), snd ?run)" by (metis prod.collapse)
  have "cfg_entry (mem_view (snd ?run)) VLAN_TABLE (vlan_of_id 101) = stored_view (vlan_entry 101 [''Ethernet1'']) \<and>
    cfg_entry (mem_view (snd ?run)) VLAN_MEMBER_TABLE (vlan_member_key (vlan_of_id 101) (eth_name 21)) =
      stored_view (vlan_member_entry ''tagged'') \<and>
    \<not> vlan_connected (mem_view (snd ?run)) 101 ''Ethernet1'' (eth_name 21)"
    by (rule HandleInterfaceDiff_renumber_loses_port [OF mem.redis_reliable_axioms _ _ _ sample_ports(1) sample_port_names(1)
        sample_no_commas(2) sample_port_names(3) _ _ _ sample_vlan_db_connected sample_vlan_db_ok sample_vlan_db_free(1) _ run])
      (simp_all add: sample_connection_def sample_vlan_db_free)
  then show ?thesis by blast
qed

end
