(* ===== verification/SonicConfig.thy ===== *)
theory SonicConfig
  imports Iface
begin

section \<open>The SONiC configuration (cmd/oopt/sonic.go)\<close>

text \<open>
  \<open>NewSONiCConfigFromModel\<close> computes the tables of the SONiC configuration database from the
  model: a port with its lanes for every interface and line port, and a VLAN per connection.
  \<open>WriteToConfigDB\<close> writes them. The maps of the source are association lists in iteration
  order; the loop over the interfaces is \<open>for_res\<close> over the model's list.
\<close>

subsection \<open>Tables\<close>

definition DEVICE_METADATA_TABLE :: string where "DEVICE_METADATA_TABLE = ''DEVICE_METADATA''"

record DeviceMetadata =
  dm_BGPAsn :: int
  dm_Hostname :: string
  dm_Type :: string
  dm_HWSKU :: string
  dm_Mac :: string

definition DeviceMetadata_ToMap :: "DeviceMetadata \<Rightarrow> dval gomap" where
  "DeviceMetadata_ToMap d =
     [(''bgp_asn'', VInt (dm_BGPAsn d)), (''hostname'', VString (dm_Hostname d)), (''type'', VString (dm_Type d)),
      (''hwsku'', VString (dm_HWSKU d)), (''mac'', VString (dm_Mac d))]"

definition deviceMetadata :: "DeviceMetadata gomap" where
  "deviceMetadata =
     [(''localhost'', \<lparr>dm_BGPAsn = 65100, dm_Hostname = ''cassini'', dm_Type = ''packet-transponder'',
         dm_HWSKU = ''AS7716-24XC'', dm_Mac = ''a8:2b:b5:b5:51:d5''\<rparr>)]"

record SonicPort =
  sp_Lanes :: int

definition Port_ToMap :: "SonicPort \<Rightarrow> dval gomap" where
  "Port_ToMap p = [(''lanes'', VInt (sp_Lanes p))]"

record Vlan =
  vl_Members :: "string list"
  vl_VID :: int

definition Vlan_ToMap :: "Vlan \<Rightarrow> dval gomap" where
  "Vlan_ToMap v = [(''members'', VStrings (vl_Members v)), (''vlanid'', VInt (vl_VID v))]"

record VlanMember =
  vm_Mode :: string

definition VlanMember_ToMap :: "VlanMember \<Rightarrow> dval gomap" where
  "VlanMember_ToMap v = [(''tagging_mode'', VString (vm_Mode v))]"

record SONiCConfig =
  sc_DeviceMetadata :: "DeviceMetadata gomap"
  sc_Ports :: "SonicPort gomap"
  sc_Vlans :: "Vlan gomap"
  sc_VlanMembers :: "VlanMember gomap"

subsection \<open>From the model\<close>

definition invalid_interface :: "string \<Rightarrow> err" where
  "invalid_interface k = Errorf ''invalid interface name: %s'' [k]"

text \<open>\<open>Ethernet<main>\<close> or \<open>Ethernet<main>_<sub>\<close>.\<close>

definition interface_index :: "string \<Rightarrow> (int \<times> int) res" where
  "interface_index k =
     (if \<not> HasPrefix k ''Ethernet'' then Inl (invalid_interface k)
      else res_bind (slice_from k 8) (\<lambda>rest.
        let elems = Split rest ''_'' in
        if length elems = 0 \<or> 2 < length elems then Inl (invalid_interface k)
        else res_bind (Atoi (elems ! 0)) (\<lambda>mainIndex.
             res_bind (if length elems = 2 then Atoi (elems ! 1) else Inr 0) (\<lambda>subIndex.
               Inr (mainIndex, subIndex)))))"

definition port_lanes :: "int \<Rightarrow> int \<Rightarrow> int" where
  "port_lanes mainIndex subIndex =
     (if subIndex = 0 then mainIndex else wrap64 (32 + 4 * (mainIndex - 1) + subIndex))"

definition add_vlan_member :: "string \<Rightarrow> string \<Rightarrow> string \<Rightarrow> SONiCConfig \<Rightarrow> SONiCConfig" where
  "add_vlan_member vlan m mode c =
     c\<lparr>sc_VlanMembers := gput (vlan_member_key vlan m) \<lparr>vm_Mode = mode\<rparr> (sc_VlanMembers c)\<rparr>"

definition add_connection :: "string \<Rightarrow> OpticalModuleConnection \<Rightarrow> SONiCConfig \<Rightarrow> SONiCConfig res" where
  "add_connection k cn c =
     res_bind (deref (omc_Id cn)) (\<lambda>vid.
       if vid = 0 then Inr c
       else
         let name = vlan_of_id vid;
             vlan = (case gget (sc_Vlans c) name of Some v \<Rightarrow> v
                     | None \<Rightarrow> \<lparr>vl_Members = [], vl_VID = uint vid\<rparr>);
             vlan = vlan\<lparr>vl_Members := vl_Members vlan @ [k]\<rparr>;
             c = add_vlan_member name k ''untagged'' c
         in case omc_OpticalModule cn of
              None \<Rightarrow> Inr (c\<lparr>sc_Vlans := gput name vlan (sc_Vlans c)\<rparr>)
            | Some m \<Rightarrow>
                res_bind (OptEthernetName (Some m)) (\<lambda>opt.
                  if opt \<in> set (vl_Members vlan) then Inr (c\<lparr>sc_Vlans := gput name vlan (sc_Vlans c)\<rparr>)
                  else
                    let c = add_vlan_member name opt ''tagged'' c
                    in Inr (c\<lparr>sc_Vlans := gput name (vlan\<lparr>vl_Members := vl_Members vlan @ [opt]\<rparr>) (sc_Vlans c)\<rparr>)))"

definition add_interface :: "string \<times> PacketTransponder_Interface \<Rightarrow> SONiCConfig \<Rightarrow> SONiCConfig res" where
  "add_interface kv c =
     (let k = fst kv; v = snd kv in
      res_bind (interface_index k) (\<lambda>(mainIndex, subIndex).
        let c = c\<lparr>sc_Ports := gput k \<lparr>sp_Lanes = port_lanes mainIndex subIndex\<rparr> (sc_Ports c)\<rparr>
        in case if_OpticalModuleConnection v of None \<Rightarrow> Inr c | Some cn \<Rightarrow> add_connection k cn c))"

definition add_line_port :: "nat \<Rightarrow> SONiCConfig \<Rightarrow> SONiCConfig res" where
  "add_line_port i c =
     (let name = eth_name (int i + 1) in
      case gget (sc_Ports c) name of
        Some _ \<Rightarrow> Inl (Errorf ''port %s already exists'' [name])
      | None \<Rightarrow> Inr (c\<lparr>sc_Ports := gput name \<lparr>sp_Lanes = int i + 1\<rparr> (sc_Ports c)\<rparr>))"

definition NewSONiCConfigFromModel :: "PacketTransponder \<Rightarrow> SONiCConfig res" where
  "NewSONiCConfigFromModel m =
     res_bind (for_res add_interface (Interface m)
       \<lparr>sc_DeviceMetadata = deviceMetadata, sc_Ports = [], sc_Vlans = [], sc_VlanMembers = []\<rparr>)
       (for_res add_line_port [16..<32])"

subsection \<open>Into the database\<close>

text \<open>The result of the \<open>SetEntry\<close> of a port, a VLAN or a membership is not assigned.\<close>

definition set_ignoring :: "'s redis_ops \<Rightarrow> int \<Rightarrow> string \<Rightarrow> string \<Rightarrow> dval gomap \<Rightarrow> ('s, unit) prog" where
  "set_ignoring R c table k e = pbind (ptry (SetEntry R c table k (Some e))) (\<lambda>_. pret ())"

definition WriteToConfigDB :: "'s redis_ops \<Rightarrow> SONiCConfig \<Rightarrow> ('s, unit) prog" where
  "WriteToConfigDB R cfg =
     pbind (NewSONiCDBClient R CONFIG_DB) (\<lambda>c.
     pseq (pfor (\<lambda>(k, v). SetEntry R c DEVICE_METADATA_TABLE k (Some (DeviceMetadata_ToMap v))) (sc_DeviceMetadata cfg))
     (pseq (pfor (\<lambda>(k, v). set_ignoring R c PORT_TABLE k (Port_ToMap v)) (sc_Ports cfg))
     (pseq (pfor (\<lambda>(k, v). set_ignoring R c VLAN_TABLE k (Vlan_ToMap v)) (sc_Vlans cfg))
           (pfor (\<lambda>(k, v). set_ignoring R c VLAN_MEMBER_TABLE k (VlanMember_ToMap v)) (sc_VlanMembers cfg)))))"

subsection \<open>The interface loop\<close>

lemma for_res_split:
  "for_res f (xs @ y # ys) s = Inr t \<longleftrightarrow> (\<exists>u v. for_res f xs s = Inr u \<and> f y u = Inr v \<and> for_res f ys v = Inr t)"
  by (auto simp: for_res_append res_bind_Inr)

text \<open>The id of a connection that leads to a VLAN.\<close>

definition vlan_id :: "PacketTransponder_Interface \<Rightarrow> 32 word option" where
  "vlan_id v =
     (case if_OpticalModuleConnection v of None \<Rightarrow> None
      | Some cn \<Rightarrow> (case omc_Id cn of None \<Rightarrow> None | Some vid \<Rightarrow> if vid = 0 then None else Some vid))"

text \<open>The interface and its line port, in the order they join a fresh VLAN.\<close>

definition vlan_ports :: "string \<Rightarrow> PacketTransponder_Interface \<Rightarrow> (string \<times> string) list" where
  "vlan_ports k v =
     (k, ''untagged'') #
     (case if_OpticalModuleConnection v of None \<Rightarrow> []
      | Some cn \<Rightarrow> (case omc_OpticalModule cn of None \<Rightarrow> []
        | Some m \<Rightarrow> (case OptEthernetName (Some m) of Inl e \<Rightarrow> [] | Inr opt \<Rightarrow> if opt = k then [] else [(opt, ''tagged'')])))"

definition fresh_vlan :: "SONiCConfig \<Rightarrow> 32 word \<Rightarrow> bool" where
  "fresh_vlan c vid \<longleftrightarrow> gget (sc_Vlans c) (vlan_of_id vid) = None \<and>
     (\<forall>m. gget (sc_VlanMembers c) (vlan_member_key (vlan_of_id vid) m) = None)"

definition vlan_holds :: "SONiCConfig \<Rightarrow> 32 word \<Rightarrow> (string \<times> string) list \<Rightarrow> bool" where
  "vlan_holds c vid ports \<longleftrightarrow>
     gget (sc_Vlans c) (vlan_of_id vid) = Some \<lparr>vl_Members = map fst ports, vl_VID = uint vid\<rparr> \<and>
     (\<forall>m. gget (sc_VlanMembers c) (vlan_member_key (vlan_of_id vid) m) =
        map_option (\<lambda>mode. \<lparr>vm_Mode = mode\<rparr>) (map_of ports m))"

definition same_vlan :: "SONiCConfig \<Rightarrow> SONiCConfig \<Rightarrow> 32 word \<Rightarrow> bool" where
  "same_vlan c c' vid \<longleftrightarrow> gget (sc_Vlans c') (vlan_of_id vid) = gget (sc_Vlans c) (vlan_of_id vid) \<and>
     (\<forall>m. gget (sc_VlanMembers c') (vlan_member_key (vlan_of_id vid) m) =
        gget (sc_VlanMembers c) (vlan_member_key (vlan_of_id vid) m))"

lemma add_interface_parts:
  assumes "add_interface (k, v) c = Inr c'"
  shows "\<exists>i j. interface_index k = Inr (i, j) \<and> sc_Ports c' = gput k \<lparr>sp_Lanes = port_lanes i j\<rparr> (sc_Ports c)"
  using assms
  by (auto simp: add_interface_def res_bind_Inr Let_def add_connection_def add_vlan_member_def split: option.splits if_splits)

lemma add_interface_other:
  assumes "add_interface (k, v) c = Inr c'" "vlan_id v \<noteq> Some vid"
  shows "same_vlan c c' vid"
  using assms
  by (auto simp: add_interface_def res_bind_Inr Let_def add_connection_def add_vlan_member_def same_vlan_def vlan_id_def
      split: option.splits if_splits)

lemma add_interface_fresh:
  assumes run: "add_interface (k, v) c = Inr c'" and id: "vlan_id v = Some vid" and fresh: "fresh_vlan c vid"
  shows "vlan_holds c' vid (vlan_ports k v)"
proof -
  from id obtain cn where cn: "if_OpticalModuleConnection v = Some cn" "omc_Id cn = Some vid" "vid \<noteq> 0"
    by (auto simp: vlan_id_def split: option.splits if_splits)
  define c1 where "c1 i j = c\<lparr>sc_Ports := gput k \<lparr>sp_Lanes = port_lanes i j\<rparr> (sc_Ports c)\<rparr>" for i j
  from run obtain i j where conn: "add_connection k cn (c1 i j) = Inr c'"
    by (auto simp: add_interface_def res_bind_Inr cn c1_def)
  have f1: "gget (sc_Vlans (c1 i j)) (vlan_of_id vid) = None"
      "\<And>m. gget (sc_VlanMembers (c1 i j)) (vlan_member_key (vlan_of_id vid) m) = None"
    using fresh by (simp_all add: fresh_vlan_def c1_def)
  show ?thesis
  proof (cases "omc_OpticalModule cn")
    case None
    with conn cn f1 show ?thesis
      by (auto simp: add_connection_def add_vlan_member_def Let_def vlan_holds_def vlan_ports_def)
  next
    case (Some m)
    with conn cn obtain opt where opt: "OptEthernetName (Some m) = Inr opt"
      by (auto simp: add_connection_def Let_def res_bind_Inr)
    show ?thesis
    proof (cases "opt = k")
      case True
      with conn cn f1 Some opt show ?thesis
        by (auto simp: add_connection_def add_vlan_member_def Let_def vlan_holds_def vlan_ports_def)
    next
      case False
      with conn cn f1 Some opt show ?thesis
        by (auto simp: add_connection_def add_vlan_member_def Let_def vlan_holds_def vlan_ports_def)
    qed
  qed
qed

lemma for_interfaces_other:
  assumes "for_res add_interface ms c = Inr c'" "\<forall>(k, v) \<in> set ms. vlan_id v \<noteq> Some vid"
  shows "same_vlan c c' vid"
  using assms
proof (induction ms arbitrary: c)
  case Nil
  then show ?case by (simp add: same_vlan_def)
next
  case (Cons x ms)
  obtain k v where x: "x = (k, v)" by (cases x)
  from Cons.prems x obtain d where d: "add_interface (k, v) c = Inr d" "for_res add_interface ms d = Inr c'"
    by (auto simp: res_bind_Inr)
  have "same_vlan c d vid" using add_interface_other [OF d(1)] Cons.prems(2) x by simp
  moreover have "same_vlan d c' vid" using Cons.IH [OF d(2)] Cons.prems(2) by simp
  ultimately show ?case by (simp add: same_vlan_def)
qed

lemma line_ports_keep:
  assumes "for_res add_line_port is c = Inr c'"
  shows "sc_Vlans c' = sc_Vlans c" "sc_VlanMembers c' = sc_VlanMembers c" "sc_DeviceMetadata c' = sc_DeviceMetadata c"
  using assms
  by (induction "is" arbitrary: c) (auto simp: res_bind_Inr add_line_port_def Let_def split: option.splits)

definition ids_unique :: "PacketTransponder_Interface gomap \<Rightarrow> bool" where
  "ids_unique m \<longleftrightarrow> (\<forall>(k, v) \<in> set m. \<forall>(k', v') \<in> set m. vlan_id v \<noteq> None \<longrightarrow> vlan_id v = vlan_id v' \<longrightarrow> k = k')"

lemma config_vlans:
  assumes ok: "gomap_ok (Interface m)" "ids_unique (Interface m)"
    and run: "NewSONiCConfigFromModel m = Inr cfg"
    and i: "(k, v) \<in> set (Interface m)" "vlan_id v = Some vid"
  shows "vlan_holds cfg vid (vlan_ports k v)"
proof -
  let ?c0 = "\<lparr>sc_DeviceMetadata = deviceMetadata, sc_Ports = [], sc_Vlans = [], sc_VlanMembers = []\<rparr>"
  from run obtain c where c: "for_res add_interface (Interface m) ?c0 = Inr c"
      and l: "for_res add_line_port [16..<32] c = Inr cfg"
    by (auto simp: NewSONiCConfigFromModel_def res_bind_Inr)
  from i(1) obtain xs ys where split: "Interface m = xs @ (k, v) # ys" by (meson split_list)
  have other: "\<forall>(k', v') \<in> set xs \<union> set ys. vlan_id v' \<noteq> Some vid"
  proof (intro ballI, clarify)
    fix k' v' assume kv: "(k', v') \<in> set xs \<union> set ys" and id: "vlan_id v' = Some vid"
    have "vlan_id v = vlan_id v'" using i(2) id by simp
    moreover have "(k', v') \<in> set (Interface m)" using kv split by auto
    ultimately have "k = k'" using ok(2) i unfolding ids_unique_def by fastforce
    with kv split ok(1) show False by (auto simp: gomap_ok_def image_iff)
  qed
  from c split obtain c1 c2 where 1: "for_res add_interface xs ?c0 = Inr c1" and 2: "add_interface (k, v) c1 = Inr c2"
      and 3: "for_res add_interface ys c2 = Inr c" by (auto simp: for_res_split)
  have "same_vlan ?c0 c1 vid" using for_interfaces_other [OF 1] other by auto
  then have "fresh_vlan c1 vid" by (simp add: same_vlan_def fresh_vlan_def)
  from add_interface_fresh [OF 2 i(2) this] have "vlan_holds c2 vid (vlan_ports k v)" .
  moreover have "same_vlan c2 c vid" using for_interfaces_other [OF 3] other by auto
  ultimately show ?thesis using line_ports_keep [OF l] by (simp add: vlan_holds_def same_vlan_def)
qed

text \<open>
  C19: when no two connections share an id, the VLAN of a connection has exactly the interface
  (untagged) and its line port (tagged) as members, in the VLAN table and in the membership table
  alike, for every order in which the interfaces are visited.
\<close>

theorem NewSONiCConfigFromModel_vlans:
  assumes ok: "gomap_ok (Interface m)" "ids_unique (Interface m)"
    and run: "NewSONiCConfigFromModel m = Inr cfg"
    and i: "(k, v) \<in> set (Interface m)" "vlan_id v = Some vid"
  shows "vlan_holds cfg vid (vlan_ports k v)"
  by (rule config_vlans [OF ok run i])


subsection \<open>Lanes\<close>

lemma interface_index_main: "0 \<le> i \<Longrightarrow> i < 2 ^ 63 \<Longrightarrow> interface_index (eth_name i) = Inr (i, 0)"
proof -
  assume i: "0 \<le> i" "i < 2 ^ 63"
  have "slice_from (eth_name i) 8 = Inr (itoa i)" by (simp add: eth_name_def slice_from_def)
  moreover have "split_char (CHR ''_'') (itoa i) = [itoa i]" by (simp add: split_char_none)
  moreover have "Atoi (itoa i) = Inr i" using i by (intro Atoi_itoa) auto
  moreover have "HasPrefix (eth_name i) ''Ethernet''" by (simp add: eth_name_def HasPrefix_iff)
  ultimately show ?thesis by (simp add: interface_index_def)
qed

lemma interface_index_sub:
  "0 \<le> i \<Longrightarrow> i < 2 ^ 63 \<Longrightarrow> j < 2 ^ 63 \<Longrightarrow> interface_index (eth_sub_name i j) = Inr (i, int j)"
proof -
  assume i: "0 \<le> i" "i < 2 ^ 63" and j: "j < 2 ^ 63"
  have "slice_from (eth_sub_name i j) 8 = Inr (itoa i @ ''_'' @ itoa_nat j)" by (simp add: eth_sub_name_def slice_from_def)
  moreover have "split_char (CHR ''_'') (itoa i @ ''_'' @ itoa_nat j) = [itoa i, itoa_nat j]"
    by (simp add: split_char_append split_char_none)
  moreover have "Atoi (itoa i) = Inr i" "Atoi (itoa_nat j) = Inr (int j)"
    using i j by (auto intro: Atoi_itoa Atoi_itoa_nat)
  moreover have "HasPrefix (eth_sub_name i j) ''Ethernet''" by (simp add: eth_sub_name_def HasPrefix_iff)
  ultimately show ?thesis by (simp add: interface_index_def)
qed

text \<open>The names of the transponder's client interfaces: 16 ports, four breakout channels each.\<close>

definition client_name :: "string \<Rightarrow> bool" where
  "client_name k \<longleftrightarrow> (\<exists>i \<in> {1..16}. k = eth_name i \<or> (\<exists>j \<in> {1..4}. k = eth_sub_name i j))"

definition lanes_of :: "string \<Rightarrow> int" where
  "lanes_of k = (case interface_index k of Inl e \<Rightarrow> 0 | Inr (i, j) \<Rightarrow> port_lanes i j)"

lemma lanes_of_names:
  "i \<in> {1..32} \<Longrightarrow> lanes_of (eth_name i) = i"
  "i \<in> {1..16} \<Longrightarrow> j \<in> {1..4} \<Longrightarrow> lanes_of (eth_sub_name i j) = 32 + 4 * (i - 1) + int j"
  by (auto simp: lanes_of_def interface_index_main interface_index_sub port_lanes_def wrap64_id)

definition sonic_name :: "string \<Rightarrow> bool" where
  "sonic_name k \<longleftrightarrow> client_name k \<or> (\<exists>i \<in> {17..32}. k = eth_name i)"

lemma sonic_nameE:
  assumes "sonic_name k"
  obtains (main) i where "k = eth_name i" "i \<in> {1..32}"
  | (sub) i j where "k = eth_sub_name i j" "i \<in> {1..16}" "j \<in> {1..4}"
  using assms unfolding sonic_name_def client_name_def by force

lemma lanes_of_inj: "sonic_name k \<Longrightarrow> sonic_name k' \<Longrightarrow> lanes_of k = lanes_of k' \<Longrightarrow> k = k'"
  by (elim sonic_nameE) (auto simp: lanes_of_names, presburger+)

lemma lanes_of_range: "sonic_name k \<Longrightarrow> 1 \<le> lanes_of k \<and> lanes_of k \<le> 96"
  by (elim sonic_nameE) (auto simp: lanes_of_names)

lemma for_interfaces_ports:
  assumes "for_res add_interface ms c = Inr c'"
  shows "gget (sc_Ports c') k = (if k \<in> fst ` set ms then Some \<lparr>sp_Lanes = lanes_of k\<rparr> else gget (sc_Ports c) k)"
  using assms
proof (induction ms arbitrary: c)
  case (Cons x ms)
  obtain k0 v0 where x: "x = (k0, v0)" by (cases x)
  from Cons.prems x obtain d where d: "add_interface (k0, v0) c = Inr d" "for_res add_interface ms d = Inr c'"
    by (auto simp: res_bind_Inr)
  obtain i j where ij: "interface_index k0 = Inr (i, j)" "sc_Ports d = gput k0 \<lparr>sp_Lanes = port_lanes i j\<rparr> (sc_Ports c)"
    using add_interface_parts [OF d(1)] by blast
  then have "lanes_of k0 = port_lanes i j" by (simp add: lanes_of_def)
  then show ?case using Cons.IH [OF d(2)] ij(2) x by auto
qed simp

lemma line_ports_ports:
  assumes "for_res add_line_port is c = Inr c'" "\<forall>i \<in> set is. i < 32"
  shows "gget (sc_Ports c') k =
    (if \<exists>i \<in> set is. k = eth_name (int i + 1) then Some \<lparr>sp_Lanes = lanes_of k\<rparr> else gget (sc_Ports c) k)"
  using assms
proof (induction "is" arbitrary: c)
  case (Cons i "is")
  from Cons.prems obtain d where d: "add_line_port i c = Inr d" "for_res add_line_port is d = Inr c'"
    by (auto simp: res_bind_Inr)
  from d(1) have "sc_Ports d = gput (eth_name (int i + 1)) \<lparr>sp_Lanes = int i + 1\<rparr> (sc_Ports c)"
    by (auto simp: add_line_port_def Let_def split: option.splits)
  moreover have "lanes_of (eth_name (int i + 1)) = int i + 1" using Cons.prems(2) by (simp add: lanes_of_names)
  ultimately show ?case using Cons.IH [OF d(2)] Cons.prems(2) by auto
qed simp

lemma line_ports_free:
  assumes "for_res add_line_port is c = Inr c'" "i \<in> set is" "distinct is"
  shows "gget (sc_Ports c) (eth_name (int i + 1)) = None"
  using assms
proof (induction "is" arbitrary: c)
  case (Cons j "is")
  from Cons.prems obtain d where d: "add_line_port j c = Inr d" "for_res add_line_port is d = Inr c'"
    by (auto simp: res_bind_Inr)
  from d(1) have "sc_Ports d = gput (eth_name (int j + 1)) \<lparr>sp_Lanes = int j + 1\<rparr> (sc_Ports c)"
      "gget (sc_Ports c) (eth_name (int j + 1)) = None"
    by (auto simp: add_line_port_def Let_def split: option.splits)
  with Cons.IH [OF d(2)] Cons.prems show ?case by (cases "i = j") (auto split: if_splits)
qed simp

definition is_line_port :: "string \<Rightarrow> bool" where
  "is_line_port k \<longleftrightarrow> (\<exists>i \<in> {17..32}. k = eth_name i)"

lemma is_line_port_iff: "is_line_port k \<longleftrightarrow> (\<exists>i \<in> {16..<32}. k = eth_name (int i + 1))"
proof
  assume "is_line_port k"
  then obtain i where i: "17 \<le> i" "i \<le> 32" "k = eth_name i" by (auto simp: is_line_port_def)
  then have "nat (i - 1) \<in> {16..<32}" "k = eth_name (int (nat (i - 1)) + 1)" by auto
  then show "\<exists>i \<in> {16..<32}. k = eth_name (int i + 1)" by blast
qed (force simp: is_line_port_def)

lemma config_ports:
  assumes run: "NewSONiCConfigFromModel m = Inr cfg"
  shows "gget (sc_Ports cfg) k = (if is_line_port k \<or> k \<in> gkeys (Interface m) then Some \<lparr>sp_Lanes = lanes_of k\<rparr> else None)"
    and "\<forall>k \<in> gkeys (Interface m). \<not> is_line_port k"
proof -
  let ?c0 = "\<lparr>sc_DeviceMetadata = deviceMetadata, sc_Ports = [], sc_Vlans = [], sc_VlanMembers = []\<rparr>"
  from run obtain c where c: "for_res add_interface (Interface m) ?c0 = Inr c"
      and l: "for_res add_line_port [16..<32] c = Inr cfg"
    by (auto simp: NewSONiCConfigFromModel_def res_bind_Inr)
  have lt: "\<forall>i \<in> set [16..<32]. i < 32" unfolding set_upt by simp
  have P: "gget (sc_Ports cfg) k =
      (if is_line_port k \<or> k \<in> gkeys (Interface m) then Some \<lparr>sp_Lanes = lanes_of k\<rparr> else None)" for k
    unfolding line_ports_ports [OF l lt, unfolded set_upt] for_interfaces_ports [OF c] is_line_port_iff by simp
  then show "gget (sc_Ports cfg) k = (if is_line_port k \<or> k \<in> gkeys (Interface m) then Some \<lparr>sp_Lanes = lanes_of k\<rparr> else None)" .
  have free: "\<not> is_line_port k" if k: "k \<in> gkeys (Interface m)" for k
  proof
    assume "is_line_port k"
    then obtain i where i: "i \<in> {16..<32}" "k = eth_name (int i + 1)" unfolding is_line_port_iff by blast
    have "gget (sc_Ports c) k = None"
      unfolding i(2) by (rule line_ports_free [OF l]) (use i(1) in \<open>simp_all only: set_upt distinct_upt\<close>)
    with k show False unfolding for_interfaces_ports [OF c] by simp
  qed
  then show "\<forall>k \<in> gkeys (Interface m). \<not> is_line_port k" by blast
qed

text \<open>
  C20: the ports of the configuration are the interfaces of the model and the sixteen line ports, no
  interface takes the name of a line port, and on the transponder's names different ports
  have different lanes.
\<close>

theorem NewSONiCConfigFromModel_ports:
  assumes run: "NewSONiCConfigFromModel m = Inr cfg"
  shows "gkeys (sc_Ports cfg) = gkeys (Interface m) \<union> {k. is_line_port k} \<and>
    (\<forall>k \<in> gkeys (Interface m). \<not> is_line_port k) \<and>
    (\<forall>k p. gget (sc_Ports cfg) k = Some p \<longrightarrow> sp_Lanes p = lanes_of k) \<and>
    ((\<forall>k \<in> gkeys (Interface m). client_name k) \<longrightarrow>
      (\<forall>k p k' p'. gget (sc_Ports cfg) k = Some p \<longrightarrow> gget (sc_Ports cfg) k' = Some p' \<longrightarrow>
         sp_Lanes p = sp_Lanes p' \<longrightarrow> k = k') \<and>
      (\<forall>k p. gget (sc_Ports cfg) k = Some p \<longrightarrow> 1 \<le> sp_Lanes p \<and> sp_Lanes p \<le> 96))"
proof -
  note P = config_ports(1) [OF run] and free = config_ports(2) [OF run, rule_format]
  have keys: "gkeys (sc_Ports cfg) = gkeys (Interface m) \<union> {k. is_line_port k}"
    by (intro set_eqI) (simp add: gget_Some_key P)
  have lane: "sp_Lanes p = lanes_of k" if "gget (sc_Ports cfg) k = Some p" for k p
    using that unfolding P by (auto split: if_splits)
  have sonic: "sonic_name k" if "\<forall>k \<in> gkeys (Interface m). client_name k" "gget (sc_Ports cfg) k = Some p" for k p
    using that unfolding P sonic_name_def is_line_port_def by (auto split: if_splits)
  have inj: "k = k'" if "\<forall>k \<in> gkeys (Interface m). client_name k" "gget (sc_Ports cfg) k = Some p"
      "gget (sc_Ports cfg) k' = Some p'" "sp_Lanes p = sp_Lanes p'" for k p k' p'
    using lanes_of_inj [OF sonic [OF that(1,2)] sonic [OF that(1,3)]] lane [OF that(2)] lane [OF that(3)] that(4) by simp
  have rng: "1 \<le> sp_Lanes p \<and> sp_Lanes p \<le> 96" if "\<forall>k \<in> gkeys (Interface m). client_name k"
      "gget (sc_Ports cfg) k = Some p" for k p
    using lanes_of_range [OF sonic [OF that]] lane [OF that(2)] by simp
  show ?thesis
  proof (intro conjI allI ballI impI)
    show "gkeys (sc_Ports cfg) = gkeys (Interface m) \<union> {k. is_line_port k}" by (rule keys)
  qed (fact free lane inj rng conjunct1 [OF rng] conjunct2 [OF rng])+
qed


subsection \<open>Writing the configuration\<close>

lemma cfg_hash_tables [simp]:
  "cfg_hash VLAN_TABLE k \<noteq> cfg_hash PORT_TABLE k'" "cfg_hash VLAN_TABLE k \<noteq> cfg_hash DEVICE_METADATA_TABLE k'"
  "cfg_hash VLAN_MEMBER_TABLE k \<noteq> cfg_hash PORT_TABLE k'" "cfg_hash VLAN_MEMBER_TABLE k \<noteq> cfg_hash DEVICE_METADATA_TABLE k'"
  "cfg_hash PORT_TABLE k \<noteq> cfg_hash DEVICE_METADATA_TABLE k'" "cfg_hash PORT_TABLE k \<noteq> cfg_hash VLAN_TABLE k'"
  "cfg_hash PORT_TABLE k \<noteq> cfg_hash VLAN_MEMBER_TABLE k'" "cfg_hash DEVICE_METADATA_TABLE k \<noteq> cfg_hash PORT_TABLE k'"
  "cfg_hash DEVICE_METADATA_TABLE k \<noteq> cfg_hash VLAN_TABLE k'" "cfg_hash DEVICE_METADATA_TABLE k \<noteq> cfg_hash VLAN_MEMBER_TABLE k'"
  by (simp_all add: cfg_hash_def entry_hash_def VLAN_TABLE_def VLAN_MEMBER_TABLE_def PORT_TABLE_def DEVICE_METADATA_TABLE_def
      ToUpper_def upper_char_def tableNameSeparatorMap_def db_defs)

text \<open>Writing every entry of a map into a table whose hashes are free.\<close>

definition table_written ::
    "string \<Rightarrow> (string \<Rightarrow> dval gomap option) \<Rightarrow> (int \<Rightarrow> string \<Rightarrow> string \<rightharpoonup> string) \<Rightarrow> (int \<Rightarrow> string \<Rightarrow> string \<rightharpoonup> string) \<Rightarrow> bool" where
  "table_written tab f V W \<longleftrightarrow>
     (\<forall>k. f k = None \<longrightarrow> W CONFIG_DB (cfg_hash tab k) = V CONFIG_DB (cfg_hash tab k)) \<and>
     (\<forall>k e. f k = Some e \<longrightarrow> W CONFIG_DB (cfg_hash tab k) = gget (encode_entry e)) \<and>
     (\<forall>db h. (db, h) \<notin> {(CONFIG_DB, cfg_hash tab k) | k. True} \<longrightarrow> W db h = V db h)"

definition entry_written ::
    "string \<Rightarrow> string \<Rightarrow> dval gomap \<Rightarrow> (int \<Rightarrow> string \<Rightarrow> string \<rightharpoonup> string) \<Rightarrow> (int \<Rightarrow> string \<Rightarrow> string \<rightharpoonup> string) \<Rightarrow> bool" where
  "entry_written tab k e V W \<longleftrightarrow>
     W CONFIG_DB (cfg_hash tab k) = gget (encode_entry e) \<and>
     (\<forall>db h. (db, h) \<noteq> (CONFIG_DB, cfg_hash tab k) \<longrightarrow> W db h = V db h)"

context redis_total begin

lemma write_table:
  assumes step: "\<And>k v s. (k, v) \<in> set l \<Longrightarrow> entry_ok (f v) \<and>
      (view s CONFIG_DB (cfg_hash tab k) = Map.empty \<longrightarrow>
       (\<exists>t. w (k, v) s = (Inr (), t) \<and> entry_written tab k (f v) (view s) (view t)))"
    and "gomap_ok l" "\<forall>k \<in> fst ` set l. view s CONFIG_DB (cfg_hash tab k) = Map.empty"
  shows "\<exists>t. pfor w l s = (Inr (), t) \<and> table_written tab (\<lambda>k. map_option f (gget l k)) (view s) (view t)"
  using assms
proof (induction l arbitrary: s)
  case Nil
  then show ?case by (auto simp: prog_Inr table_written_def)
next
  case (Cons x l)
  obtain k v where x: "x = (k, v)" by (cases x)
  from Cons.prems(1) [of k v s] Cons.prems(3) x obtain u where u: "w (k, v) s = (Inr (), u)"
      "entry_written tab k (f v) (view s) (view u)" by force
  have k: "k \<notin> fst ` set l" "gomap_ok l" using Cons.prems(2) x by (auto simp: gomap_ok_def)
  have em: "\<forall>k \<in> fst ` set l. view u CONFIG_DB (cfg_hash tab k) = Map.empty"
  proof
    fix a assume a: "a \<in> fst ` set l"
    then have "a \<noteq> k" using k(1) by auto
    then have "view u CONFIG_DB (cfg_hash tab a) = view s CONFIG_DB (cfg_hash tab a)"
      using u(2) by (simp add: entry_written_def)
    also have "\<dots> = Map.empty" by (rule bspec [OF Cons.prems(3)]) (use a in simp)
    finally show "view u CONFIG_DB (cfg_hash tab a) = Map.empty" .
  qed
  have "\<exists>t. pfor w l u = (Inr (), t) \<and> table_written tab (\<lambda>k. map_option f (gget l k)) (view u) (view t)"
    using Cons.prems(1) k(2) em by (intro Cons.IH) auto
  then obtain t where t: "pfor w l u = (Inr (), t)" "table_written tab (\<lambda>k. map_option f (gget l k)) (view u) (view t)" by blast
  have none: "gget l k = None" using k(1) by (simp add: gget_None_iff)
  have "table_written tab (\<lambda>k. map_option f (gget (x # l) k)) (view s) (view t)"
    using t(2) u(2) x none unfolding table_written_def entry_written_def by (auto split: if_splits)
  with t(1) u(1) x show ?case by (auto simp: prog_Inr)
qed

lemma SetEntry_fresh:
  assumes "entry_ok e" "view s CONFIG_DB (cfg_hash tab k) = Map.empty"
  shows "\<exists>t. SetEntry R CONFIG_DB tab k (Some e) s = (Inr (), t) \<and>
    entry_written tab k e (view s) (view t)"
proof -
  have ok: "hash_ok (view s CONFIG_DB (entry_hash CONFIG_DB tab k))" using assms(2) by (simp add: cfg_hash_def)
  from SetEntry_succeeds [OF assms(1) ok] obtain t where t: "SetEntry R CONFIG_DB tab k (Some e) s = (Inr (), t)" by blast
  with SetEntry_view [OF assms(1) ok _ t] assms(2) show ?thesis by (auto simp: cfg_hash_def same_kinds_def entry_written_def)
qed

lemma set_ignoring_fresh:
  assumes "entry_ok e" "view s CONFIG_DB (cfg_hash tab k) = Map.empty"
  shows "\<exists>t. set_ignoring R CONFIG_DB tab k e s = (Inr (), t) \<and>
    entry_written tab k e (view s) (view t)"
  using SetEntry_fresh [OF assms] by (auto simp: set_ignoring_def prog_simps)

end

lemma ToMap_ok:
  "entry_ok (DeviceMetadata_ToMap d)" "entry_ok (Port_ToMap p)" "entry_ok (VlanMember_ToMap vm)"
  "no_commas (vl_Members v) \<Longrightarrow> entry_ok (Vlan_ToMap v)"
  by (simp_all add: entry_ok_def gomap_ok_def field_ok_def no_commas_def DeviceMetadata_ToMap_def Port_ToMap_def
      VlanMember_ToMap_def Vlan_ToMap_def)

definition sonic_config_ok :: "SONiCConfig \<Rightarrow> bool" where
  "sonic_config_ok c \<longleftrightarrow> gomap_ok (sc_DeviceMetadata c) \<and> gomap_ok (sc_Ports c) \<and> gomap_ok (sc_Vlans c) \<and>
     gomap_ok (sc_VlanMembers c) \<and> (\<forall>(k, v) \<in> set (sc_Vlans c). no_commas (vl_Members v))"

lemma config_tables:
  assumes T: "redis_total R view" and ok: "sonic_config_ok cfg"
    and empty: "\<forall>h. view s CONFIG_DB h = Map.empty"
  shows "\<exists>t. WriteToConfigDB R cfg s = (Inr (), t) \<and>
    (\<forall>k. cfg_entry (view t) DEVICE_METADATA_TABLE k =
       (case gget (sc_DeviceMetadata cfg) k of None \<Rightarrow> Map.empty | Some d \<Rightarrow> stored_view (DeviceMetadata_ToMap d))) \<and>
    (\<forall>k. cfg_entry (view t) PORT_TABLE k =
       (case gget (sc_Ports cfg) k of None \<Rightarrow> Map.empty | Some p \<Rightarrow> stored_view (Port_ToMap p))) \<and>
    (\<forall>k. cfg_entry (view t) VLAN_TABLE k =
       (case gget (sc_Vlans cfg) k of None \<Rightarrow> Map.empty | Some v \<Rightarrow> stored_view (Vlan_ToMap v))) \<and>
    (\<forall>k. cfg_entry (view t) VLAN_MEMBER_TABLE k =
       (case gget (sc_VlanMembers cfg) k of None \<Rightarrow> Map.empty | Some v \<Rightarrow> stored_view (VlanMember_ToMap v))) \<and>
    (\<forall>db h. db \<noteq> CONFIG_DB \<longrightarrow> view t db h = view s db h)"
proof -
  obtain s0 where s0: "NewSONiCDBClient R CONFIG_DB s = (Inr CONFIG_DB, s0)" "view s0 = view s"
    using redis_total.NewSONiCDBClient_succeeds [OF T] by blast
  note wt = redis_total.write_table [OF T]
  have ok1: "gomap_ok (sc_DeviceMetadata cfg)" and ok2: "gomap_ok (sc_Ports cfg)" and ok3: "gomap_ok (sc_Vlans cfg)"
    and ok4: "gomap_ok (sc_VlanMembers cfg)" and members: "\<And>k v. (k, v) \<in> set (sc_Vlans cfg) \<Longrightarrow> no_commas (vl_Members v)"
    using ok by (auto simp: sonic_config_ok_def)
  obtain s1 where s1: "pfor (\<lambda>(k, v). SetEntry R CONFIG_DB DEVICE_METADATA_TABLE k (Some (DeviceMetadata_ToMap v)))
        (sc_DeviceMetadata cfg) s0 = (Inr (), s1)"
      and w1: "table_written DEVICE_METADATA_TABLE (\<lambda>k. map_option DeviceMetadata_ToMap (gget (sc_DeviceMetadata cfg) k)) (view s0) (view s1)"
    using wt [of "sc_DeviceMetadata cfg" DeviceMetadata_ToMap DEVICE_METADATA_TABLE
        "\<lambda>(k, v). SetEntry R CONFIG_DB DEVICE_METADATA_TABLE k (Some (DeviceMetadata_ToMap v))" s0]
      redis_total.SetEntry_fresh [OF T ToMap_ok(1)] ToMap_ok(1) ok1 s0(2) empty by auto
  have e1: "view s1 CONFIG_DB (cfg_hash PORT_TABLE k) = Map.empty" "view s1 CONFIG_DB (cfg_hash VLAN_TABLE k) = Map.empty"
      "view s1 CONFIG_DB (cfg_hash VLAN_MEMBER_TABLE k) = Map.empty" for k
    using w1 s0(2) empty by (auto simp: table_written_def)
  obtain s2 where s2: "pfor (\<lambda>(k, v). set_ignoring R CONFIG_DB PORT_TABLE k (Port_ToMap v)) (sc_Ports cfg) s1 = (Inr (), s2)"
      and w2: "table_written PORT_TABLE (\<lambda>k. map_option Port_ToMap (gget (sc_Ports cfg) k)) (view s1) (view s2)"
    using wt [of "sc_Ports cfg" Port_ToMap PORT_TABLE "\<lambda>(k, v). set_ignoring R CONFIG_DB PORT_TABLE k (Port_ToMap v)" s1]
      redis_total.set_ignoring_fresh [OF T ToMap_ok(2)] ToMap_ok(2) ok2 e1 by auto
  have e2: "view s2 CONFIG_DB (cfg_hash VLAN_TABLE k) = Map.empty" "view s2 CONFIG_DB (cfg_hash VLAN_MEMBER_TABLE k) = Map.empty" for k
    using w2 e1 by (auto simp: table_written_def)
  obtain s3 where s3: "pfor (\<lambda>(k, v). set_ignoring R CONFIG_DB VLAN_TABLE k (Vlan_ToMap v)) (sc_Vlans cfg) s2 = (Inr (), s3)"
      and w3: "table_written VLAN_TABLE (\<lambda>k. map_option Vlan_ToMap (gget (sc_Vlans cfg) k)) (view s2) (view s3)"
    using wt [of "sc_Vlans cfg" Vlan_ToMap VLAN_TABLE "\<lambda>(k, v). set_ignoring R CONFIG_DB VLAN_TABLE k (Vlan_ToMap v)" s2]
      redis_total.set_ignoring_fresh [OF T ToMap_ok(4) [OF members]] ToMap_ok(4) [OF members] ok3 e2 by auto
  have e3: "view s3 CONFIG_DB (cfg_hash VLAN_MEMBER_TABLE k) = Map.empty" for k
    using w3 e2 by (auto simp: table_written_def)
  obtain s4 where s4: "pfor (\<lambda>(k, v). set_ignoring R CONFIG_DB VLAN_MEMBER_TABLE k (VlanMember_ToMap v)) (sc_VlanMembers cfg) s3 = (Inr (), s4)"
      and w4: "table_written VLAN_MEMBER_TABLE (\<lambda>k. map_option VlanMember_ToMap (gget (sc_VlanMembers cfg) k)) (view s3) (view s4)"
    using wt [of "sc_VlanMembers cfg" VlanMember_ToMap VLAN_MEMBER_TABLE
        "\<lambda>(k, v). set_ignoring R CONFIG_DB VLAN_MEMBER_TABLE k (VlanMember_ToMap v)" s3]
      redis_total.set_ignoring_fresh [OF T ToMap_ok(3)] ToMap_ok(3) ok4 e3 by auto
  have run: "WriteToConfigDB R cfg s = (Inr (), s4)"
    using s0(1) s1 s2 s3 s4 by (simp add: WriteToConfigDB_def res_simps)
  have V: "view s4 CONFIG_DB (cfg_hash DEVICE_METADATA_TABLE k) = view s1 CONFIG_DB (cfg_hash DEVICE_METADATA_TABLE k)"
      "view s4 CONFIG_DB (cfg_hash PORT_TABLE k) = view s2 CONFIG_DB (cfg_hash PORT_TABLE k)"
      "view s4 CONFIG_DB (cfg_hash VLAN_TABLE k) = view s3 CONFIG_DB (cfg_hash VLAN_TABLE k)" for k
    using w2 w3 w4 by (auto simp: table_written_def)
  have E: "cfg_entry (view s4) tab k = (case g k of None \<Rightarrow> Map.empty | Some e \<Rightarrow> stored_view e)"
    if "g k = None \<Longrightarrow> view s4 CONFIG_DB (cfg_hash tab k) = Map.empty"
      "\<And>e. g k = Some e \<Longrightarrow> view s4 CONFIG_DB (cfg_hash tab k) = gget (encode_entry e)" "\<And>e. g k = Some e \<Longrightarrow> entry_ok e" for tab k g
    using that by (auto simp: cfg_entry_def decode_stored split: option.split)
  have vl: "entry_ok (Vlan_ToMap v)" if "gget (sc_Vlans cfg) k = Some v" for k v
    using that by (intro ToMap_ok(4)) (rule members [OF gget_in_set])
  have 1: "cfg_entry (view s4) DEVICE_METADATA_TABLE k =
      (case map_option DeviceMetadata_ToMap (gget (sc_DeviceMetadata cfg) k) of None \<Rightarrow> Map.empty | Some e \<Rightarrow> stored_view e)" for k
    using w1 V s0(2) empty ToMap_ok(1) by (intro E) (auto simp: table_written_def)
  have 2: "cfg_entry (view s4) PORT_TABLE k =
      (case map_option Port_ToMap (gget (sc_Ports cfg) k) of None \<Rightarrow> Map.empty | Some e \<Rightarrow> stored_view e)" for k
    using w2 V e1 ToMap_ok(2) by (intro E) (auto simp: table_written_def)
  have 3: "cfg_entry (view s4) VLAN_TABLE k =
      (case map_option Vlan_ToMap (gget (sc_Vlans cfg) k) of None \<Rightarrow> Map.empty | Some e \<Rightarrow> stored_view e)" for k
    using w3 V e2 vl by (intro E) (auto simp: table_written_def)
  have 4: "cfg_entry (view s4) VLAN_MEMBER_TABLE k =
      (case map_option VlanMember_ToMap (gget (sc_VlanMembers cfg) k) of None \<Rightarrow> Map.empty | Some e \<Rightarrow> stored_view e)" for k
    using w4 e3 ToMap_ok(3) by (intro E) (auto simp: table_written_def)
  have 5: "view s4 db h = view s db h" if "db \<noteq> CONFIG_DB" for db h
    using w1 w2 w3 w4 that s0(2) by (simp add: table_written_def)
  show ?thesis
    by (intro exI [of _ s4] conjI allI) (simp_all add: run 1 2 3 4 5 split: option.split)
qed

text \<open>
  C18: on an empty configuration database and a server that carries out its commands, \<open>WriteToConfigDB\<close>
  succeeds, every row of the configuration is an entry of its table and the other databases stay.
\<close>

theorem WriteToConfigDB_tables:
  assumes T: "redis_total R view" and ok: "sonic_config_ok cfg"
    and empty: "\<forall>h. view s CONFIG_DB h = Map.empty"
  shows "\<exists>t. WriteToConfigDB R cfg s = (Inr (), t) \<and>
    (\<forall>k. cfg_entry (view t) DEVICE_METADATA_TABLE k =
       (case gget (sc_DeviceMetadata cfg) k of None \<Rightarrow> Map.empty | Some d \<Rightarrow> stored_view (DeviceMetadata_ToMap d))) \<and>
    (\<forall>k. cfg_entry (view t) PORT_TABLE k =
       (case gget (sc_Ports cfg) k of None \<Rightarrow> Map.empty | Some p \<Rightarrow> stored_view (Port_ToMap p))) \<and>
    (\<forall>k. cfg_entry (view t) VLAN_TABLE k =
       (case gget (sc_Vlans cfg) k of None \<Rightarrow> Map.empty | Some v \<Rightarrow> stored_view (Vlan_ToMap v))) \<and>
    (\<forall>k. cfg_entry (view t) VLAN_MEMBER_TABLE k =
       (case gget (sc_VlanMembers cfg) k of None \<Rightarrow> Map.empty | Some v \<Rightarrow> stored_view (VlanMember_ToMap v))) \<and>
    (\<forall>db h. db \<noteq> CONFIG_DB \<longrightarrow> view t db h = view s db h)"
  by (rule config_tables [OF T ok empty])

text \<open>The tables computed from a model whose names have no commas can be written.\<close>

definition plain_names :: "PacketTransponder \<Rightarrow> bool" where
  "plain_names m \<longleftrightarrow> (\<forall>k \<in> gkeys (Interface m). CHR '','' \<notin> set k)"

lemma OptEthernetName_no_comma: "OptEthernetName m = Inr n \<Longrightarrow> CHR '','' \<notin> set n"
  by (auto simp: OptEthernetName_def res_bind_Inr eth_name_no_comma Let_def split: option.splits)

lemma in_set_gput: "(a, b) \<in> set (gput k v m) \<Longrightarrow> (a, b) = (k, v) \<or> (a, b) \<in> set m"
  by (induction m) (auto split: if_splits)

definition vlans_plain :: "Vlan gomap \<Rightarrow> bool" where
  "vlans_plain vs \<longleftrightarrow> (\<forall>(k, v) \<in> set vs. no_commas (vl_Members v))"

lemma vlans_plain_gput [simp]: "vlans_plain vs \<Longrightarrow> no_commas (vl_Members v) \<Longrightarrow> vlans_plain (gput k v vs)"
  by (auto simp: vlans_plain_def dest: in_set_gput)

lemma vlans_plain_get: "vlans_plain vs \<Longrightarrow> gget vs k = Some v \<Longrightarrow> m \<in> set (vl_Members v) \<Longrightarrow> CHR '','' \<notin> set m"
  by (auto simp: vlans_plain_def no_commas_def dest!: gget_in_set)

lemma sonic_config_ok_iff: "sonic_config_ok c \<longleftrightarrow> gomap_ok (sc_DeviceMetadata c) \<and> gomap_ok (sc_Ports c) \<and>
    gomap_ok (sc_Vlans c) \<and> gomap_ok (sc_VlanMembers c) \<and> vlans_plain (sc_Vlans c)"
  by (simp add: sonic_config_ok_def vlans_plain_def)

lemma no_commas_snoc: "(\<And>m. m \<in> set ms \<Longrightarrow> CHR '','' \<notin> set m) \<Longrightarrow> CHR '','' \<notin> set k \<Longrightarrow> no_commas (ms @ [k])"
  by (auto simp: no_commas_def)

lemma add_connection_ok:
  assumes "add_connection k cn c = Inr c'" "sonic_config_ok c" "CHR '','' \<notin> set k"
  shows "sonic_config_ok c'"
proof -
  from assms(1) obtain vid where vid: "omc_Id cn = Some vid" by (cases "omc_Id cn") (simp_all add: add_connection_def)
  show ?thesis
  proof (cases "vid = 0")
    case True
    with assms vid show ?thesis by (simp add: add_connection_def)
  next
    case False
    define vl where "vl = (case gget (sc_Vlans c) (vlan_of_id vid) of Some v \<Rightarrow> v | None \<Rightarrow> \<lparr>vl_Members = [], vl_VID = uint vid\<rparr>)"
    have plain: "CHR '','' \<notin> set m" if "m \<in> set (vl_Members vl)" for m
      using that assms(2) vlans_plain_get [of "sc_Vlans c" "vlan_of_id vid"]
      by (auto simp: vl_def sonic_config_ok_iff split: option.splits)
    have nc: "no_commas (vl_Members vl @ [k])" "CHR '','' \<notin> set n \<Longrightarrow> no_commas (vl_Members vl @ [k, n])" for n
      using plain assms(3) by (auto simp: no_commas_def)
    show ?thesis
    proof (cases "gget (sc_Vlans c) (vlan_of_id vid)")
      case None
      then have "vl = \<lparr>vl_Members = [], vl_VID = uint vid\<rparr>" by (simp add: vl_def)
      with None assms(1,2) vid False nc OptEthernetName_no_comma [of "omc_OpticalModule cn"] show ?thesis
        by (auto simp: add_connection_def add_vlan_member_def Let_def res_bind_Inr sonic_config_ok_iff
            split: option.splits if_splits)
    next
      case (Some w)
      then have "vl = w" by (simp add: vl_def)
      with Some assms(1,2) vid False nc OptEthernetName_no_comma [of "omc_OpticalModule cn"] show ?thesis
        by (auto simp: add_connection_def add_vlan_member_def Let_def res_bind_Inr sonic_config_ok_iff
            split: option.splits if_splits)
    qed
  qed
qed

lemma add_interface_ok:
  assumes "add_interface x c = Inr c'" "sonic_config_ok c" "CHR '','' \<notin> set (fst x)"
  shows "sonic_config_ok c'"
  using assms add_connection_ok [of "fst x" _ _ c']
  by (auto simp: add_interface_def res_bind_Inr Let_def sonic_config_ok_iff split: option.splits)

lemma add_line_port_ok: "add_line_port i c = Inr c' \<Longrightarrow> sonic_config_ok c \<Longrightarrow> sonic_config_ok c'"
  by (auto simp: add_line_port_def Let_def sonic_config_ok_iff split: option.splits)

lemma NewSONiCConfigFromModel_ok:
  assumes "NewSONiCConfigFromModel m = Inr cfg" "plain_names m"
  shows "sonic_config_ok cfg"
proof -
  let ?c0 = "\<lparr>sc_DeviceMetadata = deviceMetadata, sc_Ports = [], sc_Vlans = [], sc_VlanMembers = []\<rparr>"
  from assms(1) obtain c where c: "for_res add_interface (Interface m) ?c0 = Inr c" "for_res add_line_port [16..<32] c = Inr cfg"
    by (auto simp: NewSONiCConfigFromModel_def res_bind_Inr)
  have "sonic_config_ok ?c0" by (simp add: sonic_config_ok_def deviceMetadata_def gomap_ok_def)
  then have "sonic_config_ok c"
    by (rule for_res_invariant [OF c(1)]) (use assms(2) in \<open>auto simp: plain_names_def intro: add_interface_ok\<close>)
  then show ?thesis by (rule for_res_invariant [OF c(2)]) (rule add_line_port_ok)
qed

lemma NewSONiCConfigFromModel_metadata:
  assumes "NewSONiCConfigFromModel m = Inr cfg"
  shows "sc_DeviceMetadata cfg = deviceMetadata"
proof -
  let ?c0 = "\<lparr>sc_DeviceMetadata = deviceMetadata, sc_Ports = [], sc_Vlans = [], sc_VlanMembers = []\<rparr>"
  from assms(1) obtain c where c: "for_res add_interface (Interface m) ?c0 = Inr c" "for_res add_line_port [16..<32] c = Inr cfg"
    by (auto simp: NewSONiCConfigFromModel_def res_bind_Inr)
  have "sc_DeviceMetadata c = deviceMetadata"
    by (rule for_res_invariant [OF c(1)])
      (auto simp: add_interface_def add_connection_def add_vlan_member_def res_bind_Inr Let_def split: option.splits if_splits)
  then show ?thesis using line_ports_keep(3) [OF c(2)] by simp
qed

lemma vlan_connectedI:
  assumes "vlan_holds cfg vid [(k, ''untagged''), (opt, ''tagged'')]" "opt \<noteq> k"
    and "\<forall>k. cfg_entry V VLAN_TABLE k = (case gget (sc_Vlans cfg) k of None \<Rightarrow> Map.empty | Some v \<Rightarrow> stored_view (Vlan_ToMap v))"
    and "\<forall>k. cfg_entry V VLAN_MEMBER_TABLE k =
      (case gget (sc_VlanMembers cfg) k of None \<Rightarrow> Map.empty | Some v \<Rightarrow> stored_view (VlanMember_ToMap v))"
  shows "vlan_connected V vid k opt"
proof -
  have st: "stored_view (Vlan_ToMap \<lparr>vl_Members = [k, opt], vl_VID = uint vid\<rparr>) = stored_view (vlan_entry vid [k, opt])"
    unfolding stored_vlan_entry by (auto simp: stored_view_def Vlan_ToMap_def stored_def fun_eq_iff itoa_def)
  have st': "VlanMember_ToMap \<lparr>vm_Mode = mode\<rparr> = vlan_member_entry mode" for mode
    by (simp add: VlanMember_ToMap_def vlan_member_entry_def)
  show ?thesis using assms by (simp add: vlan_connected_def vlan_holds_def st st')
qed

lemma config_connects:
  assumes T: "redis_total R view" and model: "gomap_ok (Interface m)" "ids_unique (Interface m)" "plain_names m"
    and cfg: "NewSONiCConfigFromModel m = Inr cfg"
    and i: "(k, v) \<in> set (Interface m)" "if_OpticalModuleConnection v = Some cn" "omc_Id cn = Some vid" "vid \<noteq> 0"
    and opt: "omc_OpticalModule cn = Some om" "OptEthernetName (Some om) = Inr opt" "opt \<noteq> k"
    and empty: "\<forall>h. view s CONFIG_DB h = Map.empty"
  shows "\<exists>t. WriteToConfigDB R cfg s = (Inr (), t) \<and> vlan_connected (view t) vid k opt"
proof -
  have ports: "vlan_ports k v = [(k, ''untagged''), (opt, ''tagged'')]" using i opt by (simp add: vlan_ports_def)
  have "vlan_id v = Some vid" using i by (simp add: vlan_id_def)
  from config_vlans [OF model(1,2) cfg i(1) this]
  have V: "vlan_holds cfg vid [(k, ''untagged''), (opt, ''tagged'')]" unfolding ports .
  from config_tables [OF T NewSONiCConfigFromModel_ok [OF cfg model(3)] empty] obtain t where
    t: "WriteToConfigDB R cfg s = (Inr (), t)" and
    vl: "\<forall>k. cfg_entry (view t) VLAN_TABLE k = (case gget (sc_Vlans cfg) k of None \<Rightarrow> Map.empty | Some v \<Rightarrow> stored_view (Vlan_ToMap v))" and
    mb: "\<forall>k. cfg_entry (view t) VLAN_MEMBER_TABLE k = (case gget (sc_VlanMembers cfg) k of None \<Rightarrow> Map.empty | Some v \<Rightarrow> stored_view (VlanMember_ToMap v))"
    by blast
  have "vlan_connected (view t) vid k opt" by (rule vlan_connectedI [OF V opt(3) vl mb])
  with t show ?thesis by blast
qed

text \<open>
  C13: the interface tables that the reboot of SONiC writes and the ones that \<open>HandleInterfaceDiff\<close>
  maintains agree: configuring an empty database from the model leaves every connection between an
  interface and its line port in the state that a commit of that connection establishes.
\<close>

theorem WriteToConfigDB_connects:
  assumes T: "redis_total R view" and model: "gomap_ok (Interface m)" "ids_unique (Interface m)" "plain_names m"
    and cfg: "NewSONiCConfigFromModel m = Inr cfg"
    and i: "(k, v) \<in> set (Interface m)" "if_OpticalModuleConnection v = Some cn" "omc_Id cn = Some vid" "vid \<noteq> 0"
    and opt: "omc_OpticalModule cn = Some om" "OptEthernetName (Some om) = Inr opt" "opt \<noteq> k"
    and empty: "\<forall>h. view s CONFIG_DB h = Map.empty"
  shows "\<exists>t. WriteToConfigDB R cfg s = (Inr (), t) \<and> vlan_connected (view t) vid k opt"
  by (rule config_connects [OF T model cfg i opt empty])

subsection \<open>When a configuration is computed\<close>

definition interface_accepted :: "string \<Rightarrow> PacketTransponder_Interface \<Rightarrow> bool" where
  "interface_accepted k v \<longleftrightarrow> (\<exists>ij. interface_index k = Inr ij) \<and>
     (\<forall>cn. if_OpticalModuleConnection v = Some cn \<longrightarrow>
        (\<exists>vid. omc_Id cn = Some vid \<and>
          (vid \<noteq> 0 \<longrightarrow> omc_OpticalModule cn \<noteq> None \<longrightarrow> (\<exists>n. OptEthernetName (omc_OpticalModule cn) = Inr n))))"

lemma add_connection_succeeds_iff:
  "(\<exists>c'. add_connection k cn c = Inr c') \<longleftrightarrow> (\<exists>vid. omc_Id cn = Some vid \<and>
     (vid \<noteq> 0 \<longrightarrow> omc_OpticalModule cn \<noteq> None \<longrightarrow> (\<exists>n. OptEthernetName (omc_OpticalModule cn) = Inr n)))"
proof (cases "omc_Id cn")
  case (Some vid)
  then show ?thesis
    by (cases "omc_OpticalModule cn"; cases "OptEthernetName (omc_OpticalModule cn)")
      (auto simp: add_connection_def Let_def)
qed (simp add: add_connection_def)

lemma add_interface_succeeds_iff: "(\<exists>c'. add_interface (k, v) c = Inr c') \<longleftrightarrow> interface_accepted k v"
proof (cases "interface_index k")
  case (Inr ij)
  then show ?thesis
    by (cases ij; cases "if_OpticalModuleConnection v")
      (simp_all add: add_interface_def interface_accepted_def Let_def add_connection_succeeds_iff)
qed (simp add: add_interface_def interface_accepted_def)

lemma for_interfaces_succeeds_iff:
  "(\<exists>c'. for_res add_interface ms c = Inr c') \<longleftrightarrow> (\<forall>(k, v) \<in> set ms. interface_accepted k v)"
proof (induction ms arbitrary: c)
  case (Cons x ms)
  obtain k v where x: "x = (k, v)" by (cases x)
  show ?case
  proof (cases "add_interface (k, v) c")
    case (Inl e)
    then have "\<not> interface_accepted k v" using add_interface_succeeds_iff [of k v c] by simp
    with Inl x show ?thesis by simp
  next
    case (Inr d)
    then have "interface_accepted k v" using add_interface_succeeds_iff [of k v c] by blast
    with Inr x Cons.IH [of d] show ?thesis by simp
  qed
qed simp

lemma line_ports_succeed:
  assumes "\<forall>i \<in> set is. gget (sc_Ports c) (eth_name (int i + 1)) = None" "distinct is"
  shows "\<exists>c'. for_res add_line_port is c = Inr c'"
  using assms
proof (induction "is" arbitrary: c)
  case (Cons i "is")
  let ?d = "c\<lparr>sc_Ports := gput (eth_name (int i + 1)) \<lparr>sp_Lanes = int i + 1\<rparr> (sc_Ports c)\<rparr>"
  have "\<exists>c'. for_res add_line_port is ?d = Inr c'" using Cons.prems by (intro Cons.IH) auto
  moreover have "add_line_port i c = Inr ?d" using Cons.prems(1) by (simp add: add_line_port_def)
  ultimately show ?case by simp
qed simp

lemma config_succeeds_iff:
  "(\<exists>cfg. NewSONiCConfigFromModel m = Inr cfg) \<longleftrightarrow>
     (\<forall>(k, v) \<in> set (Interface m). interface_accepted k v \<and> \<not> is_line_port k)"
proof -
  let ?c0 = "\<lparr>sc_DeviceMetadata = deviceMetadata, sc_Ports = [], sc_Vlans = [], sc_VlanMembers = []\<rparr>"
  have lines: "(\<exists>d. for_res add_line_port [16..<32] c = Inr d) \<longleftrightarrow> (\<forall>k \<in> gkeys (Interface m). \<not> is_line_port k)"
    if c: "for_res add_interface (Interface m) ?c0 = Inr c" for c
  proof
    assume "\<exists>d. for_res add_line_port [16..<32] c = Inr d"
    then obtain d where "for_res add_line_port [16..<32] c = Inr d" ..
    then show "\<forall>k \<in> gkeys (Interface m). \<not> is_line_port k"
      using config_ports(2) [of m d] c by (simp add: NewSONiCConfigFromModel_def)
  next
    assume free: "\<forall>k \<in> gkeys (Interface m). \<not> is_line_port k"
    have "gget (sc_Ports c) (eth_name (int i + 1)) = None" if "i \<in> {16..<32}" for i
    proof -
      have "is_line_port (eth_name (int i + 1))" using that unfolding is_line_port_iff by blast
      then have "eth_name (int i + 1) \<notin> gkeys (Interface m)" using free by blast
      then show ?thesis unfolding for_interfaces_ports [OF c] by simp
    qed
    then show "\<exists>d. for_res add_line_port [16..<32] c = Inr d"
      by (intro line_ports_succeed ballI) (simp_all only: set_upt distinct_upt)
  qed
  show ?thesis
  proof (cases "for_res add_interface (Interface m) ?c0")
    case (Inl e)
    then have "\<not> (\<forall>(k, v) \<in> set (Interface m). interface_accepted k v)"
      using for_interfaces_succeeds_iff [of "Interface m" ?c0] by simp
    with Inl show ?thesis by (auto simp: NewSONiCConfigFromModel_def)
  next
    case (Inr c)
    then have "\<forall>(k, v) \<in> set (Interface m). interface_accepted k v"
      using for_interfaces_succeeds_iff [of "Interface m" ?c0] by blast
    with lines [OF Inr] Inr show ?thesis by (fastforce simp: NewSONiCConfigFromModel_def)
  qed
qed

text \<open>
  C32: the configuration can be computed exactly when every interface is named \<open>Ethernet<i>\<close> or
  \<open>Ethernet<i>_<j>\<close> but not like one of the sixteen line ports, and the optical module of every
  connection with an id has a line port; a connection without an id panics.
\<close>

theorem NewSONiCConfigFromModel_succeeds_iff:
  "(\<exists>cfg. NewSONiCConfigFromModel m = Inr cfg) \<longleftrightarrow>
     (\<forall>(k, v) \<in> set (Interface m). interface_accepted k v \<and> \<not> is_line_port k)"
  by (rule config_succeeds_iff)

subsection \<open>Witnesses\<close>

abbreviation sample_model :: PacketTransponder where
  "sample_model \<equiv> sample_config (Some (sample_connection 100 ''A''))"

lemma sample_eth_name: "''Ethernet1'' = eth_name 1"
  by (simp add: eth_name_def itoa_def itoa_nat.simps digit_char_def char_of_def bit_Suc bit_0)

lemma sample_interface_index: "interface_index ''Ethernet1'' = Inr (1, 0)"
  unfolding sample_eth_name by (rule interface_index_main) simp_all

lemma sample_name_facts: "client_name ''Ethernet1''" "\<not> is_line_port ''Ethernet1''" "CHR '','' \<notin> set ''Ethernet1''"
proof -
  show "client_name ''Ethernet1''" unfolding sample_eth_name client_name_def by (intro bexI [of _ 1]) simp_all
  show "\<not> is_line_port ''Ethernet1''" unfolding sample_eth_name is_line_port_def by simp
qed simp

lemma sample_model_ok: "gomap_ok (Interface sample_model)" "ids_unique (Interface sample_model)" "plain_names sample_model"
  using sample_name_facts(3) by (simp_all add: sample_config_def gomap_ok_def ids_unique_def plain_names_def)

lemma sample_accepted: "\<forall>(k, v) \<in> set (Interface sample_model). interface_accepted k v \<and> \<not> is_line_port k"
  using sample_name_facts(2) by (simp add: sample_config_def interface_accepted_def sample_interface_index sample_connection_def sample_ports)

lemma NewSONiCConfigFromModel_succeeds_iff_witness: "\<exists>cfg. NewSONiCConfigFromModel sample_model = Inr cfg"
  using NewSONiCConfigFromModel_succeeds_iff sample_accepted by blast

lemma sample_vlan: "(''Ethernet1'', zero_Interface\<lparr>if_OpticalModuleConnection := Some (sample_connection 100 ''A'')\<rparr>) \<in> set (Interface sample_model)"
  "vlan_id (zero_Interface\<lparr>if_OpticalModuleConnection := Some (sample_connection 100 ''A'')\<rparr>) = Some 100"
  "vlan_ports ''Ethernet1'' (zero_Interface\<lparr>if_OpticalModuleConnection := Some (sample_connection 100 ''A'')\<rparr>) =
     [(''Ethernet1'', ''untagged''), (eth_name 21, ''tagged'')]"
  by (simp_all add: sample_config_def vlan_id_def vlan_ports_def sample_connection_def sample_ports sample_port_names)

lemma sample_cfg: "\<exists>cfg. NewSONiCConfigFromModel sample_model = Inr cfg \<and> sonic_config_ok cfg \<and>
    gget (sc_Ports cfg) ''Ethernet1'' = Some \<lparr>sp_Lanes = 1\<rparr>"
proof -
  obtain cfg where cfg: "NewSONiCConfigFromModel sample_model = Inr cfg" using config_succeeds_iff sample_accepted by blast
  have "''Ethernet1'' \<in> gkeys (Interface sample_model)" by (simp add: sample_config_def)
  moreover have "lanes_of ''Ethernet1'' = 1" unfolding sample_eth_name by (rule lanes_of_names) simp
  ultimately show ?thesis
    using cfg NewSONiCConfigFromModel_ok [OF cfg sample_model_ok(3)] config_ports(1) [OF cfg, of "''Ethernet1''"] by simp
qed

lemma NewSONiCConfigFromModel_vlans_witness:
  "\<exists>cfg. NewSONiCConfigFromModel sample_model = Inr cfg \<and>
     vlan_holds cfg 100 [(''Ethernet1'', ''untagged''), (eth_name 21, ''tagged'')]"
  using sample_cfg NewSONiCConfigFromModel_vlans [OF sample_model_ok(1,2) _ sample_vlan(1,2)] unfolding sample_vlan(3) by blast

lemma NewSONiCConfigFromModel_ports_witness:
  "\<exists>cfg. NewSONiCConfigFromModel sample_model = Inr cfg \<and>
     (\<forall>k p. gget (sc_Ports cfg) k = Some p \<longrightarrow> 1 \<le> sp_Lanes p \<and> sp_Lanes p \<le> 96)"
proof -
  obtain cfg where cfg: "NewSONiCConfigFromModel sample_model = Inr cfg" using sample_cfg by blast
  have "\<forall>k \<in> gkeys (Interface sample_model). client_name k" using sample_name_facts(1) by (simp add: sample_config_def)
  then show ?thesis using NewSONiCConfigFromModel_ports [OF cfg] cfg by blast
qed

lemma mem_view_Nil: "\<forall>h. mem_view [] CONFIG_DB h = Map.empty"
  by (simp add: mem_view_def mem_hash_def)

lemma WriteToConfigDB_tables_witness:
  "\<exists>cfg t. NewSONiCConfigFromModel sample_model = Inr cfg \<and> WriteToConfigDB mem_redis cfg [] = (Inr (), t) \<and>
     cfg_entry (mem_view t) PORT_TABLE ''Ethernet1'' = stored_view (Port_ToMap \<lparr>sp_Lanes = 1\<rparr>)"
proof -
  obtain cfg where cfg: "NewSONiCConfigFromModel sample_model = Inr cfg" "sonic_config_ok cfg"
      "gget (sc_Ports cfg) ''Ethernet1'' = Some \<lparr>sp_Lanes = 1\<rparr>" using sample_cfg by blast
  obtain t where t: "WriteToConfigDB mem_redis cfg [] = (Inr (), t)" and
      p: "\<forall>k. cfg_entry (mem_view t) PORT_TABLE k =
       (case gget (sc_Ports cfg) k of None \<Rightarrow> Map.empty | Some p \<Rightarrow> stored_view (Port_ToMap p))"
    using WriteToConfigDB_tables [OF mem.redis_total_axioms cfg(2) mem_view_Nil] by blast
  from p [rule_format, of "''Ethernet1''"]
  have "cfg_entry (mem_view t) PORT_TABLE ''Ethernet1'' = stored_view (Port_ToMap \<lparr>sp_Lanes = 1\<rparr>)"
    unfolding cfg(3) option.case .
  with t cfg(1) show ?thesis by blast
qed

lemma WriteToConfigDB_connects_witness:
  "\<exists>cfg t. NewSONiCConfigFromModel sample_model = Inr cfg \<and> WriteToConfigDB mem_redis cfg [] = (Inr (), t) \<and>
     vlan_connected (mem_view t) 100 ''Ethernet1'' (eth_name 21)"
proof -
  obtain cfg where cfg: "NewSONiCConfigFromModel sample_model = Inr cfg" using sample_cfg by blast
  have "\<exists>t. WriteToConfigDB mem_redis cfg [] = (Inr (), t) \<and> vlan_connected (mem_view t) 100 ''Ethernet1'' (eth_name 21)"
    by (rule WriteToConfigDB_connects [OF mem.redis_total_axioms sample_model_ok cfg sample_vlan(1) _ _ _ _ sample_ports(1) sample_port_names(1) mem_view_Nil,
          where cn = "sample_connection 100 ''A''"])
      (simp_all add: sample_connection_def)
  with cfg show ?thesis by blast
qed

end
