(* ===== verification/Cluster.thy ===== *)
theory Cluster
  imports SonicConfig
begin

section \<open>Pods and config maps (cmd/oopt/k8s.go, cmd/oopt/sonic.go)\<close>

text \<open>
  The daemons of the transponder run as Kubernetes pods. This theory models how the controller
  writes the pod and config map files and drives \<open>kubectl\<close>: \<open>createConfigMap\<close>, \<open>deletePod\<close> and
  the restart of the redis, transyncd and SONiC pods. Files and \<open>kubectl\<close> are outside the
  program: a record \<open>host_ops\<close> of operations on an arbitrary state, and a locale \<open>kubernetes\<close>
  with what the code relies on. A \<open>text/template\<close> is a list of lines of text and fields; the
  texts of the templates are those of the source.
\<close>

subsection \<open>Files and kubectl\<close>

record 's host_ops =
  ho_git_dir :: string
  ho_stat :: "string \<Rightarrow> 's \<Rightarrow> bool"
  ho_create :: "string \<Rightarrow> ('s, unit) prog"
  ho_write :: "string \<Rightarrow> string \<Rightarrow> ('s, unit) prog"
  ho_read :: "string \<Rightarrow> ('s, string) prog"
  ho_readdir :: "string \<Rightarrow> ('s, string list) prog"
  ho_remove_all :: "string \<Rightarrow> ('s, unit) prog"
  ho_kubectl :: "string list \<Rightarrow> ('s, string) prog"

text \<open>A command of which only the error is looked at, and one of which only success is.\<close>

definition run_cmd :: "'s host_ops \<Rightarrow> string list \<Rightarrow> ('s, unit) prog" where
  "run_cmd H as = pbind (ho_kubectl H as) (\<lambda>_. pret ())"

definition cmd_ok :: "'s host_ops \<Rightarrow> string list \<Rightarrow> ('s, bool) prog" where
  "cmd_ok H as = pbind (ptry (run_cmd H as)) (\<lambda>r. pret (case r of Inl e \<Rightarrow> False | Inr u \<Rightarrow> True))"

definition in_git_dir :: "'s host_ops \<Rightarrow> string \<Rightarrow> string" where
  "in_git_dir H name = ho_git_dir H @ ''/'' @ name"

subsection \<open>Templates\<close>

datatype seg = Tx string | Fd string

type_synonym template = "seg list list"

fun seg_text :: "string gomap \<Rightarrow> seg \<Rightarrow> string" where
  "seg_text m (Tx s) = s"
| "seg_text m (Fd f) = (case gget m f of None \<Rightarrow> [] | Some v \<Rightarrow> v)"

definition newline :: char where
  "newline = CHR 0x0A"

definition unlines :: "string list \<Rightarrow> string" where
  "unlines ls = concat (map (\<lambda>l. l @ [newline]) ls)"

definition render_lines :: "string gomap \<Rightarrow> template \<Rightarrow> string list" where
  "render_lines m t = map (\<lambda>l. concat (map (seg_text m) l)) t"

definition render :: "string gomap \<Rightarrow> template \<Rightarrow> string" where
  "render m t = unlines (render_lines m t)"

subsection \<open>Names and pod descriptions\<close>

definition REDIS_POD_NAME :: string where "REDIS_POD_NAME = ''redis''"
definition TRANSYNCD_POD_NAME :: string where "TRANSYNCD_POD_NAME = ''transyncd''"
definition SONIC_POD_NAME :: string where "SONIC_POD_NAME = ''sonic''"
definition SONIC_CONFIG_MAP_NAME :: string where "SONIC_CONFIG_MAP_NAME = ''sonic-config''"
definition REDIS_K8S_POD_CONFIG_NAME :: string where "REDIS_K8S_POD_CONFIG_NAME = ''redis.yml''"
definition SONIC_K8S_POD_CONFIG_NAME :: string where "SONIC_K8S_POD_CONFIG_NAME = ''sonic.yml''"
definition TRANSYNCD_K8S_POD_CONFIG_NAME :: string where "TRANSYNCD_K8S_POD_CONFIG_NAME = ''transyncd.yml''"

definition REDIS_K8S_POD_DEFAULT_CONFIG :: template where
  "REDIS_K8S_POD_DEFAULT_CONFIG =
     [[Tx ''apiVersion: v1''],
      [Tx ''kind: Pod''],
      [Tx ''metadata:''],
      [Tx ''  name: redis''],
      [Tx ''spec:''],
      [Tx ''  hostNetwork: true''],
      [Tx ''  volumes:''],
      [Tx ''  - name: redis''],
      [Tx ''    hostPath:''],
      [Tx ''      path: /var/run/redis''],
      [Tx ''  containers:''],
      [Tx ''  - name: redis''],
      [Tx ''    image: redis''],
      [Tx ''    imagePullPolicy: Never''],
      [Tx ''    volumeMounts:''],
      [Tx ''    - mountPath: /var/run/redis/''],
      [Tx ''      name: redis''],
      [Tx ''    securityContext:''],
      [Tx ''      privileged: true''],
      [Tx ''    command: ['redis-server', '/usr/local/etc/redis/redis.conf']'']]"

definition SONIC_K8S_POD_CONFIG_TEMPLATE :: template where
  "SONIC_K8S_POD_CONFIG_TEMPLATE =
     [[Tx ''apiVersion: v1''],
      [Tx ''kind: Pod''],
      [Tx ''metadata:''],
      [Tx ''  name: '', Fd ''Name''],
      [Tx ''spec:''],
      [Tx ''  volumes:''],
      [Tx ''  - name: redis''],
      [Tx ''    hostPath:''],
      [Tx ''      path: /var/run/redis''],
      [Tx ''  - name: tmp''],
      [Tx ''    hostPath:''],
      [Tx ''      path: /tmp''],
      [Tx ''  - name: '', Fd ''SonicConfigMapName''],
      [Tx ''    configMap:''],
      [Tx ''      name: '', Fd ''SonicConfigMapName''],
      [Tx ''  initContainers:''],
      [Tx ''  - name: init-loglevel''],
      [Tx ''    image: redis''],
      [Tx ''    imagePullPolicy: Never''],
      [Tx ''    command: ['sh', '-c', 'for daemon in syncd:syncd intfmgrd:intfmgrd intfsyncd:intfsyncd orchagent:orchagent portsyncd:portsyncd neighsyncd:neighsyncd vlanmgrd:vlanmgrd;''],
      [Tx ''do''],
      [Tx ''  redis-cli -n 3 -s /var/run/redis/redis.sock hset $daemon LOGOUTPUT STDERR;''],
      [Tx ''done']''],
      [Tx ''    volumeMounts:''],
      [Tx ''    - mountPath: /var/run/redis/''],
      [Tx ''      name: redis''],
      [Tx ''  - name: init-configdb''],
      [Tx ''    image: '', Fd ''Image''],
      [Tx ''    imagePullPolicy: Never''],
      [Tx ''    command: ['sonic-cfggen', '-s', '/var/run/redis/redis.sock', '-j', '/root/config/config_db.json', '--write-to-db']''],
      [Tx ''    volumeMounts:''],
      [Tx ''    - mountPath: /var/run/redis/''],
      [Tx ''      name: redis''],
      [Tx ''    - mountPath: /root/config''],
      [Tx ''      name: sonic-config''],
      [Tx ''  - name: init-configdb-done''],
      [Tx ''    image: redis''],
      [Tx ''    imagePullPolicy: Never''],
      [Tx ''    command: ['redis-cli', '-s', '/var/run/redis/redis.sock', '-n', '4', 'SET', 'CONFIG_DB_INITIALIZED', '1']''],
      [Tx ''    volumeMounts:''],
      [Tx ''    - mountPath: /var/run/redis/''],
      [Tx ''      name: redis''],
      [Tx ''  containers:''],
      [Tx ''  - name: syncd''],
      [Tx ''    image: '', Fd ''Image''],
      [Tx ''    imagePullPolicy: Never''],
      [Tx ''    volumeMounts:''],
      [Tx ''    - mountPath: /var/run/redis/''],
      [Tx ''      name: redis''],
      [Tx ''    - mountPath: /tmp''],
      [Tx ''      name: tmp''],
      [Tx ''    securityContext:''],
      [Tx ''      privileged: true''],
      [Tx ''    command:''],
      [Tx ''    - syncd''],
      [Tx ''  - name: orchagent''],
      [Tx ''    image: '', Fd ''Image''],
      [Tx ''    imagePullPolicy: Never''],
      [Tx ''    volumeMounts:''],
      [Tx ''    - mountPath: /var/run/redis/''],
      [Tx ''      name: redis''],
      [Tx ''    securityContext:''],
      [Tx ''      privileged: true''],
      [Tx ''    command: ['sh', '-c', 'sleep 10 && platform=mellanox orchagent']''],
      [Tx ''  - name: portsyncd''],
      [Tx ''    image: '', Fd ''Image''],
      [Tx ''    imagePullPolicy: Never''],
      [Tx ''    volumeMounts:''],
      [Tx ''    - mountPath: /var/run/redis/''],
      [Tx ''      name: redis''],
      [Tx ''    securityContext:''],
      [Tx ''      privileged: true''],
      [Tx ''    command: ['sh', '-c', 'sleep 13 && portsyncd']''],
      [Tx ''  - name: vlanmgrd''],
      [Tx ''    image: '', Fd ''Image''],
      [Tx ''    imagePullPolicy: Never''],
      [Tx ''    volumeMounts:''],
      [Tx ''    - mountPath: /var/run/redis/''],
      [Tx ''      name: redis''],
      [Tx ''    securityContext:''],
      [Tx ''      privileged: true''],
      [Tx ''    command: ['sh', '-c', 'mount -o remount,rw /sys && sleep 15 && vlanmgrd']''],
      [Tx ''  - name: intfmgrd''],
      [Tx ''    image: '', Fd ''Image''],
      [Tx ''    imagePullPolicy: Never''],
      [Tx ''    volumeMounts:''],
      [Tx ''    - mountPath: /var/run/redis/''],
      [Tx ''      name: redis''],
      [Tx ''    securityContext:''],
      [Tx ''      privileged: true''],
      [Tx ''    command: ['sh', '-c', 'sleep 15 && intfmgrd']''],
      [Tx ''  - name: intfsyncd''],
      [Tx ''    image: '', Fd ''Image''],
      [Tx ''    imagePullPolicy: Never''],
      [Tx ''    volumeMounts:''],
      [Tx ''    - mountPath: /var/run/redis/''],
      [Tx ''      name: redis''],
      [Tx ''    securityContext:''],
      [Tx ''      privileged: true''],
      [Tx ''    command: ['sh', '-c', 'sleep 15 && intfsyncd']''],
      [Tx ''  - name: neighsyncd''],
      [Tx ''    image: '', Fd ''Image''],
      [Tx ''    imagePullPolicy: Never''],
      [Tx ''    volumeMounts:''],
      [Tx ''    - mountPath: /var/run/redis/''],
      [Tx ''      name: redis''],
      [Tx ''    securityContext:''],
      [Tx ''      privileged: true''],
      [Tx ''    command: ['sh', '-c', 'sleep 15 && neighsyncd']'']]"

definition TRANSYNCD_K8S_POD_CONFIG_TEMPLATE :: template where
  "TRANSYNCD_K8S_POD_CONFIG_TEMPLATE =
     [[Tx ''apiVersion: v1''],
      [Tx ''kind: Pod''],
      [Tx ''metadata:''],
      [Tx ''  name: '', Fd ''Name''],
      [Tx ''spec:''],
      [Tx ''  volumes:''],
      [Tx ''  - name: redis''],
      [Tx ''    hostPath:''],
      [Tx ''      path: /var/run/redis''],
      [Tx ''  - name: tai''],
      [Tx ''    hostPath:''],
      [Tx ''      path: /etc/tai/''],
      [Tx ''  containers:''],
      [Tx ''  - name: transyncd''],
      [Tx ''    image: '', Fd ''Image''],
      [Tx ''    imagePullPolicy: Never''],
      [Tx ''    volumeMounts:''],
      [Tx ''    - mountPath: /var/run/redis/''],
      [Tx ''      name: redis''],
      [Tx ''    - mountPath: /etc/tai/''],
      [Tx ''      name: tai''],
      [Tx ''    securityContext:''],
      [Tx ''      privileged: true''],
      [Tx ''    command:''],
      [Tx ''    - transyncd'']]"

subsection \<open>k8s.go\<close>

text \<open>
  The config map template: a line per key, then every line of its value indented by four spaces.
  \<open>range\<close> visits the keys in sorted order; the map is given in that order.
\<close>

definition config_lines :: "string \<times> string \<Rightarrow> string list" where
  "config_lines kv = (''  '' @ fst kv @ '': |'') # map (\<lambda>l. ''    '' @ l) (Split (snd kv) [newline])"

definition CONFIG_MAP_TEMPLATE :: "string \<Rightarrow> string gomap \<Rightarrow> string" where
  "CONFIG_MAP_TEMPLATE name config =
     unlines ([''apiVersion: v1'', ''kind: ConfigMap'', ''data:''] @ concat (map config_lines config) @
       [[], ''metadata:'', ''  name: '' @ name])"

definition isConfigMapExists :: "'s host_ops \<Rightarrow> string \<Rightarrow> ('s, bool) prog" where
  "isConfigMapExists H name = cmd_ok H [''get'', ''cm'', name]"

definition isPodRunning :: "'s host_ops \<Rightarrow> string \<Rightarrow> ('s, bool) prog" where
  "isPodRunning H name = cmd_ok H [''get'', ''pod'', name]"

definition deletePod :: "'s host_ops \<Rightarrow> string \<Rightarrow> ('s, unit) prog" where
  "deletePod H name =
     pbind (isPodRunning H name) (\<lambda>b.
       if b then run_cmd H [''delete'', ''pod'', name, ''--grace-period=0'', ''--force''] else pret ())"

text \<open>The error of writing the file (\<open>t.Execute\<close>) is dropped.\<close>

definition createConfigMap :: "'s host_ops \<Rightarrow> string \<Rightarrow> string gomap \<Rightarrow> ('s, unit) prog" where
  "createConfigMap H name config =
     (let filename = in_git_dir H (name @ ''.yml'') in
      pseq (ho_create H filename)
      (pbind (ptry (ho_write H filename (CONFIG_MAP_TEMPLATE name config))) (\<lambda>_.
       pbind (isConfigMapExists H name) (\<lambda>b.
         run_cmd H [if b then ''replace'' else ''create'', ''-f'', filename]))))"

subsection \<open>Restarting pods\<close>

text \<open>A pod file is written when there is none; then the pod is created from the file.\<close>

definition pod_from_file :: "'s host_ops \<Rightarrow> string \<Rightarrow> string \<Rightarrow> ('s, unit) prog" where
  "pod_from_file H file text =
     (let name = in_git_dir H file in
      pseq (\<lambda>s. if ho_stat H name s then pret () s
                else pseq (ho_create H name) (ho_write H name text) s)
        (run_cmd H [''create'', ''-f'', name]))"

definition sonic_pod_text :: "bool \<Rightarrow> string" where
  "sonic_pod_text virtual =
     render [(''Name'', ''sonic''), (''Image'', if virtual then ''sonic:virtual'' else ''sonic''),
             (''SonicConfigMapName'', SONIC_CONFIG_MAP_NAME)] SONIC_K8S_POD_CONFIG_TEMPLATE"

definition createSONiCPod :: "'s host_ops \<Rightarrow> bool \<Rightarrow> ('s, unit) prog" where
  "createSONiCPod H virtual = pod_from_file H SONIC_K8S_POD_CONFIG_NAME (sonic_pod_text virtual)"

definition RestartSONiC :: "'s host_ops \<Rightarrow> string \<Rightarrow> bool \<Rightarrow> ('s, unit) prog" where
  "RestartSONiC H config virtual =
     pseq (createConfigMap H SONIC_CONFIG_MAP_NAME [(''config_db.json'', config)])
     (pseq (deletePod H SONIC_POD_NAME)
       (createSONiCPod H virtual))"

definition redis_pod_text :: string where
  "redis_pod_text = render [] REDIS_K8S_POD_DEFAULT_CONFIG"

definition RestartRedis :: "'s host_ops \<Rightarrow> ('s, unit) prog" where
  "RestartRedis H = pseq (deletePod H REDIS_POD_NAME) (pod_from_file H REDIS_K8S_POD_CONFIG_NAME redis_pod_text)"

definition transyncd_pod_text :: "bool \<Rightarrow> string" where
  "transyncd_pod_text virtual =
     render [(''Name'', ''transyncd''), (''Image'', if virtual then ''transyncd:virtual'' else ''transyncd'')]
       TRANSYNCD_K8S_POD_CONFIG_TEMPLATE"

definition RestartTransyncd :: "'s host_ops \<Rightarrow> bool \<Rightarrow> ('s, unit) prog" where
  "RestartTransyncd H virtual =
     pseq (deletePod H TRANSYNCD_POD_NAME) (pod_from_file H TRANSYNCD_K8S_POD_CONFIG_NAME (transyncd_pod_text virtual))"

subsection \<open>Manifests\<close>

lemma unlines_simps [simp]: "unlines [] = []" "unlines (l # ls) = l @ newline # unlines ls"
  "unlines (ls @ ls') = unlines ls @ unlines ls'"
  by (simp_all add: unlines_def)

definition one_line :: "string \<Rightarrow> bool" where
  "one_line l \<longleftrightarrow> newline \<notin> set l"

lemma split_unlines: "\<forall>l \<in> set ls. one_line l \<Longrightarrow> split_char newline (unlines ls) = ls @ [[]]"
  by (induction ls) (simp_all add: one_line_def split_char_append)

text \<open>What a manifest declares.\<close>

datatype resource = Pod string | ConfigMap string

definition pod_head :: "string \<Rightarrow> string list" where
  "pod_head n = [''apiVersion: v1'', ''kind: Pod'', ''metadata:'', ''  name: '' @ n]"

lemma pod_texts:
  "\<exists>rest. sonic_pod_text virtual = unlines (pod_head ''sonic'' @ rest) \<and> (\<forall>l \<in> set rest. one_line l)"
  "\<exists>rest. transyncd_pod_text virtual = unlines (pod_head ''transyncd'' @ rest) \<and> (\<forall>l \<in> set rest. one_line l)"
  "\<exists>rest. redis_pod_text = unlines (pod_head ''redis'' @ rest) \<and> (\<forall>l \<in> set rest. one_line l)"
proof -
  have *: "\<exists>rest. render m t = unlines (pod_head n @ rest) \<and> (\<forall>l \<in> set rest. one_line l)"
    if "take 4 (render_lines m t) = pod_head n" "\<forall>l \<in> set (drop 4 (render_lines m t)). one_line l" for m t n
    using that append_take_drop_id [of 4 "render_lines m t"] unfolding render_def by metis
  show "\<exists>rest. sonic_pod_text virtual = unlines (pod_head ''sonic'' @ rest) \<and> (\<forall>l \<in> set rest. one_line l)"
    unfolding sonic_pod_text_def by (cases virtual; simp only: if_True if_False; rule *; code_simp)
  show "\<exists>rest. transyncd_pod_text virtual = unlines (pod_head ''transyncd'' @ rest) \<and> (\<forall>l \<in> set rest. one_line l)"
    unfolding transyncd_pod_text_def by (cases virtual; simp only: if_True if_False; rule *; code_simp)
  show "\<exists>rest. redis_pod_text = unlines (pod_head ''redis'' @ rest) \<and> (\<forall>l \<in> set rest. one_line l)"
    unfolding redis_pod_text_def by (rule *; code_simp)
qed

text \<open>
  What the controller relies on: files keep what is written to them, \<open>kubectl get\<close> tells whether a
  resource exists and changes nothing, \<open>delete\<close> removes a pod that exists, \<open>create\<close> deploys the
  resource that a file declares when there is none of that name, and \<open>replace\<close> overwrites one.
\<close>

locale kubernetes =
  fixes H :: "'s host_ops"
    and declares :: "string \<Rightarrow> resource option"
    and files :: "'s \<Rightarrow> string \<rightharpoonup> string"
    and deployed :: "'s \<Rightarrow> resource \<rightharpoonup> string"
  assumes fstat: "ho_stat H f s \<longleftrightarrow> files s f \<noteq> None"
    and fcreate: "\<exists>t. ho_create H f s = (Inr (), t) \<and> files t = (files s)(f \<mapsto> []) \<and> deployed t = deployed s"
    and fwrite: "files s f = Some x \<Longrightarrow>
      \<exists>t. ho_write H f y s = (Inr (), t) \<and> files t = (files s)(f \<mapsto> x @ y) \<and> deployed t = deployed s"
    and fread: "files s f = Some x \<Longrightarrow>
      \<exists>t. ho_read H f s = (Inr x, t) \<and> files t = files s \<and> deployed t = deployed s"
    and get_pod: "\<exists>r t. ho_kubectl H [''get'', ''pod'', n] s = (r, t) \<and> files t = files s \<and> deployed t = deployed s \<and>
      \<not> aborts r \<and> (deployed s (Pod n) \<noteq> None \<longleftrightarrow> (\<exists>x. r = Inr x))"
    and get_cm: "\<exists>r t. ho_kubectl H [''get'', ''cm'', n] s = (r, t) \<and> files t = files s \<and> deployed t = deployed s \<and>
      \<not> aborts r \<and> (deployed s (ConfigMap n) \<noteq> None \<longleftrightarrow> (\<exists>x. r = Inr x))"
    and undeploy: "deployed s (Pod n) \<noteq> None \<Longrightarrow>
      \<exists>x t. ho_kubectl H [''delete'', ''pod'', n, ''--grace-period=0'', ''--force''] s = (Inr x, t) \<and>
        files t = files s \<and> deployed t = (deployed s)(Pod n := None)"
    and deploy: "files s f = Some x \<Longrightarrow> declares x = Some r \<Longrightarrow> deployed s r = None \<Longrightarrow>
      \<exists>y t. ho_kubectl H [''create'', ''-f'', f] s = (Inr y, t) \<and> files t = files s \<and> deployed t = (deployed s)(r \<mapsto> x)"
    and redeploy: "files s f = Some x \<Longrightarrow> declares x = Some r \<Longrightarrow> deployed s r \<noteq> None \<Longrightarrow>
      \<exists>y t. ho_kubectl H [''replace'', ''-f'', f] s = (Inr y, t) \<and> files t = files s \<and> deployed t = (deployed s)(r \<mapsto> x)"
    and declares_pod: "one_line n \<Longrightarrow> declares (unlines (pod_head n @ rest)) = Some (Pod n)"
    and declares_map: "one_line n \<Longrightarrow>
      declares (unlines ([''apiVersion: v1'', ''kind: ConfigMap''] @ rest @ [''metadata:'', ''  name: '' @ n])) = Some (ConfigMap n)"
begin

lemma isPodRunning_run:
  "\<exists>t. isPodRunning H n s = (Inr (deployed s (Pod n) \<noteq> None), t) \<and> files t = files s \<and> deployed t = deployed s"
proof -
  obtain r t where r: "ho_kubectl H [''get'', ''pod'', n] s = (r, t)" "files t = files s" "deployed t = deployed s"
    "\<not> aborts r" "deployed s (Pod n) \<noteq> None \<longleftrightarrow> (\<exists>x. r = Inr x)" using get_pod [of n s] by blast
  then show ?thesis
    by (cases r) (simp_all add: isPodRunning_def cmd_ok_def run_cmd_def ptry_def pbind_def pret_def aborts_def)
qed

lemma isConfigMapExists_run:
  "\<exists>t. isConfigMapExists H n s = (Inr (deployed s (ConfigMap n) \<noteq> None), t) \<and> files t = files s \<and> deployed t = deployed s"
proof -
  obtain r t where r: "ho_kubectl H [''get'', ''cm'', n] s = (r, t)" "files t = files s" "deployed t = deployed s"
    "\<not> aborts r" "deployed s (ConfigMap n) \<noteq> None \<longleftrightarrow> (\<exists>x. r = Inr x)" using get_cm [of n s] by blast
  then show ?thesis
    by (cases r) (simp_all add: isConfigMapExists_def cmd_ok_def run_cmd_def ptry_def pbind_def pret_def aborts_def)
qed

lemma deletePod_run:
  "\<exists>t. deletePod H n s = (Inr (), t) \<and> files t = files s \<and> deployed t = (deployed s)(Pod n := None)"
proof -
  obtain u where u: "isPodRunning H n s = (Inr (deployed s (Pod n) \<noteq> None), u)" "files u = files s" "deployed u = deployed s"
    using isPodRunning_run by blast
  show ?thesis
  proof (cases "deployed s (Pod n)")
    case None
    then have "(deployed s)(Pod n := None) = deployed s" by (simp add: fun_upd_idem)
    with None u show ?thesis by (simp add: deletePod_def pbind_def pret_def)
  next
    case (Some x)
    then obtain y t where "ho_kubectl H [''delete'', ''pod'', n, ''--grace-period=0'', ''--force''] u = (Inr y, t)"
        "files t = files u" "deployed t = (deployed u)(Pod n := None)"
      using undeploy [of u n] u(3) by auto
    with Some u show ?thesis by (simp add: deletePod_def run_cmd_def pbind_def pret_def)
  qed
qed

text \<open>The pod runs from the file that was there, or from the text that was written.\<close>

definition pod_source :: "'s \<Rightarrow> string \<Rightarrow> string \<Rightarrow> string" where
  "pod_source s file body = (case files s (in_git_dir H file) of Some x \<Rightarrow> x | None \<Rightarrow> body)"

lemma pod_from_file_run:
  assumes "declares (pod_source s file body) = Some (Pod n)" "deployed s (Pod n) = None"
  shows "\<exists>t. pod_from_file H file body s = (Inr (), t) \<and>
    files t = (files s)(in_git_dir H file \<mapsto> pod_source s file body) \<and>
    deployed t = (deployed s)(Pod n \<mapsto> pod_source s file body)"
proof (cases "files s (in_git_dir H file)")
  case None
  obtain u where u: "ho_create H (in_git_dir H file) s = (Inr (), u)"
      "files u = (files s)(in_git_dir H file \<mapsto> [])" "deployed u = deployed s"
    using fcreate by blast
  obtain v where v: "ho_write H (in_git_dir H file) body u = (Inr (), v)"
      "files v = (files u)(in_git_dir H file \<mapsto> body)" "deployed v = deployed u"
    using fwrite [of u "in_git_dir H file" "[]" body] u(2) by auto
  have src: "pod_source s file body = body" using None by (simp add: pod_source_def)
  have fv: "files v (in_git_dir H file) = Some body" using v(2) by simp
  obtain y t where t: "ho_kubectl H [''create'', ''-f'', in_git_dir H file] v = (Inr y, t)"
      "files t = files v" "deployed t = (deployed v)(Pod n \<mapsto> body)"
    using deploy [OF fv, of "Pod n"] assms src u v by auto
  have "ho_stat H (in_git_dir H file) s = False" using fstat None by simp
  with u v t src show ?thesis
    by (simp add: pod_from_file_def Let_def run_cmd_def pseq_def pbind_def pret_def)
next
  case (Some x)
  have src: "pod_source s file body = x" using Some by (simp add: pod_source_def)
  obtain y t where t: "ho_kubectl H [''create'', ''-f'', in_git_dir H file] s = (Inr y, t)"
      "files t = files s" "deployed t = (deployed s)(Pod n \<mapsto> x)"
    using deploy [OF Some, of "Pod n"] assms src by auto
  have "ho_stat H (in_git_dir H file) s = True" using fstat Some by simp
  moreover have "(files s)(in_git_dir H file \<mapsto> x) = files s" using Some by (simp add: fun_upd_idem)
  ultimately show ?thesis using t src
    by (simp add: pod_from_file_def Let_def run_cmd_def pseq_def pbind_def pret_def)
qed

lemma createConfigMap_run:
  assumes "one_line name"
  shows "\<exists>t. createConfigMap H name config s = (Inr (), t) \<and>
    files t = (files s)(in_git_dir H (name @ ''.yml'') \<mapsto> CONFIG_MAP_TEMPLATE name config) \<and>
    deployed t = (deployed s)(ConfigMap name \<mapsto> CONFIG_MAP_TEMPLATE name config)"
proof -
  let ?f = "in_git_dir H (name @ ''.yml'')" and ?x = "CONFIG_MAP_TEMPLATE name config"
  have d: "declares ?x = Some (ConfigMap name)"
    using declares_map [OF assms, of "[''data:''] @ concat (map config_lines config) @ [[]]"]
    by (simp add: CONFIG_MAP_TEMPLATE_def)
  obtain u where u: "ho_create H ?f s = (Inr (), u)" "files u = (files s)(?f \<mapsto> [])" "deployed u = deployed s"
    using fcreate by blast
  obtain v where v: "ho_write H ?f ?x u = (Inr (), v)" "files v = (files u)(?f \<mapsto> ?x)" "deployed v = deployed u"
    using fwrite [of u ?f "[]" ?x] u(2) by auto
  obtain w where w: "isConfigMapExists H name v = (Inr (deployed v (ConfigMap name) \<noteq> None), w)"
      "files w = files v" "deployed w = deployed v"
    using isConfigMapExists_run by blast
  have fw: "files w ?f = Some ?x" using w v by simp
  show ?thesis
  proof (cases "deployed s (ConfigMap name)")
    case None
    then obtain y t where t: "ho_kubectl H [''create'', ''-f'', ?f] w = (Inr y, t)" "files t = files w"
        "deployed t = (deployed w)(ConfigMap name \<mapsto> ?x)"
      using deploy [OF fw d] u v w by auto
    with None u v w show ?thesis by (simp add: createConfigMap_def Let_def run_cmd_def pbind_def pret_def pseq_def ptry_def)
  next
    case (Some z)
    then obtain y t where t: "ho_kubectl H [''replace'', ''-f'', ?f] w = (Inr y, t)" "files t = files w"
        "deployed t = (deployed w)(ConfigMap name \<mapsto> ?x)"
      using redeploy [OF fw d] u v w by auto
    with Some u v w show ?thesis by (simp add: createConfigMap_def Let_def run_cmd_def pbind_def pret_def pseq_def ptry_def)
  qed
qed

lemma restart_run:
  assumes "declares (pod_source s file body) = Some (Pod n)"
  shows "\<exists>t. pseq (deletePod H n) (pod_from_file H file body) s = (Inr (), t) \<and>
    files t = (files s)(in_git_dir H file \<mapsto> pod_source s file body) \<and>
    deployed t = (deployed s)(Pod n \<mapsto> pod_source s file body)"
proof -
  obtain u where u: "deletePod H n s = (Inr (), u)" "files u = files s" "deployed u = (deployed s)(Pod n := None)"
    using deletePod_run by blast
  have src: "pod_source u file body = pod_source s file body" using u(2) by (simp add: pod_source_def)
  have "\<exists>t. pod_from_file H file body u = (Inr (), t) \<and>
      files t = (files u)(in_git_dir H file \<mapsto> pod_source u file body) \<and>
      deployed t = (deployed u)(Pod n \<mapsto> pod_source u file body)"
    using assms u(3) by (intro pod_from_file_run) (simp_all add: src)
  with u src show ?thesis by (auto simp: res_simps)
qed

end

subsection \<open>A cluster in memory\<close>

record mem_host =
  mh_files :: "string gomap"
  mh_deployed :: "(resource \<times> string) list"

definition resource_of :: "string \<Rightarrow> resource option" where
  "resource_of x =
     (let ls = split_char newline x in
      if take 3 ls = [''apiVersion: v1'', ''kind: Pod'', ''metadata:''] \<and> 4 < length ls \<and> HasPrefix (ls ! 3) ''  name: ''
      then Some (Pod (drop 8 (ls ! 3)))
      else case rev ls of
             e # n # m # _ \<Rightarrow>
               if take 2 ls = [''apiVersion: v1'', ''kind: ConfigMap''] \<and> HasPrefix n ''  name: ''
               then Some (ConfigMap (drop 8 n)) else None
           | _ \<Rightarrow> None)"

definition mem_kubectl :: "string list \<Rightarrow> (mem_host, string) prog" where
  "mem_kubectl as s =
     (let put = (\<lambda>r x. (Inr [], s\<lparr>mh_deployed := AList.update r x (mh_deployed s)\<rparr>));
          has = (\<lambda>r. map_of (mh_deployed s) r \<noteq> None);
          no = (Inl (Ext ''exit status 1''), s)
      in case as of
           a # b # c # _ \<Rightarrow>
             if a = ''get'' then
               if has (if b = ''pod'' then Pod c else ConfigMap c) then (Inr [], s) else no
             else if a = ''delete'' then (Inr [], s\<lparr>mh_deployed := AList.delete (Pod c) (mh_deployed s)\<rparr>)
             else (case gget (mh_files s) c of None \<Rightarrow> no
                   | Some x \<Rightarrow> (case resource_of x of None \<Rightarrow> no
                     | Some r \<Rightarrow> if has r = (a = ''replace'') then put r x else no))
         | _ \<Rightarrow> no)"

definition mem_cluster :: "mem_host host_ops" where
  "mem_cluster =
     \<lparr>ho_git_dir = ''/etc/oopt'',
      ho_stat = (\<lambda>f s. gget (mh_files s) f \<noteq> None),
      ho_create = (\<lambda>f s. (Inr (), s\<lparr>mh_files := gput f [] (mh_files s)\<rparr>)),
      ho_write = (\<lambda>f x s. (Inr (), s\<lparr>mh_files := gput f ((case gget (mh_files s) f of None \<Rightarrow> [] | Some y \<Rightarrow> y) @ x) (mh_files s)\<rparr>)),
      ho_read = (\<lambda>f s. (case gget (mh_files s) f of None \<Rightarrow> Inl (Ext ''no such file'') | Some x \<Rightarrow> Inr x, s)),
      ho_readdir = (\<lambda>d s. (Inr [drop (length d + 1) f. f \<leftarrow> map fst (mh_files s), HasPrefix f (d @ ''/'')], s)),
      ho_remove_all = (\<lambda>f s. (Inr (), s\<lparr>mh_files := gdel f (mh_files s)\<rparr>)),
      ho_kubectl = mem_kubectl\<rparr>"

lemma split_char_last: "one_line l \<Longrightarrow> split_char newline (l @ newline # r) = l # split_char newline r"
  by (simp add: one_line_def split_char_append)

lemma rev_split_char:
  "split_char c (xs @ c # ys) = split_char c xs @ split_char c ys"
proof (induction xs)
  case (Cons x xs)
  then show ?case by (cases "split_char c xs") auto
qed simp

lemma split_unlines_append: "split_char newline (unlines ls @ r) = concat (map (split_char newline) ls) @ split_char newline r"
  by (induction ls) (simp_all add: rev_split_char)

lemma split_unlines_any: "split_char newline (unlines ls) = concat (map (split_char newline) ls) @ [[]]"
  using split_unlines_append [of ls "[]"] by simp

lemma split_head:
  "\<forall>l \<in> set ls. one_line l \<Longrightarrow> split_char newline (unlines ls @ r) = ls @ split_char newline r"
  by (induction ls) (simp_all add: one_line_def split_char_append)

lemma head_lines: "one_line ''apiVersion: v1''" "one_line ''kind: Pod''" "one_line ''kind: ConfigMap''" "one_line ''metadata:''"
  "one_line (''  name: '' @ n) \<longleftrightarrow> one_line n"
  by (simp_all add: one_line_def newline_def)

lemma head_take: "take 3 (pod_head n @ r) = [''apiVersion: v1'', ''kind: Pod'', ''metadata:'']" "(pod_head n @ r) ! 3 = ''  name: '' @ n"
  "drop 8 (''  name: '' @ n) = n" "length (pod_head n) = 4"
  by (simp_all add: pod_head_def)

lemma resource_of_pod: "one_line n \<Longrightarrow> resource_of (unlines (pod_head n @ rest)) = Some (Pod n)"
proof -
  assume n: "one_line n"
  have "\<forall>l \<in> set (pod_head n). one_line l" unfolding pod_head_def by (simp only: list.set ball_simps head_lines n simp_thms insert_iff)
  then have ls: "split_char newline (unlines (pod_head n @ rest)) = pod_head n @ split_char newline (unlines rest)"
    by (simp add: split_head)
  have "4 < length (pod_head n @ split_char newline (unlines rest))" by (simp add: head_take)
  then show ?thesis unfolding resource_of_def ls Let_def head_take by (simp only: HasPrefix_append simp_thms if_True)
qed

lemma resource_of_map:
  assumes n: "one_line n"
  shows "resource_of (unlines ([''apiVersion: v1'', ''kind: ConfigMap''] @ rest @ [''metadata:'', ''  name: '' @ n])) = Some (ConfigMap n)"
proof -
  define nm where "nm = ''  name: '' @ n"
  define hd2 where "hd2 = [''apiVersion: v1'', ''kind: ConfigMap'']"
  define mt where "mt = ''metadata:''"
  have 1: "\<forall>l \<in> set hd2. one_line l" unfolding hd2_def by (simp only: list.set ball_simps head_lines simp_thms insert_iff)
  have 2: "\<forall>l \<in> set [mt, nm]. one_line l" unfolding nm_def mt_def by (simp only: list.set ball_simps head_lines n simp_thms insert_iff)
  have ls: "split_char newline (unlines (hd2 @ rest @ [mt, nm])) = hd2 @ concat (map (split_char newline) rest) @ [mt, nm, []]"
    using split_head [OF 2, of "[]"] unfolding append_Nil2 unlines_simps(3) split_head [OF 1] unfolding split_unlines_append
    by (simp only: split_char.simps append.simps)
  have t: "take 3 (hd2 @ r) \<noteq> [''apiVersion: v1'', ''kind: Pod'', ''metadata:'']" "take 2 (hd2 @ r) = [''apiVersion: v1'', ''kind: ConfigMap'']" for r
    by (simp_all add: hd2_def)
  have r: "rev (hd2 @ x @ [mt, nm, []]) = [] # nm # mt # rev x @ rev hd2" for x by simp
  have d: "drop 8 nm = n" unfolding nm_def by simp
  have p: "HasPrefix nm ''  name: ''" unfolding nm_def by (rule HasPrefix_append)
  have "resource_of (unlines (hd2 @ rest @ [mt, nm])) = Some (ConfigMap n)"
    unfolding resource_of_def Let_def ls r t(2) by (simp only: t(1) list.case d p simp_thms if_False if_True)
  then show ?thesis unfolding hd2_def mt_def nm_def .
qed

interpretation mk: kubernetes mem_cluster resource_of "\<lambda>s. gget (mh_files s)" "\<lambda>s. map_of (mh_deployed s)"
proof
  show "\<And>n rest. one_line n \<Longrightarrow> resource_of (unlines (pod_head n @ rest)) = Some (Pod n)" by (rule resource_of_pod)
  show "\<And>n rest. one_line n \<Longrightarrow> resource_of (unlines ([''apiVersion: v1'', ''kind: ConfigMap''] @ rest @
      [''metadata:'', ''  name: '' @ n])) = Some (ConfigMap n)" by (rule resource_of_map)
qed (auto simp: mem_cluster_def mem_kubectl_def Let_def fun_eq_iff update_conv' delete_conv')

subsection \<open>The pods after a restart\<close>

lemma in_git_dir_inj [simp]: "in_git_dir H a = in_git_dir H b \<longleftrightarrow> a = b"
  by (simp add: in_git_dir_def)

lemma name_lines: "one_line ''sonic''" "one_line ''redis''" "one_line ''transyncd''" "one_line ''ofdpa''"
  "one_line ''sonic-config''" "one_line ''ofdpa-config''"
  by (simp_all add: one_line_def newline_def)


context kubernetes begin

lemma declares_texts:
  "declares (sonic_pod_text virtual) = Some (Pod SONIC_POD_NAME)"
  "declares (transyncd_pod_text virtual) = Some (Pod TRANSYNCD_POD_NAME)"
  "declares redis_pod_text = Some (Pod REDIS_POD_NAME)"
  unfolding SONIC_POD_NAME_def TRANSYNCD_POD_NAME_def REDIS_POD_NAME_def
  by (metis pod_texts(1) declares_pod name_lines(1), metis pod_texts(2) declares_pod name_lines(3),
      metis pod_texts(3) declares_pod name_lines(2))

text \<open>A pod file that is there declares the pod it is named after.\<close>

definition file_declares :: "'s \<Rightarrow> string \<Rightarrow> string \<Rightarrow> bool" where
  "file_declares s file n \<longleftrightarrow> (\<forall>x. files s (in_git_dir H file) = Some x \<longrightarrow> declares x = Some (Pod n))"

lemma pod_source_declares:
  "file_declares s file n \<Longrightarrow> declares body = Some (Pod n) \<Longrightarrow> declares (pod_source s file body) = Some (Pod n)"
  by (auto simp: pod_source_def file_declares_def split: option.split)

lemma RestartRedis_run:
  assumes "file_declares s REDIS_K8S_POD_CONFIG_NAME REDIS_POD_NAME"
  shows "\<exists>t. RestartRedis H s = (Inr (), t) \<and>
    files t = (files s)(in_git_dir H REDIS_K8S_POD_CONFIG_NAME \<mapsto> pod_source s REDIS_K8S_POD_CONFIG_NAME redis_pod_text) \<and>
    deployed t = (deployed s)(Pod REDIS_POD_NAME \<mapsto> pod_source s REDIS_K8S_POD_CONFIG_NAME redis_pod_text)"
  unfolding RestartRedis_def by (intro restart_run pod_source_declares assms declares_texts)

lemma RestartTransyncd_run:
  assumes "file_declares s TRANSYNCD_K8S_POD_CONFIG_NAME TRANSYNCD_POD_NAME"
  shows "\<exists>t. RestartTransyncd H virtual s = (Inr (), t) \<and>
    files t = (files s)(in_git_dir H TRANSYNCD_K8S_POD_CONFIG_NAME \<mapsto> pod_source s TRANSYNCD_K8S_POD_CONFIG_NAME (transyncd_pod_text virtual)) \<and>
    deployed t = (deployed s)(Pod TRANSYNCD_POD_NAME \<mapsto> pod_source s TRANSYNCD_K8S_POD_CONFIG_NAME (transyncd_pod_text virtual))"
  unfolding RestartTransyncd_def by (intro restart_run pod_source_declares assms declares_texts)

text \<open>A config map and a pod that mounts it.\<close>

lemma restart_with_map:
  assumes "one_line name" "name @ ''.yml'' \<noteq> file"
    and "file_declares s file n" "declares body = Some (Pod n)"
  shows "\<exists>t. pseq (createConfigMap H name config) (pseq (deletePod H n) (pod_from_file H file body)) s = (Inr (), t) \<and>
    files t = (files s)(in_git_dir H (name @ ''.yml'') \<mapsto> CONFIG_MAP_TEMPLATE name config,
      in_git_dir H file \<mapsto> pod_source s file body) \<and>
    deployed t = (deployed s)(ConfigMap name \<mapsto> CONFIG_MAP_TEMPLATE name config, Pod n \<mapsto> pod_source s file body)"
proof -
  obtain u where u: "createConfigMap H name config s = (Inr (), u)"
      "files u = (files s)(in_git_dir H (name @ ''.yml'') \<mapsto> CONFIG_MAP_TEMPLATE name config)"
      "deployed u = (deployed s)(ConfigMap name \<mapsto> CONFIG_MAP_TEMPLATE name config)"
    using createConfigMap_run [OF assms(1)] by blast
  have src: "pod_source u file body = pod_source s file body"
    using u(2) assms(2) by (simp add: pod_source_def)
  have "declares (pod_source u file body) = Some (Pod n)" unfolding src by (rule pod_source_declares [OF assms(3,4)])
  from restart_run [OF this] u src show ?thesis by (auto simp: res_simps)
qed

lemma RestartSONiC_run:
  assumes "file_declares s SONIC_K8S_POD_CONFIG_NAME SONIC_POD_NAME"
  shows "\<exists>t. RestartSONiC H config virtual s = (Inr (), t) \<and>
    files t = (files s)(in_git_dir H (SONIC_CONFIG_MAP_NAME @ ''.yml'') \<mapsto> CONFIG_MAP_TEMPLATE SONIC_CONFIG_MAP_NAME [(''config_db.json'', config)],
      in_git_dir H SONIC_K8S_POD_CONFIG_NAME \<mapsto> pod_source s SONIC_K8S_POD_CONFIG_NAME (sonic_pod_text virtual)) \<and>
    deployed t = (deployed s)(ConfigMap SONIC_CONFIG_MAP_NAME \<mapsto> CONFIG_MAP_TEMPLATE SONIC_CONFIG_MAP_NAME [(''config_db.json'', config)],
      Pod SONIC_POD_NAME \<mapsto> pod_source s SONIC_K8S_POD_CONFIG_NAME (sonic_pod_text virtual))"
  unfolding RestartSONiC_def createSONiCPod_def
  by (rule restart_with_map [OF _ _ assms declares_texts(1)])
    (simp_all add: SONIC_CONFIG_MAP_NAME_def SONIC_K8S_POD_CONFIG_NAME_def name_lines)

end

text \<open>
  C21: restarting SONiC. On a cluster that carries out its commands the restart succeeds whatever is
  deployed: afterwards the config map holds the new configuration and the pod runs. The
  description of the pod is the file that was there before, also when \<open>virtual\<close> has changed since it
  was written; only when there is none is it rendered for \<open>virtual\<close>.
\<close>

theorem RestartSONiC_deploys:
  assumes K: "kubernetes H declares files deployed"
    and podfile: "\<forall>x. files s (in_git_dir H SONIC_K8S_POD_CONFIG_NAME) = Some x \<longrightarrow> declares x = Some (Pod SONIC_POD_NAME)"
  shows "\<exists>t. RestartSONiC H config virtual s = (Inr (), t) \<and>
    deployed t = (deployed s)
      (ConfigMap SONIC_CONFIG_MAP_NAME \<mapsto> CONFIG_MAP_TEMPLATE SONIC_CONFIG_MAP_NAME [(''config_db.json'', config)],
       Pod SONIC_POD_NAME \<mapsto> (case files s (in_git_dir H SONIC_K8S_POD_CONFIG_NAME) of
         Some x \<Rightarrow> x | None \<Rightarrow> sonic_pod_text virtual))"
  using kubernetes.RestartSONiC_run [OF K, unfolded kubernetes.file_declares_def [OF K], OF podfile]
  unfolding kubernetes.pod_source_def [OF K] by blast

lemma RestartSONiC_deploys_witness:
  "\<exists>t. RestartSONiC mem_cluster ''{}'' True \<lparr>mh_files = [], mh_deployed = [(Pod ''sonic'', ''old'')]\<rparr> = (Inr (), t) \<and>
     map_of (mh_deployed t) (Pod ''sonic'') = Some (sonic_pod_text True)"
  using RestartSONiC_deploys [OF mk.kubernetes_axioms,
      where s = "\<lparr>mh_files = [], mh_deployed = [(Pod ''sonic'', ''old'')]\<rparr>" and config = "''{}''" and virtual = True]
  by (auto simp: SONIC_POD_NAME_def)

subsection \<open>The value of a config map\<close>

text \<open>The literal block of a key: the lines after \<open>key: |\<close> that are indented by four spaces, without the indent.\<close>

definition block_value :: "string \<Rightarrow> string \<Rightarrow> string" where
  "block_value k x =
     Join (map (drop 4) (takeWhile (\<lambda>l. HasPrefix l ''    '')
       (tl (dropWhile (\<lambda>l. l \<noteq> ''  '' @ k @ '': |'') (split_char newline x))))) [newline]"

definition plain_key :: "string \<Rightarrow> bool" where
  "plain_key k \<longleftrightarrow> one_line k \<and> CHR '' '' \<notin> set k"

lemma value_lines: "l \<in> set (split_char newline v) \<Longrightarrow> one_line l"
  using split_char_no_sep by (simp add: one_line_def)

lemma config_lines_one_line: "plain_key (fst kv) \<Longrightarrow> l \<in> set (config_lines kv) \<Longrightarrow> one_line l"
  using value_lines by (auto simp: config_lines_def plain_key_def one_line_def newline_def)

lemma key_line_eq: "plain_key k \<Longrightarrow> plain_key k' \<Longrightarrow> ''  '' @ k @ '': |'' = ''  '' @ k' @ '': |'' \<longleftrightarrow> k = k'"
  by simp

lemma indented_not_key: "plain_key k \<Longrightarrow> ''    '' @ l \<noteq> ''  '' @ k @ '': |''"
  by (cases k) (auto simp: plain_key_def)

lemma key_not_indented: "plain_key k \<Longrightarrow> \<not> HasPrefix (''  '' @ k @ '': |'') ''    ''"
  by (cases k) (auto simp: plain_key_def HasPrefix_def)

lemma config_lines_other:
  assumes "plain_key k" "plain_key k'" "k' \<noteq> k" "l \<in> set (config_lines (k', v))"
  shows "l \<noteq> ''  '' @ k @ '': |''"
proof -
  from assms(4) consider "l = ''  '' @ k' @ '': |''" | x where "l = ''    '' @ x"
    unfolding config_lines_def by auto
  then show ?thesis
  proof cases
    case 1
    with assms(3) key_line_eq [OF assms(1,2)] show ?thesis by simp
  next
    case 2
    with indented_not_key [OF assms(1)] show ?thesis by simp
  qed
qed

lemma header_not_key:
  "plain_key k \<Longrightarrow> l \<in> set [''apiVersion: v1'', ''kind: ConfigMap'', ''data:''] \<Longrightarrow> l \<noteq> ''  '' @ k @ '': |''"
  by auto

text \<open>
  The value of a config map survives its rendering: reading the block of a key back from the
  text gives the value, line breaks included, whatever the values of the other keys are.
\<close>

lemma config_map_roundtrip:
  assumes "gomap_ok config" "\<forall>k \<in> gkeys config. plain_key k" "one_line name" "gget config k = Some v"
  shows "block_value k (CONFIG_MAP_TEMPLATE name config) = v"
proof -
  from assms(4) obtain xs ys where split: "config = xs @ (k, v) # ys" by (metis gget_in_set split_list)
  have plain: "\<And>k' v'. (k', v') \<in> set config \<Longrightarrow> plain_key k'" using assms(2) by force
  have pk: "plain_key k" using plain [of k v] split by simp
  define hdr where "hdr = [''apiVersion: v1'', ''kind: ConfigMap'', ''data:'']"
  define foot where "foot = [[], ''metadata:'', ''  name: '' @ name]"
  define rest where "rest = concat (map config_lines ys) @ foot @ [[]]"
  let ?P = "\<lambda>l. l \<noteq> ''  '' @ k @ '': |''" and ?Q = "\<lambda>l. HasPrefix l ''    ''"
  have one: "one_line l" if "l \<in> set (hdr @ concat (map config_lines config) @ foot)" for l
  proof -
    from that consider "l \<in> set hdr" | "l \<in> set foot" | a b where "(a, b) \<in> set config" "l \<in> set (config_lines (a, b))" by auto
    then show ?thesis
    proof cases
      case 1
      then show ?thesis by (auto simp: hdr_def one_line_def newline_def)
    next
      case 2
      with assms(3) show ?thesis by (auto simp: foot_def one_line_def newline_def)
    next
      case 3
      with config_lines_one_line [of "(a, b)"] plain [of a b] show ?thesis by simp
    qed
  qed
  have ls: "split_char newline (CONFIG_MAP_TEMPLATE name config) = hdr @ concat (map config_lines config) @ foot @ [[]]"
    using split_unlines [of "hdr @ concat (map config_lines config) @ foot"] one
    unfolding CONFIG_MAP_TEMPLATE_def hdr_def foot_def by simp
  have before: "?P l" if l: "l \<in> set (hdr @ concat (map config_lines xs))" for l
  proof -
    from l consider "l \<in> set hdr" | k' v' where "(k', v') \<in> set xs" "l \<in> set (config_lines (k', v'))" by auto
    then show ?thesis
    proof cases
      case 1
      then show ?thesis using header_not_key [OF pk] unfolding hdr_def by blast
    next
      case 2
      moreover have "k' \<noteq> k" using 2(1) assms(1) split by (force simp: gomap_ok_def)
      moreover have "plain_key k'" using plain [of k' v'] 2(1) split by simp
      ultimately show ?thesis using config_lines_other [OF pk] by blast
    qed
  qed
  have shape: "hdr @ concat (map config_lines config) @ foot @ [[]] =
      (hdr @ concat (map config_lines xs)) @ (''  '' @ k @ '': |'') # map (\<lambda>l. ''    '' @ l) (split_char newline v) @ rest"
    by (simp add: split rest_def config_lines_def)
  have stop: "takeWhile ?Q rest = []"
  proof (cases ys)
    case Nil
    then show ?thesis by (simp add: rest_def foot_def HasPrefix_def)
  next
    case (Cons y ys')
    then have "plain_key (fst y)" using plain [of "fst y" "snd y"] split by simp
    from key_not_indented [OF this] show ?thesis unfolding rest_def Cons config_lines_def by simp
  qed
  have indented: "?Q l" if "l \<in> set (map (\<lambda>l. ''    '' @ l) (split_char newline v))" for l
    using that HasPrefix_append [of "''    ''"] by auto
  define key where "key = ''  '' @ k @ '': |''"
  define block where "block = map (\<lambda>l. ''    '' @ l) (split_char newline v)"
  define pre where "pre = hdr @ concat (map config_lines xs)"
  have "dropWhile (\<lambda>l. l \<noteq> key) (pre @ key # block @ rest) = key # block @ rest"
    by (subst dropWhile_append2) (use before in \<open>auto simp: key_def pre_def\<close>)
  moreover have "takeWhile ?Q (block @ rest) = block"
    by (subst takeWhile_append2) (use indented stop in \<open>simp_all add: block_def\<close>)
  ultimately have "takeWhile ?Q (tl (dropWhile (\<lambda>l. l \<noteq> key) (pre @ key # block @ rest))) = block" by simp
  moreover have "map (drop 4) block = split_char newline v" by (simp add: block_def comp_def)
  ultimately show ?thesis
    unfolding block_value_def ls shape key_def [symmetric] block_def [symmetric] pre_def [symmetric] by (simp only: Join_split_char)
qed

end
