(* ===== verification/Ofdpa.thy ===== *)
theory Ofdpa
  imports Cluster
begin

section \<open>The OF-DPA configuration (cmd/oopt/ofdpa.go)\<close>

text \<open>
  The switch chip reads its port modes from a text that \<open>NewOFDPAConfigFromModel\<close> renders: a line per
  port of the model and two lines per line port. \<open>RestartOFDPA\<close> stores the text in a config map and
  restarts the pod. \<open>NewPort\<close> ends the process on an index that is not on the board.
\<close>

definition OFDPA_POD_NAME :: string where "OFDPA_POD_NAME = ''ofdpa''"
definition OFDPA_CONFIG_MAP_NAME :: string where "OFDPA_CONFIG_MAP_NAME = ''ofdpa-config''"
definition OFDPA_K8S_POD_CONFIG_NAME :: string where "OFDPA_K8S_POD_CONFIG_NAME = ''ofdpa.yml''"

definition OFDPA_K8S_POD_CONFIG_TEMPLATE :: template where
  "OFDPA_K8S_POD_CONFIG_TEMPLATE =
     [[Tx ''apiVersion: v1''],
      [Tx ''kind: Pod''],
      [Tx ''metadata:''],
      [Tx ''  name: '', Fd ''Name''],
      [Tx ''spec:''],
      [Tx ''  volumes:''],
      [Tx ''  - name: usr''],
      [Tx ''    hostPath:''],
      [Tx ''      path: /usr''],
      [Tx ''  - name: dev''],
      [Tx ''    hostPath:''],
      [Tx ''      path: /dev''],
      [Tx ''  - name: etc''],
      [Tx ''    hostPath:''],
      [Tx ''      path: /etc''],
      [Tx ''  - name: tmp''],
      [Tx ''    hostPath:''],
      [Tx ''      path: /tmp''],
      [Tx ''  - name: lib''],
      [Tx ''    hostPath:''],
      [Tx ''      path: /lib''],
      [Tx ''  - name: '', Fd ''OfdpaConfigMapName''],
      [Tx ''    configMap:''],
      [Tx ''      name: '', Fd ''OfdpaConfigMapName''],
      [Tx ''  hostNetwork: true''],
      [Tx ''  containers:''],
      [Tx ''  - name: '', Fd ''Name''],
      [Tx ''    image: '', Fd ''Image''],
      [Tx ''    imagePullPolicy: Never''],
      [Tx ''    volumeMounts:''],
      [Tx ''    - mountPath: /usr''],
      [Tx ''      name: usr''],
      [Tx ''    - mountPath: /dev''],
      [Tx ''      name: dev''],
      [Tx ''    - mountPath: /etc''],
      [Tx ''      name: etc''],
      [Tx ''    - mountPath: /tmp''],
      [Tx ''      name: tmp''],
      [Tx ''    - mountPath: /lib''],
      [Tx ''      name: lib''],
      [Tx ''    - mountPath: /etc/accton''],
      [Tx ''      name: '', Fd ''OfdpaConfigMapName''],
      [Tx ''    securityContext:''],
      [Tx ''      privileged: true''],
      [Tx ''    command:''],
      [Tx ''    - ofagentapp'']]"

subsection \<open>Ports\<close>

definition ofdpaPortMap :: "(int \<times> int) list" where
  "ofdpaPortMap =
     [(1, 68), (2, 72), (3, 76), (4, 80), (5, 96), (6, 106), (7, 110), (8, 114),
      (9, 118), (10, 122), (11, 126), (12, 130), (13, 84), (14, 88), (15, 92), (16, 102),
      (17, 38), (18, 34), (19, 46), (20, 42), (21, 54), (22, 50), (23, 62), (24, 58),
      (25, 5), (26, 1), (27, 13), (28, 9), (29, 21), (30, 17), (31, 25), (32, 29)]"

record OFDPAPort =
  op_NumChannels :: int
  op_ChannelSpeed :: int
  op_Index :: int
  op_OFDPAIndex :: int

definition NewPort_ofdpa :: "int \<Rightarrow> int \<Rightarrow> int \<Rightarrow> OFDPAPort res" where
  "NewPort_ofdpa index numChannels channelSpeed =
     (case map_of ofdpaPortMap index of
        None \<Rightarrow> Inl (Fatal ''invalid index'')
      | Some ofdpaIndex \<Rightarrow>
          Inr \<lparr>op_NumChannels = numChannels, op_ChannelSpeed = channelSpeed, op_Index = index, op_OFDPAIndex = ofdpaIndex\<rparr>)"

subsection \<open>Rendering\<close>

definition even_index :: "int \<Rightarrow> bool" where
  "even_index i \<longleftrightarrow> i mod 2 = 0"

text \<open>Only used above index 16, where Go's quotient is \<open>div\<close>.\<close>

definition cfp :: "int \<Rightarrow> int" where
  "cfp i = (i + 1 - 16) div 2"

definition OFDPA_CONFIG_HEADER :: "string list" where
  "OFDPA_CONFIG_HEADER =
     [''#'',
      ''# ofdpa configuration for as7716-24xc'',
      ''#'',
      ''#'',
      ''# port_mode_<logic-port>=1x100g (default) | 1x40g | 2x50g | 2x40g | 2x20g | 4x25g | 4x10g'',
      ''#'',
      ''# the last 8 ports (CFP2 ports) can be 200g ports by using the following config'',
      ''#    port_mode_<logic-port>=2x100g'',
      ''#    e.g. port_mode_38=2x100g'',
      ''#'',
      ''#'',
      ''# adding if=XXX after port_mod_XX=XXXg can config interface type (note: ONE space between them)'',
      ''#        default setting is SR4 for 100g ports at initial stage'',
      ''#        valid interface type: CR, CR4, SR, SR4, LR, LR4, KR, KR4, SFI, XFI,...'',
      ''# e.g.'',
      ''# port_mode_68=1x100g if=CR4'',
      ''#'']"

definition port_lines :: "OFDPAPort \<Rightarrow> string list" where
  "port_lines p =
     (''port_mode_'' @ itoa (op_OFDPAIndex p) @ ''='' @ itoa (op_NumChannels p) @ ''x'' @ itoa (op_ChannelSpeed p) @ ''g #'' @
       (if op_Index p > 16 then '' module '' else '' front '') @ ''port '' @ itoa (op_Index p) @
       (if op_Index p > 16 \<and> even_index (op_Index p) then '' ; CFP2 port '' @ itoa (cfp (op_Index p)) else [])) #
     (if op_Index p > 16 then [''port_fec_'' @ itoa (op_OFDPAIndex p) @ ''=1''] else [])"

definition genOFDPAConf :: "OFDPAPort list \<Rightarrow> string" where
  "genOFDPAConf ports = unlines (OFDPA_CONFIG_HEADER @ concat (map port_lines ports))"

definition channel_speed :: "ETHERNET_SPEED \<Rightarrow> int" where
  "channel_speed s =
     (case s of SPEED_10GB \<Rightarrow> 10 | SPEED_25GB \<Rightarrow> 25 | SPEED_40GB \<Rightarrow> 40 | SPEED_50GB \<Rightarrow> 50 | _ \<Rightarrow> 100)"

definition add_ofdpa_port :: "string \<times> PacketTransponder_Port \<Rightarrow> OFDPAPort list \<Rightarrow> OFDPAPort list res" where
  "add_ofdpa_port kv ports =
     (let k = fst kv; v = snd kv in
      if \<not> HasPrefix k ''Port'' then Inl (Errorf ''invalid port name: %s'' [k])
      else res_bind (slice_from k 4) (\<lambda>digits.
        res_bind (Atoi digits) (\<lambda>index.
        res_bind (deref (pt_BreakoutMode v)) (\<lambda>b.
        res_bind (deref (bm_NumChannels b)) (\<lambda>ch.
        res_bind (NewPort_ofdpa index (uint ch) (channel_speed (bm_ChannelSpeed b))) (\<lambda>p.
          Inr (ports @ [p])))))))"

definition add_module_port :: "nat \<Rightarrow> OFDPAPort list \<Rightarrow> OFDPAPort list res" where
  "add_module_port i ports = res_bind (NewPort_ofdpa (int i) 1 100) (\<lambda>p. Inr (ports @ [p]))"

definition NewOFDPAConfigFromModel :: "PacketTransponder \<Rightarrow> string res" where
  "NewOFDPAConfigFromModel m =
     res_bind (for_res add_ofdpa_port (Port m) []) (\<lambda>ports.
     res_bind (for_res add_module_port [17..<33] ports) (\<lambda>ports.
       Inr (genOFDPAConf ports)))"

subsection \<open>The pod\<close>

definition ofdpa_pod_text :: string where
  "ofdpa_pod_text =
     render [(''Name'', ''ofdpa''), (''Image'', ''debian:jessie''), (''OfdpaConfigMapName'', OFDPA_CONFIG_MAP_NAME)]
       OFDPA_K8S_POD_CONFIG_TEMPLATE"

definition createOFDPAPod :: "'s host_ops \<Rightarrow> ('s, unit) prog" where
  "createOFDPAPod H = pod_from_file H OFDPA_K8S_POD_CONFIG_NAME ofdpa_pod_text"

definition RestartOFDPA :: "'s host_ops \<Rightarrow> string \<Rightarrow> ('s, unit) prog" where
  "RestartOFDPA H config =
     pseq (createConfigMap H OFDPA_CONFIG_MAP_NAME [(''ofdpa.conf'', config)])
     (pseq (deletePod H OFDPA_POD_NAME)
       (createOFDPAPod H))"

subsection \<open>Indices\<close>

lemma ofdpaPortMap_keys: "fst ` set ofdpaPortMap = {1..32}"
  by code_simp

lemma ofdpaPortMap_distinct: "distinct (map snd ofdpaPortMap)" "distinct (map fst ofdpaPortMap)"
  by code_simp+

lemma ofdpaPortMap_in: "(\<exists>j. map_of ofdpaPortMap i = Some j) \<longleftrightarrow> 1 \<le> i \<and> i \<le> 32"
  using ofdpaPortMap_keys by (metis atLeastAtMost_iff map_of_eq_None_iff not_None_eq)

lemma ofdpaPortMap_inj:
  assumes "map_of ofdpaPortMap i = Some k" "map_of ofdpaPortMap j = Some k"
  shows "i = j"
proof -
  have "(i, k) \<in> set ofdpaPortMap" "(j, k) \<in> set ofdpaPortMap" using assms by (auto dest: map_of_SomeD)
  moreover have "inj_on snd (set ofdpaPortMap)" using ofdpaPortMap_distinct(1) by (simp add: distinct_map)
  ultimately show ?thesis by (metis inj_onD prod.inject snd_conv)
qed

lemma NewPort_ofdpa_Inr:
  "NewPort_ofdpa i n s = Inr p \<longleftrightarrow>
     (\<exists>j. map_of ofdpaPortMap i = Some j \<and> p = \<lparr>op_NumChannels = n, op_ChannelSpeed = s, op_Index = i, op_OFDPAIndex = j\<rparr>)"
  by (auto simp: NewPort_ofdpa_def split: option.split)

subsection \<open>The ports of a model\<close>

text \<open>The OF-DPA port of a model's port, when there is one.\<close>

definition port_index :: "string \<Rightarrow> int option" where
  "port_index k = (if HasPrefix k ''Port'' then (case Atoi (drop 4 k) of Inl e \<Rightarrow> None | Inr i \<Rightarrow> Some i) else None)"

definition ofdpa_accepted :: "string \<Rightarrow> PacketTransponder_Port \<Rightarrow> bool" where
  "ofdpa_accepted k v \<longleftrightarrow> (\<exists>i. port_index k = Some i \<and> 1 \<le> i \<and> i \<le> 32) \<and>
     (\<exists>b. pt_BreakoutMode v = Some b \<and> bm_NumChannels b \<noteq> None)"

definition ofdpa_port :: "string \<times> PacketTransponder_Port \<Rightarrow> OFDPAPort" where
  "ofdpa_port kv =
     (let i = the (port_index (fst kv)); b = the (pt_BreakoutMode (snd kv))
      in \<lparr>op_NumChannels = uint (the (bm_NumChannels b)), op_ChannelSpeed = channel_speed (bm_ChannelSpeed b),
          op_Index = i, op_OFDPAIndex = the (map_of ofdpaPortMap i)\<rparr>)"

lemma prefix_slice: "HasPrefix k ''Port'' \<Longrightarrow> slice_from k 4 = Inr (drop 4 k)"
  by (auto simp: HasPrefix_iff slice_from_def)

lemma add_ofdpa_port_run:
  "add_ofdpa_port (k, v) ps = (if ofdpa_accepted k v then Inr (ps @ [ofdpa_port (k, v)]) else add_ofdpa_port (k, v) ps)"
proof (cases "ofdpa_accepted k v")
  case True
  then obtain i b ch j where "port_index k = Some i" "pt_BreakoutMode v = Some b" "bm_NumChannels b = Some ch" "map_of ofdpaPortMap i = Some j"
    using ofdpaPortMap_in unfolding ofdpa_accepted_def by (metis not_None_eq)
  then show ?thesis using True
    by (auto simp: add_ofdpa_port_def ofdpa_port_def port_index_def prefix_slice NewPort_ofdpa_def split: if_splits sum.splits)
qed simp

lemma add_ofdpa_port_Inr:
  assumes "add_ofdpa_port (k, v) ps = Inr qs"
  shows "ofdpa_accepted k v"
proof -
  from assms have p: "HasPrefix k ''Port''" by (auto simp: add_ofdpa_port_def split: if_splits)
  from assms obtain i b ch q where "Atoi (drop 4 k) = Inr i" "pt_BreakoutMode v = Some b" "bm_NumChannels b = Some ch"
      "NewPort_ofdpa i (uint ch) (channel_speed (bm_ChannelSpeed b)) = Inr q"
    by (auto simp: add_ofdpa_port_def p prefix_slice res_bind_Inr deref_def split: option.splits)
  then show ?thesis using p ofdpaPortMap_in by (auto simp: ofdpa_accepted_def port_index_def NewPort_ofdpa_Inr)
qed

lemma add_ofdpa_port_iff:
  "add_ofdpa_port (k, v) ps = Inr qs \<longleftrightarrow> ofdpa_accepted k v \<and> qs = ps @ [ofdpa_port (k, v)]"
  using add_ofdpa_port_run [of k v ps] add_ofdpa_port_Inr [of k v ps qs] by auto

lemma for_ofdpa_ports:
  "for_res add_ofdpa_port kvs ps = Inr qs \<longleftrightarrow>
     (\<forall>(k, v) \<in> set kvs. ofdpa_accepted k v) \<and> qs = ps @ map ofdpa_port kvs"
proof (induction kvs arbitrary: ps)
  case (Cons kv kvs)
  obtain k v where "kv = (k, v)" by (cases kv)
  then show ?case by (auto simp: res_bind_Inr add_ofdpa_port_iff Cons.IH)
qed auto

definition module_port :: "nat \<Rightarrow> OFDPAPort" where
  "module_port i = \<lparr>op_NumChannels = 1, op_ChannelSpeed = 100, op_Index = int i, op_OFDPAIndex = the (map_of ofdpaPortMap (int i))\<rparr>"

lemma for_module_ports:
  "\<forall>i \<in> set is. 17 \<le> i \<and> i < 33 \<Longrightarrow> for_res add_module_port is ps = Inr (ps @ map module_port is)"
proof (induction "is" arbitrary: ps)
  case (Cons i "is")
  then obtain j where "map_of ofdpaPortMap (int i) = Some j" using ofdpaPortMap_in [of "int i"] by auto
  then have "add_module_port i ps = Inr (ps @ [module_port i])"
    by (simp add: add_module_port_def NewPort_ofdpa_def module_port_def)
  with Cons show ?case by simp
qed simp

lemma config_from_model:
  "NewOFDPAConfigFromModel m = Inr x \<longleftrightarrow>
     (\<forall>(k, v) \<in> set (Port m). ofdpa_accepted k v) \<and> x = genOFDPAConf (map ofdpa_port (Port m) @ map module_port [17..<33])"
proof -
  have "\<forall>i \<in> set [17..<33]. (17::nat) \<le> i \<and> i < 33" unfolding set_upt by simp
  note lp = for_module_ports [OF this]
  show ?thesis
    unfolding NewOFDPAConfigFromModel_def res_bind_Inr for_ofdpa_ports lp by auto
qed

text \<open>
  C36: the OF-DPA configuration can be computed exactly when every port is named \<open>Port<i>\<close> with
  an index of the board and has a breakout mode with a channel number; a port without one panics and an index off
  the board ends the process. The text then has the lines of the model's ports, in the order they are visited,
  followed by those of the sixteen line ports.
\<close>

theorem NewOFDPAConfigFromModel_succeeds_iff:
  "((\<exists>x. NewOFDPAConfigFromModel m = Inr x) \<longleftrightarrow> (\<forall>(k, v) \<in> set (Port m). ofdpa_accepted k v)) \<and>
   (\<forall>x. NewOFDPAConfigFromModel m = Inr x \<longrightarrow>
      x = unlines (OFDPA_CONFIG_HEADER @ concat (map port_lines (map ofdpa_port (Port m) @ map module_port [17..<33]))))"
  unfolding config_from_model genOFDPAConf_def by blast

lemma NewOFDPAConfigFromModel_succeeds_iff_witness:
  "\<exists>x. NewOFDPAConfigFromModel zero_PacketTransponder = Inr x"
  using conjunct1 [OF NewOFDPAConfigFromModel_succeeds_iff, of zero_PacketTransponder] by (simp add: zero_PacketTransponder_def)

subsection \<open>The logical ports of a text\<close>

text \<open>The logical ports a text sets a mode for: the digits between \<open>port_mode_\<close> and the equals sign.\<close>

definition mode_ports :: "string \<Rightarrow> string list" where
  "mode_ports x =
     map (\<lambda>l. takeWhile (\<lambda>c. c \<noteq> CHR ''='') (drop 10 l)) (filter (\<lambda>l. HasPrefix l ''port_mode_'') (split_char newline x))"

definition fec_ports :: "string \<Rightarrow> string list" where
  "fec_ports x =
     map (\<lambda>l. takeWhile (\<lambda>c. c \<noteq> CHR ''='') (drop 9 l)) (filter (\<lambda>l. HasPrefix l ''port_fec_'') (split_char newline x))"

lemma itoa_nat_chars: "CHR ''='' \<notin> set (itoa_nat n)" "newline \<notin> set (itoa_nat n)"
  using itoa_nat_digits by (fastforce simp: is_digit_def digit_val_def newline_def)+

lemma itoa_chars: "CHR ''='' \<notin> set (itoa i)" "newline \<notin> set (itoa i)"
  using itoa_nat_chars by (auto simp: itoa_def newline_def)

lemma one_line_append [simp]: "one_line (a @ b) \<longleftrightarrow> one_line a \<and> one_line b"
  by (auto simp: one_line_def)

lemma one_line_itoa [simp]: "one_line (itoa i)"
  using itoa_chars by (simp add: one_line_def)

lemma port_lines_one_line: "l \<in> set (port_lines p) \<Longrightarrow> one_line l"
  by (auto simp: port_lines_def split: if_splits) (auto simp: one_line_def newline_def itoa_chars [unfolded newline_def])

lemma takeWhile_eq: "CHR ''='' \<notin> set a \<Longrightarrow> takeWhile (\<lambda>c. c \<noteq> CHR ''='') (a @ CHR ''='' # r) = a"
  by (induction a) auto

lemma port_lines_mode:
  "filter (\<lambda>l. HasPrefix l ''port_mode_'') (port_lines p) = [hd (port_lines p)]"
  "takeWhile (\<lambda>c. c \<noteq> CHR ''='') (drop 10 (hd (port_lines p))) = itoa (op_OFDPAIndex p)"
  by (simp_all add: port_lines_def HasPrefix_def takeWhile_eq itoa_chars)

lemma header_lines: "filter (\<lambda>l. HasPrefix l ''port_mode_'') OFDPA_CONFIG_HEADER = []" "\<forall>l \<in> set OFDPA_CONFIG_HEADER. one_line l"
  by code_simp+

lemma mode_ports_text: "mode_ports (genOFDPAConf ps) = map (\<lambda>p. itoa (op_OFDPAIndex p)) ps"
proof -
  have "\<forall>l \<in> set (OFDPA_CONFIG_HEADER @ concat (map port_lines ps)). one_line l"
    using header_lines(2) port_lines_one_line by auto
  from split_unlines [OF this]
  have ls: "split_char newline (genOFDPAConf ps) = OFDPA_CONFIG_HEADER @ concat (map port_lines ps) @ [[]]"
    by (simp add: genOFDPAConf_def)
  have "map (\<lambda>l. takeWhile (\<lambda>c. c \<noteq> CHR ''='') (drop 10 l)) (filter (\<lambda>l. HasPrefix l ''port_mode_'') (concat (map port_lines ps))) =
      map (\<lambda>p. itoa (op_OFDPAIndex p)) ps"
    by (induction ps) (simp_all add: port_lines_mode)
  moreover have "filter (\<lambda>l. HasPrefix l ''port_mode_'') [[]] = []" by code_simp
  ultimately show ?thesis unfolding mode_ports_def ls filter_append header_lines(1) map_append by simp
qed

lemma modes_of_indices:
  assumes "distinct idx" "\<forall>i \<in> set idx. 1 \<le> i \<and> i \<le> 32"
  shows "distinct (map (\<lambda>i. itoa (the (map_of ofdpaPortMap i))) idx)"
    and "set (map (\<lambda>i. itoa (the (map_of ofdpaPortMap i))) idx) = {itoa j | i j. map_of ofdpaPortMap i = Some j \<and> i \<in> set idx}"
proof -
  have some: "\<exists>j. map_of ofdpaPortMap i = Some j" if "i \<in> set idx" for i
    using that assms(2) ofdpaPortMap_in by blast
  have "inj_on (\<lambda>i. itoa (the (map_of ofdpaPortMap i))) (set idx)"
  proof (rule inj_onI)
    fix a b assume ab: "a \<in> set idx" "b \<in> set idx" "itoa (the (map_of ofdpaPortMap a)) = itoa (the (map_of ofdpaPortMap b))"
    obtain u v where uv: "map_of ofdpaPortMap a = Some u" "map_of ofdpaPortMap b = Some v" using some ab by blast
    with ab(3) have "u = v" by (simp only: option.sel itoa_inj)
    with uv show "a = b" using ofdpaPortMap_inj by blast
  qed
  then show "distinct (map (\<lambda>i. itoa (the (map_of ofdpaPortMap i))) idx)"
    using assms(1) unfolding distinct_map by blast
  show "set (map (\<lambda>i. itoa (the (map_of ofdpaPortMap i))) idx) = {itoa j | i j. map_of ofdpaPortMap i = Some j \<and> i \<in> set idx}"
    (is "_ = ?R")
  proof (rule set_eqI)
    fix y
    have "y \<in> ?R \<longleftrightarrow> (\<exists>i \<in> set idx. y = itoa (the (map_of ofdpaPortMap i)))" unfolding mem_Collect_eq using some by (metis option.sel)
    then show "y \<in> set (map (\<lambda>i. itoa (the (map_of ofdpaPortMap i))) idx) \<longleftrightarrow> y \<in> ?R" unfolding set_map by blast
  qed
qed

text \<open>The indices of the ports of a transponder, and of the line ports.\<close>

definition port_indices :: "PacketTransponder_Port gomap \<Rightarrow> int list" where
  "port_indices ps = map (\<lambda>k. the (port_index k)) (map fst ps) @ map int [17..<33]"

definition front_ports :: "PacketTransponder_Port gomap \<Rightarrow> bool" where
  "front_ports ps \<longleftrightarrow> gomap_ok ps \<and> (\<forall>k \<in> gkeys ps. \<exists>i \<in> {1..16}. k = port_name_of i)"

lemma port_index_name: "port_index (port_name_of i) = Some (int i)" if "i < 2 ^ 63"
  using that by (simp add: port_index_def port_name_of_def HasPrefix_def Atoi_itoa_nat)

lemma front_portE:
  assumes "front_ports ps" "k \<in> gkeys ps"
  obtains i where "1 \<le> i" "i \<le> 16" "k = port_name_of i" "port_index k = Some (int i)"
proof -
  from assms obtain i where "i \<in> {1..16}" "k = port_name_of i" unfolding front_ports_def by blast
  with port_index_name [of i] that show ?thesis by simp
qed

lemma port_indices_set:
  assumes "front_ports ps"
  shows "i \<in> set (port_indices ps) \<longleftrightarrow> 17 \<le> i \<and> i \<le> 32 \<or> (\<exists>k \<in> gkeys ps. port_index k = Some i)"
proof -
  have "i \<in> int ` {17..<33} \<longleftrightarrow> 17 \<le> i \<and> i \<le> 32" by (auto simp: image_iff intro!: bexI [of _ "nat i"])
  moreover have "i \<in> (\<lambda>k. the (port_index k)) ` gkeys ps \<longleftrightarrow> (\<exists>k \<in> gkeys ps. port_index k = Some i)"
  proof
    assume "i \<in> (\<lambda>k. the (port_index k)) ` gkeys ps"
    then obtain k where k: "k \<in> gkeys ps" "i = the (port_index k)" by (rule imageE)
    from front_portE [OF assms k(1)] k(2) have "port_index k = Some i" by (metis option.sel)
    with k(1) show "\<exists>k \<in> gkeys ps. port_index k = Some i" ..
  qed (metis image_eqI option.sel)
  ultimately show ?thesis unfolding port_indices_def set_append set_map set_upt by blast
qed

lemma port_indices_ok:
  assumes "front_ports ps"
  shows "distinct (port_indices ps)" "\<forall>i \<in> set (port_indices ps). 1 \<le> i \<and> i \<le> 32"
proof -
  have small: "1 \<le> i \<and> i \<le> 16" if "k \<in> gkeys ps" "port_index k = Some i" for k i
    using front_portE [OF assms that(1)] that(2) by (metis int_ops(2) of_nat_le_iff of_nat_numeral option.inject)
  show "\<forall>i \<in> set (port_indices ps). 1 \<le> i \<and> i \<le> 32"
    using port_indices_set [OF assms] small by force
  have "inj_on (\<lambda>k. the (port_index k)) (gkeys ps)"
  proof (rule inj_onI)
    fix k k' assume k: "k \<in> gkeys ps" "k' \<in> gkeys ps" "the (port_index k) = the (port_index k')"
    show "k = k'" by (rule front_portE [OF assms k(1)], rule front_portE [OF assms k(2)]) (use k(3) in simp)
  qed
  then have "distinct (map (\<lambda>k. the (port_index k)) (map fst ps))"
    using assms unfolding front_ports_def gomap_ok_def distinct_map set_map by blast
  moreover have "distinct (map int [17..<33])" unfolding distinct_map by (simp only: distinct_upt inj_on_of_nat simp_thms)
  moreover have "(\<lambda>k. the (port_index k)) ` gkeys ps \<inter> int ` {17..<33} = {}"
  proof -
    have "the (port_index k) \<le> 16" if "k \<in> gkeys ps" for k
      by (rule front_portE [OF assms that]) simp
    then show ?thesis by fastforce
  qed
  ultimately show "distinct (port_indices ps)"
    unfolding port_indices_def distinct_append set_map set_upt by blast
qed


definition sample_ports :: "PacketTransponder_Port gomap" where
  "sample_ports = [(port_name_of 3, zero_Port\<lparr>pt_BreakoutMode := Some \<lparr>bm_ChannelSpeed = SPEED_40GB, bm_NumChannels = Some 1\<rparr>\<rparr>)]"


subsection \<open>The restart\<close>

lemma ofdpa_pod: "\<exists>rest. ofdpa_pod_text = unlines (pod_head ''ofdpa'' @ rest)"
proof -
  let ?ls = "render_lines [(''Name'', ''ofdpa''), (''Image'', ''debian:jessie''), (''OfdpaConfigMapName'', OFDPA_CONFIG_MAP_NAME)] OFDPA_K8S_POD_CONFIG_TEMPLATE"
  have "take 4 ?ls = pod_head ''ofdpa''" by code_simp
  then show ?thesis unfolding ofdpa_pod_text_def render_def by (metis append_take_drop_id)
qed

context kubernetes begin

lemma RestartOFDPA_run:
  assumes "file_declares s OFDPA_K8S_POD_CONFIG_NAME OFDPA_POD_NAME"
  shows "\<exists>t. RestartOFDPA H config s = (Inr (), t) \<and>
    files t = (files s)(in_git_dir H (OFDPA_CONFIG_MAP_NAME @ ''.yml'') \<mapsto> CONFIG_MAP_TEMPLATE OFDPA_CONFIG_MAP_NAME [(''ofdpa.conf'', config)],
      in_git_dir H OFDPA_K8S_POD_CONFIG_NAME \<mapsto> pod_source s OFDPA_K8S_POD_CONFIG_NAME ofdpa_pod_text) \<and>
    deployed t = (deployed s)(ConfigMap OFDPA_CONFIG_MAP_NAME \<mapsto> CONFIG_MAP_TEMPLATE OFDPA_CONFIG_MAP_NAME [(''ofdpa.conf'', config)],
      Pod OFDPA_POD_NAME \<mapsto> pod_source s OFDPA_K8S_POD_CONFIG_NAME ofdpa_pod_text)"
proof -
  have "declares ofdpa_pod_text = Some (Pod OFDPA_POD_NAME)"
    using ofdpa_pod declares_pod [OF name_lines(4)] unfolding OFDPA_POD_NAME_def by metis
  note d = this
  show ?thesis
    unfolding RestartOFDPA_def createOFDPAPod_def
    by (rule restart_with_map [OF _ _ assms d])
      (simp_all add: OFDPA_CONFIG_MAP_NAME_def OFDPA_K8S_POD_CONFIG_NAME_def name_lines)
qed

end

subsection \<open>Mounted volumes\<close>

text \<open>The volumes that a pod description declares, and those that its containers mount.\<close>

definition pod_volumes :: "string list \<Rightarrow> string list" where
  "pod_volumes ls =
     map (drop 10) (filter (\<lambda>l. HasPrefix l ''  - name: '')
       (takeWhile (\<lambda>l. l \<noteq> ''  initContainers:'' \<and> l \<noteq> ''  containers:'') (dropWhile (\<lambda>l. l \<noteq> ''  volumes:'') ls)))"

fun pod_mounts :: "string list \<Rightarrow> string list" where
  "pod_mounts (l # l' # ls) =
     (if HasPrefix l ''    - mountPath: '' then drop 12 l' # pod_mounts ls else pod_mounts (l' # ls))"
| "pod_mounts _ = []"

text \<open>
  Every volume a container of the four pods mounts is declared by its pod, and the config maps that
  the SONiC and OF-DPA pods mount are the ones that their restart writes.
\<close>

lemma pod_volumes_declared:
  "set (pod_mounts (split_char newline (sonic_pod_text virtual))) \<subseteq> set (pod_volumes (split_char newline (sonic_pod_text virtual))) \<and>
   set (pod_mounts (split_char newline (transyncd_pod_text virtual))) \<subseteq> set (pod_volumes (split_char newline (transyncd_pod_text virtual))) \<and>
   set (pod_mounts (split_char newline redis_pod_text)) \<subseteq> set (pod_volumes (split_char newline redis_pod_text)) \<and>
   set (pod_mounts (split_char newline ofdpa_pod_text)) \<subseteq> set (pod_volumes (split_char newline ofdpa_pod_text)) \<and>
   ''      name: '' @ SONIC_CONFIG_MAP_NAME \<in> set (split_char newline (sonic_pod_text virtual)) \<and>
   ''      name: '' @ OFDPA_CONFIG_MAP_NAME \<in> set (split_char newline ofdpa_pod_text)"
proof -
  have S: "set (pod_mounts (ls @ [[]])) \<subseteq> set (pod_volumes (ls @ [[]])) \<and> n \<in> set (ls @ [[]])"
    if "ls = render_lines [(''Name'', ''sonic''), (''Image'', v), (''SonicConfigMapName'', SONIC_CONFIG_MAP_NAME)] SONIC_K8S_POD_CONFIG_TEMPLATE"
      "n = ''      name: '' @ SONIC_CONFIG_MAP_NAME" "v = ''sonic:virtual'' \<or> v = ''sonic''" for v ls n
    using that(3) unfolding that(1,2) by (elim disjE; simp only:; code_simp)
  have T: "set (pod_mounts (ls @ [[]])) \<subseteq> set (pod_volumes (ls @ [[]]))"
    if "ls = render_lines [(''Name'', ''transyncd''), (''Image'', v)] TRANSYNCD_K8S_POD_CONFIG_TEMPLATE"
      "v = ''transyncd:virtual'' \<or> v = ''transyncd''" for v ls
    using that(2) unfolding that(1) by (elim disjE; simp only:; code_simp)
  have R: "set (pod_mounts (ls @ [[]])) \<subseteq> set (pod_volumes (ls @ [[]]))"
    if "ls = render_lines [] REDIS_K8S_POD_DEFAULT_CONFIG" for ls
    unfolding that by code_simp
  have O: "set (pod_mounts (ls @ [[]])) \<subseteq> set (pod_volumes (ls @ [[]])) \<and> n \<in> set (ls @ [[]])"
    if "ls = render_lines [(''Name'', ''ofdpa''), (''Image'', ''debian:jessie''), (''OfdpaConfigMapName'', OFDPA_CONFIG_MAP_NAME)] OFDPA_K8S_POD_CONFIG_TEMPLATE"
      "n = ''      name: '' @ OFDPA_CONFIG_MAP_NAME" for ls n
    unfolding that(1,2) by code_simp
  have split: "split_char newline (render m t) = render_lines m t @ [[]]" if "\<forall>l \<in> set (render_lines m t). one_line l" for m t
    unfolding render_def by (rule split_unlines [OF that])
  have S1: "split_char newline (sonic_pod_text virtual) =
      render_lines [(''Name'', ''sonic''), (''Image'', if virtual then ''sonic:virtual'' else ''sonic''), (''SonicConfigMapName'', SONIC_CONFIG_MAP_NAME)] SONIC_K8S_POD_CONFIG_TEMPLATE @ [[]]"
    unfolding sonic_pod_text_def by (rule split) (cases virtual; simp only: if_True if_False; code_simp)
  have T1: "split_char newline (transyncd_pod_text virtual) =
      render_lines [(''Name'', ''transyncd''), (''Image'', if virtual then ''transyncd:virtual'' else ''transyncd'')] TRANSYNCD_K8S_POD_CONFIG_TEMPLATE @ [[]]"
    unfolding transyncd_pod_text_def by (rule split) (cases virtual; simp only: if_True if_False; code_simp)
  have R1: "split_char newline redis_pod_text = render_lines [] REDIS_K8S_POD_DEFAULT_CONFIG @ [[]]"
    unfolding redis_pod_text_def by (rule split) code_simp
  have O1: "split_char newline ofdpa_pod_text =
      render_lines [(''Name'', ''ofdpa''), (''Image'', ''debian:jessie''), (''OfdpaConfigMapName'', OFDPA_CONFIG_MAP_NAME)] OFDPA_K8S_POD_CONFIG_TEMPLATE @ [[]]"
    unfolding ofdpa_pod_text_def by (rule split) code_simp
  have vs: "(if virtual then ''sonic:virtual'' else ''sonic'') = ''sonic:virtual'' \<or> (if virtual then ''sonic:virtual'' else ''sonic'') = ''sonic''"
    "(if virtual then ''transyncd:virtual'' else ''transyncd'') = ''transyncd:virtual'' \<or> (if virtual then ''transyncd:virtual'' else ''transyncd'') = ''transyncd''"
    by (cases virtual; simp)+
  show ?thesis unfolding S1 T1 R1 O1
    using S [OF refl refl vs(1)] T [OF refl vs(2)] R [OF refl] O [OF refl refl] by (intro conjI; blast)
qed

end
