(* ===== verification/Validate.thy ===== *)
theory Validate
  imports Ofdpa
begin

section \<open>Validation (cmd/oopt/main.go)\<close>

text \<open>
  \<open>validateFinal\<close> is the check between an edited configuration and the hardware: complete connections with
  distinct ids, supported breakout modes, and no optical channel above its capacity. It also fills
  in the default configuration of the modules, so it returns the configuration it leaves.
\<close>

subsection \<open>Checks\<close>

definition validate :: "PacketTransponder \<Rightarrow> unit res" where
  "validate config = Inr ()"

text \<open>One turn of the loop over the interfaces; the state is \<open>usedID\<close>.\<close>

definition check_connection ::
    "string \<times> PacketTransponder_Interface \<Rightarrow> (int \<times> string) list \<Rightarrow> (int \<times> string) list res" where
  "check_connection kv usedID =
     (let k = fst kv in
      case if_OpticalModuleConnection (snd kv) of None \<Rightarrow> Inr usedID
      | Some c \<Rightarrow>
          (case (omc_Id c, omc_OpticalModule c) of
             (Some i, Some om) \<Rightarrow>
               if com_Channel om = None \<or> com_Name om = None
               then Inl (Errorf ''insufficient configuration for optical module connection'' [])
               else let id = uint i in
                 (case map_of usedID id of
                    Some name \<Rightarrow> Inl (Errorf ''id %d is used by multiple interfaces: %s, %s'' [itoa id, k, name])
                  | None \<Rightarrow> Inr (AList.update id k usedID))
           | _ \<Rightarrow> Inl (Errorf ''insufficient configuration for optical module connection'' [])))"

definition check_port :: "string \<times> PacketTransponder_Port \<Rightarrow> unit \<Rightarrow> unit res" where
  "check_port kv u =
     (let k = fst kv in
      res_bind (deref (pt_BreakoutMode (snd kv))) (\<lambda>bMode.
      res_bind (deref (bm_NumChannels bMode)) (\<lambda>num.
        if num = 1 then
          (case bm_ChannelSpeed bMode of SPEED_40GB \<Rightarrow> Inr () | SPEED_100GB \<Rightarrow> Inr ()
           | s \<Rightarrow> Inl (Errorf ''unsupported port speed %v for port %s'' [itoa (enum_value ethernet_speed_enum s), k]))
        else if num = 2 then
          (case bm_ChannelSpeed bMode of SPEED_40GB \<Rightarrow> Inr () | SPEED_50GB \<Rightarrow> Inr ()
           | s \<Rightarrow> Inl (Errorf ''port speed must be 20G, 40G or 50G for breakout(2) port %s'' [k]))
        else if num = 4 then
          (case bm_ChannelSpeed bMode of SPEED_10GB \<Rightarrow> Inr () | SPEED_25GB \<Rightarrow> Inr ()
           | s \<Rightarrow> Inl (Errorf ''port speed must be 10G or 25G for breakout(4) port %s'' [k]))
        else Inl (Errorf ''invalid num-channels %d for port %s'' [itoa (uint num), k]))))"

definition check_channel :: "string \<Rightarrow> string \<times> ChannelStats \<Rightarrow> unit \<Rightarrow> unit res" where
  "check_channel k chs u =
     res_bind (deref (cs_Occupancy (snd chs))) (\<lambda>text.
     res_bind (ParseFloat text) (\<lambda>f.
       if 100 < f
       then Inl (Errorf ''name: %s, channel: %s over-subscribed: %f%%'' [k, fst chs, format_f f])
       else Inr ()))"

definition check_module ::
    "PacketTransponder \<Rightarrow> string \<Rightarrow> PacketTransponder_OpticalModule \<Rightarrow> PacketTransponder_OpticalModule res" where
  "check_module config k v =
     res_bind (FillTransportDefaultConfig v config) (\<lambda>v.
     res_bind (deref (om_AllowOversubscription v)) (\<lambda>allow.
       if allow then Inr v
       else res_bind (for_res (check_channel k) (om_ChannelStats v) ()) (\<lambda>_. Inr v)))"

definition validateFinal :: "PacketTransponder \<Rightarrow> PacketTransponder res" where
  "validateFinal config =
     res_bind (validate config) (\<lambda>_.
     res_bind (for_res check_connection (Interface config) []) (\<lambda>usedID.
     res_bind (for_res check_port (Port config) ()) (\<lambda>_.
     res_bind (for_map (check_module config) (OpticalModule config)) (\<lambda>oms.
       Inr (config\<lparr>OpticalModule := oms\<rparr>)))))"

text \<open>\<open>fillDefaultValues(m)\<close> completes the modules of \<open>m\<close>, but against the global \<open>current\<close>.\<close>

definition fillDefaultValues :: "PacketTransponder option \<Rightarrow> PacketTransponder \<Rightarrow> PacketTransponder res" where
  "fillDefaultValues current m =
     res_bind (for_map (\<lambda>k om. res_bind (deref current) (FillTransportDefaultConfig om)) (OpticalModule m)) (\<lambda>oms.
       Inr (m\<lparr>OpticalModule := oms\<rparr>))"

subsection \<open>Connections\<close>

definition connection_complete :: "PacketTransponder_Interface \<Rightarrow> bool" where
  "connection_complete v \<longleftrightarrow>
     (\<forall>c. if_OpticalModuleConnection v = Some c \<longrightarrow>
        (\<exists>i om ch n. c = \<lparr>omc_Id = Some i, omc_OpticalModule = Some om\<rparr> \<and> om = \<lparr>com_Channel = Some ch, com_Name = Some n\<rparr>))"

definition connection_id :: "PacketTransponder_Interface \<Rightarrow> int option" where
  "connection_id v = (case if_OpticalModuleConnection v of None \<Rightarrow> None | Some c \<Rightarrow> map_option uint (omc_Id c))"

lemma check_connection_iff:
  "check_connection (k, v) used = Inr used' \<longleftrightarrow>
     connection_complete v \<and>
     (case connection_id v of None \<Rightarrow> used' = used
      | Some i \<Rightarrow> map_of used i = None \<and> used' = AList.update i k used)"
proof (cases "if_OpticalModuleConnection v")
  case None
  then show ?thesis by (auto simp: check_connection_def connection_complete_def connection_id_def)
next
  case (Some c)
  obtain i om where c: "c = \<lparr>omc_Id = i, omc_OpticalModule = om\<rparr>" by (cases c)
  show ?thesis
  proof (cases "i = None \<or> om = None")
    case True
    with Some c show ?thesis
      by (auto simp: check_connection_def connection_complete_def connection_id_def split: option.split)
  next
    case False
    then obtain i' ch n where io: "i = Some i'" "om = Some \<lparr>com_Channel = ch, com_Name = n\<rparr>"
      by (metis Connection_OpticalModule.cases not_None_eq)
    show ?thesis
      using Some c io
      by (cases ch; cases n; cases "map_of used (uint i')")
        (auto simp: check_connection_def connection_complete_def connection_id_def Let_def)
  qed
qed

definition connection_ids :: "PacketTransponder_Interface gomap \<Rightarrow> int list" where
  "connection_ids m = List.map_filter (\<lambda>(k, v). connection_id v) m"

lemma connection_ids_simps [simp]:
  "connection_ids [] = []"
  "connection_ids ((k, v) # m) = (case connection_id v of None \<Rightarrow> connection_ids m | Some i \<Rightarrow> i # connection_ids m)"
  by (simp_all add: connection_ids_def List.map_filter_def split: option.split)

lemma for_connections_iff:
  "(\<exists>used'. for_res check_connection m used = Inr used') \<longleftrightarrow>
     (\<forall>(k, v) \<in> set m. connection_complete v) \<and> distinct (connection_ids m) \<and>
     (\<forall>i \<in> set (connection_ids m). map_of used i = None)"
proof (induction m arbitrary: used)
  case (Cons x m)
  obtain k v where x: "x = (k, v)" by (cases x)
  have "(\<exists>used'. for_res check_connection (x # m) used = Inr used') \<longleftrightarrow>
      (\<exists>u. check_connection (k, v) used = Inr u \<and> (\<exists>used'. for_res check_connection m u = Inr used'))"
    by (auto simp: x res_bind_Inr)
  also have "\<dots> \<longleftrightarrow> (\<exists>u. check_connection (k, v) used = Inr u \<and>
      (\<forall>(k, v) \<in> set m. connection_complete v) \<and> distinct (connection_ids m) \<and>
      (\<forall>i \<in> set (connection_ids m). map_of u i = None))"
    by (simp add: Cons.IH)
  also have "\<dots> \<longleftrightarrow> (\<forall>(k, v) \<in> set (x # m). connection_complete v) \<and> distinct (connection_ids (x # m)) \<and>
      (\<forall>i \<in> set (connection_ids (x # m)). map_of used i = None)"
    by (cases "connection_id v") (auto simp: x check_connection_iff update_conv')
  finally show ?case .
qed simp

subsection \<open>Breakout modes\<close>

definition breakout_ok :: "PacketTransponder_Port \<Rightarrow> bool" where
  "breakout_ok v \<longleftrightarrow> (\<exists>b n. pt_BreakoutMode v = Some b \<and> bm_NumChannels b = Some n \<and>
     (n = 1 \<and> bm_ChannelSpeed b \<in> {SPEED_40GB, SPEED_100GB} \<or>
      n = 2 \<and> bm_ChannelSpeed b \<in> {SPEED_40GB, SPEED_50GB} \<or>
      n = 4 \<and> bm_ChannelSpeed b \<in> {SPEED_10GB, SPEED_25GB}))"

lemma check_port_iff: "check_port (k, v) u = Inr w \<longleftrightarrow> breakout_ok v"
proof (cases "pt_BreakoutMode v")
  case (Some b)
  show ?thesis
  proof (cases "bm_NumChannels b")
    case (Some n)
    with \<open>pt_BreakoutMode v = Some b\<close> show ?thesis
      by (cases "bm_ChannelSpeed b") (auto simp: check_port_def breakout_ok_def)
  qed (simp add: check_port_def breakout_ok_def Some)
qed (simp add: check_port_def breakout_ok_def)

lemma for_ports_iff: "for_res check_port ps () = Inr () \<longleftrightarrow> (\<forall>(k, v) \<in> set ps. breakout_ok v)"
  by (induction ps) (auto simp: res_bind_Inr check_port_iff)

subsection \<open>Modules\<close>

definition plain_module :: "string \<Rightarrow> PacketTransponder_OpticalModule \<Rightarrow> bool" where
  "plain_module k v \<longleftrightarrow> om_Name v = Some k \<and> gomap_ok (om_ChannelStats v) \<and> gkeys (om_ChannelStats v) \<subseteq> {''A'', ''B''}"

text \<open>A channel has no capacity only under QPSK, and then it is B; an unset modulation is completed to 16QAM.\<close>

definition module_capacity :: "string \<Rightarrow> PacketTransponder_OpticalModule \<Rightarrow> bool" where
  "module_capacity ch v \<longleftrightarrow> om_ModulationType v \<noteq> DP_QPSK \<or> ch = ''A''"

definition allows_over :: "PacketTransponder_OpticalModule \<Rightarrow> PacketTransponder \<Rightarrow> bool" where
  "allows_over v config \<longleftrightarrow>
     (case om_AllowOversubscription v of Some b \<Rightarrow> b | None \<Rightarrow> AllowOversubscription config = Some True)"

definition load_ok :: "PacketTransponder \<Rightarrow> string \<Rightarrow> PacketTransponder_OpticalModule \<Rightarrow> string \<Rightarrow> bool" where
  "load_ok config k v ch \<longleftrightarrow> speeds_known k ch config \<and>
     (if module_capacity ch v then allows_over v config \<or> connected_mbps k ch config \<le> 100000
      else connected_mbps k ch config = 0)"

lemma has_capacity_default: "has_capacity ch (default_leaves v config) \<longleftrightarrow> module_capacity ch v"
  by (cases "om_ModulationType v") (simp_all add: has_capacity_def default_leaves_def module_capacity_def)

lemma occupancy_default:
  assumes "om_Name v = Some k"
  shows "calculateOccupancy ch (default_leaves v config) config = Inr occ \<longleftrightarrow> speeds_known k ch config \<and>
    (if module_capacity ch v then occ = occupancy32 (connected_mbps k ch config) 100000
     else connected_mbps k ch config = 0 \<and> occ = 0)"
proof -
  have "om_Name (default_leaves v config) = Some k" "om_ModulationType (default_leaves v config) \<noteq> Modulation_UNSET"
    using assms by (simp_all add: default_leaves_def)
  then show ?thesis by (simp add: calculateOccupancy_iff has_capacity_default)
qed

definition channel_occupancy :: "PacketTransponder \<Rightarrow> string \<Rightarrow> PacketTransponder_OpticalModule \<Rightarrow> string \<Rightarrow> rat" where
  "channel_occupancy config k v ch = (if module_capacity ch v then occupancy32 (connected_mbps k ch config) 100000 else 0)"

lemma write_ch_gomap_ok: "gomap_ok (om_ChannelStats t) \<Longrightarrow> gomap_ok (om_ChannelStats (write_ch n f t))"
  by (auto simp: write_ch_def createCh_def Let_def split: option.split)

lemma write_ch_keys: "gkeys (om_ChannelStats (write_ch n f t)) = insert n (gkeys (om_ChannelStats t))"
  by (rule set_eqI) (simp only: insert_iff gget_Some_key write_ch_get, auto)

lemma write_ch_allow [simp]: "om_AllowOversubscription (write_ch n f t) = om_AllowOversubscription t"
  using write_ch_stats [of n f t] by (auto simp: with_stats_def)

lemma default_leaves_stats [simp]: "om_ChannelStats (default_leaves t current) = om_ChannelStats t"
  by (simp add: default_leaves_def)

lemma default_leaves_allow: "om_AllowOversubscription (default_leaves v config) = Some (allows_over v config)"
  by (auto simp: default_leaves_def allows_over_def or_default_def split: option.split)

lemma fill_plain:
  assumes "plain_module k v" "FillTransportDefaultConfig v config = Inr v'"
  shows "om_AllowOversubscription v' = Some (allows_over v config)"
    and "gomap_ok (om_ChannelStats v')" "gkeys (om_ChannelStats v') = {''A'', ''B''}"
    and "ch \<in> {''A'', ''B''} \<Longrightarrow> \<exists>c. gget (om_ChannelStats v') ch = Some c \<and> cs_Occupancy c = Some (format_f (channel_occupancy config k v ch))"
proof -
  have n: "om_Name v = Some k" using assms(1) by (simp add: plain_module_def)
  from assms(2) obtain a b where ab: "calculateOccupancy ''A'' (default_leaves v config) config = Inr a"
      "calculateOccupancy ''B'' (default_leaves v config) config = Inr b"
      and v': "v' = write_ch ''B'' (\<lambda>c. c\<lparr>cs_Occupancy := Some (format_f b)\<rparr>)
        (write_ch ''A'' (\<lambda>c. c\<lparr>cs_Occupancy := Some (format_f a)\<rparr>) (default_leaves v config))"
    unfolding Fill_Inr by blast
  have occ: "a = channel_occupancy config k v ''A''" "b = channel_occupancy config k v ''B''"
    using ab unfolding occupancy_default [OF n] channel_occupancy_def by (simp_all split: if_splits)
  show "om_AllowOversubscription v' = Some (allows_over v config)" by (simp add: v' default_leaves_allow)
  show "gomap_ok (om_ChannelStats v')" using assms(1) by (simp add: v' plain_module_def write_ch_gomap_ok)
  show "gkeys (om_ChannelStats v') = {''A'', ''B''}" using assms(1) unfolding v' write_ch_keys plain_module_def by auto
  show "ch \<in> {''A'', ''B''} \<Longrightarrow> \<exists>c. gget (om_ChannelStats v') ch = Some c \<and> cs_Occupancy c = Some (format_f (channel_occupancy config k v ch))"
    by (auto simp: v' write_ch_get occ)
qed

lemma channel_over:
  "\<exists>x. ParseFloat (format_f (channel_occupancy config k v ch)) = Inr x \<and>
     (100 < x \<longleftrightarrow> module_capacity ch v \<and> 100000 < connected_mbps k ch config)"
proof (cases "module_capacity ch v")
  case True
  then show ?thesis using occupancy_text_over [of "connected_mbps k ch config"] by (simp add: channel_occupancy_def)
next
  case False
  have "occupancy32 0 100000 = 0" by (simp add: occupancy32_def float32_def fl_def)
  with False show ?thesis using occupancy_text_over [of 0] by (simp add: channel_occupancy_def)
qed

lemma for_channels_iff:
  assumes "\<forall>(ch, c) \<in> set cs. \<exists>x. cs_Occupancy c = Some (txt ch) \<and> ParseFloat (txt ch) = Inr x \<and> (100 < x \<longleftrightarrow> over ch)"
  shows "(\<exists>u. for_res (check_channel k) cs () = Inr u) \<longleftrightarrow> (\<forall>ch \<in> gkeys cs. \<not> over ch)"
  using assms
proof (induction cs)
  case (Cons y cs)
  obtain ch c where y: "y = (ch, c)" by (cases y)
  from Cons.prems y obtain x where "cs_Occupancy c = Some (txt ch)" "ParseFloat (txt ch) = Inr x" "100 < x \<longleftrightarrow> over ch" by auto
  then show ?case using Cons y by (simp add: check_channel_def)
qed simp

lemma check_module_iff:
  assumes "plain_module k v"
  shows "(\<exists>v'. check_module config k v = Inr v') \<longleftrightarrow> (\<forall>ch \<in> {''A'', ''B''}. load_ok config k v ch)"
proof -
  have n: "om_Name v = Some k" using assms by (simp add: plain_module_def)
  let ?known = "\<forall>ch \<in> {''A'', ''B''}. speeds_known k ch config \<and> (module_capacity ch v \<or> connected_mbps k ch config = 0)"
  let ?over = "\<lambda>ch. module_capacity ch v \<and> 100000 < connected_mbps k ch config"
  have fill: "(\<exists>v'. FillTransportDefaultConfig v config = Inr v') \<longleftrightarrow> ?known"
  proof -
    have occ: "(\<exists>a. calculateOccupancy ch (default_leaves v config) config = Inr a) \<longleftrightarrow>
        speeds_known k ch config \<and> (module_capacity ch v \<or> connected_mbps k ch config = 0)" for ch
      unfolding occupancy_default [OF n] by auto
    have "(\<exists>v'. FillTransportDefaultConfig v config = Inr v') \<longleftrightarrow>
        (\<forall>ch \<in> {''A'', ''B''}. \<exists>a. calculateOccupancy ch (default_leaves v config) config = Inr a)"
      unfolding Fill_Inr by blast
    then show ?thesis unfolding occ .
  qed
  have checks: "(\<exists>w. check_module config k v = Inr w) \<longleftrightarrow> allows_over v config \<or> (\<forall>ch \<in> {''A'', ''B''}. \<not> ?over ch)"
    if v': "FillTransportDefaultConfig v config = Inr v'" for v'
  proof -
    note f = fill_plain [OF assms v']
    have "\<forall>(ch, c) \<in> set (om_ChannelStats v'). \<exists>x. cs_Occupancy c = Some (format_f (channel_occupancy config k v ch)) \<and>
        ParseFloat (format_f (channel_occupancy config k v ch)) = Inr x \<and> (100 < x \<longleftrightarrow> ?over ch)"
    proof clarify
      fix ch c assume c: "(ch, c) \<in> set (om_ChannelStats v')"
      then have "gget (om_ChannelStats v') ch = Some c" "ch \<in> {''A'', ''B''}"
        using in_set_gget [OF f(2)] f(3) by (blast, force)
      with f(4) [of ch] channel_over [of config k v ch]
      show "\<exists>x. cs_Occupancy c = Some (format_f (channel_occupancy config k v ch)) \<and>
        ParseFloat (format_f (channel_occupancy config k v ch)) = Inr x \<and> (100 < x \<longleftrightarrow> ?over ch)" by auto
    qed
    from for_channels_iff [OF this, of k]
    show ?thesis using v' f(1) unfolding f(3) by (auto simp: check_module_def res_bind_Inr)
  qed
  show ?thesis
  proof (cases "\<exists>v'. FillTransportDefaultConfig v config = Inr v'")
    case True
    then obtain v' where v': "FillTransportDefaultConfig v config = Inr v'" ..
    have "?known" using True unfolding fill .
    then show ?thesis unfolding checks [OF v'] load_ok_def by auto
  next
    case False
    then have "\<not> (\<exists>v'. check_module config k v = Inr v')" by (auto simp: check_module_def res_bind_Inr)
    moreover have "\<not> ?known" using False unfolding fill .
    ultimately show ?thesis unfolding load_ok_def by auto
  qed
qed

lemma validateFinal_iff:
  assumes "\<forall>(k, v) \<in> set (OpticalModule config). plain_module k v"
  shows "(\<exists>config'. validateFinal config = Inr config') \<longleftrightarrow>
    (\<forall>(k, v) \<in> set (Interface config). connection_complete v) \<and> distinct (connection_ids (Interface config)) \<and>
    (\<forall>(k, v) \<in> set (Port config). breakout_ok v) \<and>
    (\<forall>(k, v) \<in> set (OpticalModule config). \<forall>ch \<in> {''A'', ''B''}. load_ok config k v ch)"
proof -
  have "(\<exists>config'. validateFinal config = Inr config') \<longleftrightarrow>
      (\<exists>u. for_res check_connection (Interface config) [] = Inr u) \<and> for_res check_port (Port config) () = Inr () \<and>
      (\<exists>oms. for_map (check_module config) (OpticalModule config) = Inr oms)"
    by (simp add: validateFinal_def validate_def res_bind_Inr)
  also have "(\<exists>oms. for_map (check_module config) (OpticalModule config) = Inr oms) \<longleftrightarrow>
      (\<forall>(k, v) \<in> set (OpticalModule config). \<forall>ch \<in> {''A'', ''B''}. load_ok config k v ch)"
    unfolding for_map_ok_iff
  proof (intro ball_cong refl, clarify)
    fix k v assume "(k, v) \<in> set (OpticalModule config)"
    then have "plain_module k v" using assms by blast
    then show "(\<exists>v'. check_module config k v = Inr v') \<longleftrightarrow> (\<forall>ch \<in> {''A'', ''B''}. load_ok config k v ch)"
      by (rule check_module_iff)
  qed
  finally show ?thesis unfolding for_ports_iff for_connections_iff by simp
qed

text \<open>
  C10: what a commit lets through. On modules as the controller creates them (named like their key, with no
  channels but A and B), validation accepts a configuration exactly when every
  connection is complete and no two have the same id, every port has a supported breakout mode, and
  every optical channel carries at most 100G of interfaces, or oversubscription is
  allowed; a channel that the modulation leaves without capacity carries none.
\<close>

theorem validateFinal_accepts_iff:
  assumes "\<forall>(k, v) \<in> set (OpticalModule config). plain_module k v"
  shows "(\<exists>config'. validateFinal config = Inr config') \<longleftrightarrow>
    (\<forall>(k, v) \<in> set (Interface config). connection_complete v) \<and> distinct (connection_ids (Interface config)) \<and>
    (\<forall>(k, v) \<in> set (Port config). breakout_ok v) \<and>
    (\<forall>(k, v) \<in> set (OpticalModule config). \<forall>ch \<in> {''A'', ''B''}. load_ok config k v ch)"
  by (rule validateFinal_iff [OF assms])

subsection \<open>What follows from validation\<close>

lemma Fill_modules [simp]: "FillTransportDefaultConfig t (config\<lparr>OpticalModule := x\<rparr>) = FillTransportDefaultConfig t config"
proof -
  have "calculateOccupancy ch u (config\<lparr>OpticalModule := x\<rparr>) = calculateOccupancy ch u config" for ch u
    by (simp add: calculateOccupancy_def)
  then have "fill_occupancy (config\<lparr>OpticalModule := x\<rparr>) = fill_occupancy config"
    by (intro ext) (simp add: fill_occupancy_def)
  moreover have "default_leaves t (config\<lparr>OpticalModule := x\<rparr>) = default_leaves t config"
    by (cases "om_AllowOversubscription t") (simp_all add: default_leaves_def)
  ultimately show ?thesis by (simp add: FillTransportDefaultConfig_def)
qed

lemma check_module_Inr:
  assumes "check_module config k v = Inr v'"
  shows "FillTransportDefaultConfig v config = Inr v'" and "check_module config k v' = Inr v'"
proof -
  from assms show f: "FillTransportDefaultConfig v config = Inr v'"
    by (auto simp: check_module_def res_bind_Inr split: if_splits)
  from Fill_idempotent [OF this] assms show "check_module config k v' = Inr v'"
    by (auto simp: check_module_def f res_bind_Inr split: if_splits)
qed

lemma check_module_modules [simp]: "check_module (config\<lparr>OpticalModule := x\<rparr>) = check_module config"
  by (intro ext) (simp add: check_module_def)

lemma for_map_again:
  "for_map f m = Inr m' \<Longrightarrow> (\<And>k v v'. f k v = Inr v' \<Longrightarrow> f k v' = Inr v') \<Longrightarrow> for_map f m' = Inr m'"
proof (induction m arbitrary: m')
  case (Cons kv m)
  obtain k v where "kv = (k, v)" by (cases kv)
  with Cons show ?case by (auto simp: res_bind_Inr)
qed simp

lemma validateFinal_Inr:
  assumes "validateFinal config = Inr config'"
  obtains oms used where "config' = config\<lparr>OpticalModule := oms\<rparr>" "for_map (check_module config) (OpticalModule config) = Inr oms"
    "for_res check_connection (Interface config) [] = Inr used" "for_res check_port (Port config) () = Inr ()"
  using assms by (auto simp: validateFinal_def validate_def res_bind_Inr)

lemma validated_interfaces:
  assumes "validateFinal config = Inr config'"
  shows "Interface config' = Interface config" "Port config' = Port config"
    "\<forall>(k, v) \<in> set (Interface config). connection_complete v" "distinct (connection_ids (Interface config))"
    "\<forall>(k, v) \<in> set (Port config). breakout_ok v"
proof -
  from validateFinal_Inr [OF assms] obtain oms used where *: "config' = config\<lparr>OpticalModule := oms\<rparr>"
    "for_res check_connection (Interface config) [] = Inr used" "for_res check_port (Port config) () = Inr ()" by metis
  then show "Interface config' = Interface config" "Port config' = Port config" by simp_all
  from * have "\<exists>u. for_res check_connection (Interface config) [] = Inr u" by blast
  then show "\<forall>(k, v) \<in> set (Interface config). connection_complete v" "distinct (connection_ids (Interface config))"
    unfolding for_connections_iff by blast+
  show "\<forall>(k, v) \<in> set (Port config). breakout_ok v" using *(3) unfolding for_ports_iff .
qed

text \<open>
  Validation completes a configuration once: it changes nothing but the modules, and accepts
  its own result unchanged.
\<close>

lemma validateFinal_idempotent:
  assumes "validateFinal config = Inr config'"
  shows "validateFinal config' = Inr config' \<and> Interface config' = Interface config \<and> Port config' = Port config \<and>
    AllowOversubscription config' = AllowOversubscription config \<and> map fst (OpticalModule config') = map fst (OpticalModule config)"
proof -
  from validateFinal_Inr [OF assms] obtain oms used where c: "config' = config\<lparr>OpticalModule := oms\<rparr>"
    "for_map (check_module config) (OpticalModule config) = Inr oms"
    "for_res check_connection (Interface config) [] = Inr used" "for_res check_port (Port config) () = Inr ()" by metis
  have "for_map (check_module config) oms = Inr oms"
    using for_map_again [OF c(2) check_module_Inr(2)] .
  then show ?thesis using c for_map_keys [OF c(2)] by (simp add: validateFinal_def validate_def)
qed

lemma connection_ids_in: "(a, b) \<in> set m \<Longrightarrow> connection_id b = Some i \<Longrightarrow> i \<in> set (connection_ids m)"
  by (induction m) (auto split: option.split)

lemma connection_ids_unique:
  "distinct (connection_ids m) \<Longrightarrow> (k, v) \<in> set m \<Longrightarrow> (k', v') \<in> set m \<Longrightarrow> connection_id v = Some i \<Longrightarrow>
     connection_id v' = Some i \<Longrightarrow> (k, v) = (k', v')"
proof (induction m)
  case (Cons x m)
  obtain a b where x: "x = (a, b)" by (cases x)
  show ?case
  proof (cases "connection_id b = Some i")
    case True
    with Cons.prems x connection_ids_in [of _ _ m i] show ?thesis by auto
  next
    case False
    with Cons.prems(2-5) x have "(k, v) \<in> set m" "(k', v') \<in> set m" by auto
    moreover have "distinct (connection_ids m)" using Cons.prems(1) x by (auto split: option.splits)
    ultimately show ?thesis using Cons.IH Cons.prems(4,5) by blast
  qed
qed simp

lemma validated_ids_unique:
  assumes "distinct (connection_ids m)"
  shows "ids_unique m"
  unfolding ids_unique_def
proof (clarify, goal_cases)
  case (1 k v k' v')
  then obtain vid where "vlan_id v = Some vid" by blast
  with 1 have "connection_id v = Some (uint vid)" "connection_id v' = Some (uint vid)"
    by (auto simp: vlan_id_def connection_id_def split: option.splits if_splits)
  with connection_ids_unique [OF assms 1(1,2)] show ?case by blast
qed

text \<open>
  C34: a validated configuration determines its VLANs: for every connection with an id the SONiC configuration
  computed from it holds a VLAN with the interface untagged and the line port of the module tagged, and
  nothing else.
\<close>

theorem validated_vlans:
  assumes "gomap_ok (Interface m)" and valid: "validateFinal m = Inr m'"
    and cfg: "NewSONiCConfigFromModel m' = Inr cfg"
    and i: "(k, v) \<in> set (Interface m)" "if_OpticalModuleConnection v = Some cn"
    and id: "omc_Id cn = Some vid" "vid \<noteq> 0"
  shows "\<exists>opt. OptEthernetName (omc_OpticalModule cn) = Inr opt \<and>
    vlan_holds cfg vid ((k, ''untagged'') # (if opt = k then [] else [(opt, ''tagged'')]))"
proof -
  note val = validated_interfaces [OF valid]
  have u: "ids_unique (Interface m')" using validated_ids_unique val(1,4) by simp
  have "vlan_id v = Some vid" using i id by (simp add: vlan_id_def)
  with config_vlans [OF _ u cfg] assms(1) i val(1) have V: "vlan_holds cfg vid (vlan_ports k v)" by simp
  obtain om where om: "omc_OpticalModule cn = Some om" using val(3) i by (fastforce simp: connection_complete_def)
  have "interface_accepted k v"
  proof -
    have "\<forall>(k, v) \<in> set (Interface m'). interface_accepted k v"
      using cfg for_interfaces_succeeds_iff unfolding NewSONiCConfigFromModel_def res_bind_Inr by blast
    then show ?thesis using i val(1) by auto
  qed
  then obtain opt where opt: "OptEthernetName (omc_OpticalModule cn) = Inr opt"
    using i id om unfolding interface_accepted_def by force
  then have "vlan_ports k v = (k, ''untagged'') # (if opt = k then [] else [(opt, ''tagged'')])"
    using i om by (simp add: vlan_ports_def)
  with V opt show ?thesis by auto
qed

lemma breakout_speed: "breakout_ok v \<Longrightarrow> pt_BreakoutMode v = Some b \<Longrightarrow>
  uint (the (bm_NumChannels b)) * channel_speed (bm_ChannelSpeed b) \<le> 100"
  by (auto simp: breakout_ok_def channel_speed_def)


subsection \<open>Witnesses\<close>

definition sample_valid :: PacketTransponder where
  "sample_valid = zero_PacketTransponder
     \<lparr>Interface := [(''Ethernet1'', zero_Interface\<lparr>if_PortSpeed := SPEED_40GB,
        if_OpticalModuleConnection := Some (sample_connection 100 ''A'')\<rparr>)],
      OpticalModule := [(opt_name 3, zero_OpticalModule\<lparr>om_Name := Some (opt_name 3)\<rparr>)],
      Port := sample_ports\<rparr>"

lemma sample_valid_parts:
  "Interface sample_valid = [(''Ethernet1'', zero_Interface\<lparr>if_PortSpeed := SPEED_40GB,
        if_OpticalModuleConnection := Some (sample_connection 100 ''A'')\<rparr>)]"
  "OpticalModule sample_valid = [(opt_name 3, zero_OpticalModule\<lparr>om_Name := Some (opt_name 3)\<rparr>)]"
  "Port sample_valid = sample_ports"
  by (simp_all add: sample_valid_def)

lemma sample_valid_accepted:
  "(\<forall>(k, v) \<in> set (Interface sample_valid). connection_complete v) \<and> distinct (connection_ids (Interface sample_valid)) \<and>
   (\<forall>(k, v) \<in> set (Port sample_valid). breakout_ok v) \<and>
   (\<forall>(k, v) \<in> set (OpticalModule sample_valid). \<forall>ch \<in> {''A'', ''B''}. load_ok sample_valid k v ch)"
  by (simp add: sample_valid_parts connection_complete_def sample_connection_def connection_id_def sample_ports_def
      breakout_ok_def load_ok_def speeds_known_def connected_def connected_mbps_def module_capacity_def zero_OpticalModule_def)

lemma sample_valid_plain: "\<forall>(k, v) \<in> set (OpticalModule sample_valid). plain_module k v"
  by (simp add: sample_valid_parts plain_module_def zero_OpticalModule_def gomap_ok_def)

lemma validateFinal_accepts_iff_witness: "\<exists>config'. validateFinal sample_valid = Inr config'"
  using validateFinal_accepts_iff [OF sample_valid_plain] sample_valid_accepted by blast

lemma sample_validated: "\<exists>config'. validateFinal sample_valid = Inr config'"
proof -
  have "\<exists>u. for_res check_connection (Interface sample_valid) [] = Inr u" "for_res check_port (Port sample_valid) () = Inr ()"
    using sample_valid_accepted unfolding for_connections_iff for_ports_iff by simp_all
  moreover have "\<exists>oms. for_map (check_module sample_valid) (OpticalModule sample_valid) = Inr oms"
    unfolding for_map_ok_iff using sample_valid_accepted sample_valid_plain check_module_iff
    by (simp only: sample_valid_parts list.set ball_simps prod.case)
  ultimately show ?thesis by (auto simp: validateFinal_def validate_def)
qed

lemma validated_vlans_witness:
  "\<exists>m' cfg. validateFinal sample_valid = Inr m' \<and> NewSONiCConfigFromModel m' = Inr cfg \<and>
     vlan_holds cfg 100 [(''Ethernet1'', ''untagged''), (eth_name 21, ''tagged'')]"
proof -
  obtain m' where m': "validateFinal sample_valid = Inr m'" using sample_validated ..
  have "Interface m' = Interface sample_valid" using validated_interfaces(1) [OF m'] .
  then have "\<forall>(k, v) \<in> set (Interface m'). interface_accepted k v \<and> \<not> is_line_port k"
    using sample_name_facts(2) by (simp add: sample_valid_parts interface_accepted_def sample_interface_index sample_connection_def Iface.sample_ports)
  then obtain cfg where cfg: "NewSONiCConfigFromModel m' = Inr cfg" using config_succeeds_iff by blast
  have "\<exists>opt. OptEthernetName (omc_OpticalModule (sample_connection 100 ''A'')) = Inr opt \<and>
      vlan_holds cfg 100 ((''Ethernet1'', ''untagged'') # (if opt = ''Ethernet1'' then [] else [(opt, ''tagged'')]))"
    by (rule validated_vlans [OF _ m' cfg, where k = "''Ethernet1''" and v = "zero_Interface\<lparr>if_PortSpeed := SPEED_40GB,
        if_OpticalModuleConnection := Some (sample_connection 100 ''A'')\<rparr>"]) (simp_all add: sample_valid_parts gomap_ok_def sample_connection_def)
  then have "vlan_holds cfg 100 [(''Ethernet1'', ''untagged''), (eth_name 21, ''tagged'')]"
    by (simp add: sample_connection_def Iface.sample_ports sample_port_names)
  with m' cfg show ?thesis by blast
qed


end
