(* ===== verification/System.thy ===== *)
theory System
  imports Validate "HOL-Library.List_Lexorder" "HOL-Library.Char_ord"
begin

section \<open>Rebooting the transponder (cmd/oopt/main.go)\<close>

text \<open>
  \<open>rebootSystem\<close> brings the hardware in line with a configuration: it restarts redis, writes the optical
  configuration, restarts transyncd, OF-DPA (unless virtual) and SONiC, with the configurations
  computed from the model. The SONiC configuration goes to the config map as JSON
  (\<open>json.Marshal\<close>: keys in sorted order, strings with Go's escapes; a byte from 128 on is part of
  valid UTF-8 and passes). Log lines and the five seconds of sleep have no counterpart.
\<close>

subsection \<open>JSON\<close>

definition hex_digit :: "nat \<Rightarrow> char" where
  "hex_digit n = char_of (if n < 10 then 48 + n else 87 + n)"

definition json_char :: "char \<Rightarrow> string" where
  "json_char c =
     (let n = (of_char c :: nat) in
      if c = CHR 0x22 \<or> n = 92 then [char_of (92 :: nat), c]
      else if n = 10 then [char_of (92 :: nat), CHR ''n'']
      else if n = 13 then [char_of (92 :: nat), CHR ''r'']
      else if n = 9 then [char_of (92 :: nat), CHR ''t'']
      else if n < 32 \<or> c = CHR ''<'' \<or> c = CHR ''>'' \<or> c = CHR ''&''
        then [char_of (92 :: nat)] @ ''u00'' @ [hex_digit (n div 16), hex_digit (n mod 16)]
      else [c])"

definition json_string :: "string \<Rightarrow> string" where
  "json_string s = [CHR 0x22] @ concat (map json_char s) @ [CHR 0x22]"

definition json_list :: "string list \<Rightarrow> string" where
  "json_list xs = ''['' @ Join xs '','' @ '']''"

text \<open>A struct has its fields in order; a map has its keys sorted.\<close>

definition json_object :: "(string \<times> string) list \<Rightarrow> string" where
  "json_object fs = ''{'' @ Join (map (\<lambda>(k, v). json_string k @ '':'' @ v) fs) '','' @ ''}''"

definition json_map :: "('v \<Rightarrow> string) \<Rightarrow> 'v gomap \<Rightarrow> string" where
  "json_map f m = json_object (map (\<lambda>(k, v). (k, f v)) (sort_key fst m))"

definition json_metadata :: "DeviceMetadata \<Rightarrow> string" where
  "json_metadata d =
     json_object [(''bgp_asn'', itoa (dm_BGPAsn d)), (''hostname'', json_string (dm_Hostname d)), (''type'', json_string (dm_Type d)),
       (''hwsku'', json_string (dm_HWSKU d)), (''mac'', json_string (dm_Mac d))]"

definition json_port :: "SonicPort \<Rightarrow> string" where
  "json_port p = json_object [(''lanes'', itoa (sp_Lanes p))]"

definition json_vlan :: "Vlan \<Rightarrow> string" where
  "json_vlan v = json_object [(''members'', json_list (map json_string (vl_Members v))), (''vlanid'', itoa (vl_VID v))]"

definition json_member :: "VlanMember \<Rightarrow> string" where
  "json_member v = json_object [(''tagging_mode'', json_string (vm_Mode v))]"

definition json_config :: "SONiCConfig \<Rightarrow> string" where
  "json_config c =
     json_object [(''DEVICE_METADATA'', json_map json_metadata (sc_DeviceMetadata c)), (''PORT'', json_map json_port (sc_Ports c)),
       (''VLAN'', json_map json_vlan (sc_Vlans c)), (''VLAN_MEMBER'', json_map json_member (sc_VlanMembers c))]"

subsection \<open>The reboot\<close>

text \<open>\<open>ConfigureTransport\<close> completes the modules of its argument; the later steps see them.\<close>

definition rebootSystem :: "'s redis_ops \<Rightarrow> 's host_ops \<Rightarrow> bool \<Rightarrow> bool \<Rightarrow> PacketTransponder \<Rightarrow> ('s, unit) prog" where
  "rebootSystem R H dry virtual config =
     (if dry then pret ()
      else
        pseq (RestartRedis H)
        (pbind (ConfigureTransport R config) (\<lambda>config.
         pseq (RestartTransyncd H virtual)
         (pseq (if virtual then pret ()
                else pbind (plift (NewOFDPAConfigFromModel config)) (RestartOFDPA H))
         (pbind (plift (NewSONiCConfigFromModel config)) (\<lambda>sonicConfig.
          pseq (WriteToConfigDB R sonicConfig)
            (RestartSONiC H (json_config sonicConfig) virtual)))))))"

text \<open>\<open>stop\<close> removes the pods.\<close>

definition stop_cmd :: "'s host_ops \<Rightarrow> ('s, unit) prog" where
  "stop_cmd H =
     pseq (deletePod H TRANSYNCD_POD_NAME)
     (pseq (deletePod H SONIC_POD_NAME)
     (pseq (deletePod H OFDPA_POD_NAME)
       (deletePod H REDIS_POD_NAME)))"

end
