(* ===== verification/Cli.thy ===== *)
theory Cli
  imports System
begin

section \<open>The command line (cmd/oopt/main.go)\<close>

text \<open>
  The configuration commands of \<open>oopt\<close>. A command loads the configuration file into \<open>current\<close>, edits
  \<open>current\<close> and saves it. The model of an edit is a function from the loaded configuration to
  the edited one or an error; \<open>cobra_execute\<close> puts the phases of a command together in the
  order of cobra's \<open>execute\<close>: arguments, the nearest \<open>PersistentPreRunE\<close>, \<open>RunE\<close>, the nearest
  \<open>PersistentPostRunE\<close>, each only when the one before succeeded. The JSON codec of the
  model (\<open>model.Unmarshal\<close>, \<open>ygot.EmitJSON\<close>) is a parameter; what is printed is not modelled.
\<close>

definition CONFIG_FILE :: string where "CONFIG_FILE = ''config.json''"

subsection \<open>Loading and saving\<close>

datatype go_struct =
    TransponderS PacketTransponder
  | PortS "PacketTransponder_Port option"
  | InterfaceS "PacketTransponder_Interface option"
  | ModuleS "PacketTransponder_OpticalModule option"

record codec =
  cd_Unmarshal :: "string \<Rightarrow> PacketTransponder res"
  cd_EmitJSON :: "go_struct \<Rightarrow> string res"

text \<open>\<open>fmt.Errorf("...: %v", err)\<close>; a panic is no error.\<close>

definition wrap_err :: "string \<Rightarrow> 'a res \<Rightarrow> 'a res" where
  "wrap_err f r = (case r of Inl e \<Rightarrow> if aborts r then Inl e else Inl (Errorf f []) | Inr x \<Rightarrow> Inr x)"

definition pwrap :: "string \<Rightarrow> ('s, 'a) prog \<Rightarrow> ('s, 'a) prog" where
  "pwrap f p = (\<lambda>s. case p s of (r, t) \<Rightarrow> (wrap_err f r, t))"

definition persistentPreRunE :: "'s host_ops \<Rightarrow> codec \<Rightarrow> ('s, PacketTransponder) prog" where
  "persistentPreRunE H C =
     pbind (pwrap ''open: %v'' (ho_read H (in_git_dir H CONFIG_FILE))) (\<lambda>data. plift (cd_Unmarshal C data))"

text \<open>The results of the two writes are dropped.\<close>

definition write_line :: "'s host_ops \<Rightarrow> string \<Rightarrow> string \<Rightarrow> ('s, unit) prog" where
  "write_line H f x = pbind (ptry (ho_write H f x)) (\<lambda>_. pbind (ptry (ho_write H f [newline])) (\<lambda>_. pret ()))"

definition persistentPostRunE :: "'s host_ops \<Rightarrow> codec \<Rightarrow> PacketTransponder \<Rightarrow> ('s, unit) prog" where
  "persistentPostRunE H C current =
     pbind (plift (wrap_err ''%v'' (cd_EmitJSON C (TransponderS current)))) (\<lambda>buf.
     pseq (pwrap ''%v'' (ho_create H (in_git_dir H CONFIG_FILE)))
       (write_line H (in_git_dir H CONFIG_FILE) buf))"

definition cobra_execute ::
    "unit res \<Rightarrow> ('s, PacketTransponder) prog \<Rightarrow> (PacketTransponder \<Rightarrow> ('s, PacketTransponder) prog) \<Rightarrow>
     (PacketTransponder \<Rightarrow> ('s, unit) prog) \<Rightarrow> ('s, unit) prog" where
  "cobra_execute valid pre run post = pseq (plift valid) (pbind pre (\<lambda>c. pbind (run c) post))"

subsection \<open>Arguments\<close>

definition any_args :: "string list \<Rightarrow> unit res" where
  "any_args args = Inr ()"

definition exact_args :: "nat \<Rightarrow> string list \<Rightarrow> unit res" where
  "exact_args n args =
     (if length args \<noteq> n then Inl (Errorf ''accepts %d arg(s), received %d'' [itoa_nat n, itoa_nat (length args)]) else Inr ())"

definition no_args :: "string list \<Rightarrow> unit res" where
  "no_args args = (case args of [] \<Rightarrow> Inr () | a # _ \<Rightarrow> Inl (Errorf ''unknown command %q for %q'' [a]))"

fun only_valid_args :: "string list \<Rightarrow> string list \<Rightarrow> unit res" where
  "only_valid_args valid [] = Inr ()"
| "only_valid_args valid (a # as) =
     (if valid \<noteq> [] \<and> a \<notin> set valid then Inl (Errorf ''invalid argument %q for %q'' [a]) else only_valid_args valid as)"

definition invalid_usage :: err where "invalid_usage = Errorf ''invalid usage'' []"

subsection \<open>Writing through current\<close>

definition edit_port ::
    "string \<Rightarrow> (PacketTransponder_Port \<Rightarrow> PacketTransponder_Port res) \<Rightarrow> PacketTransponder \<Rightarrow> PacketTransponder res" where
  "edit_port name f c =
     res_bind (deref (gget (Port c) name)) (\<lambda>p. res_bind (f p) (\<lambda>p. Inr (c\<lparr>Port := gput name p (Port c)\<rparr>)))"

definition edit_interface ::
    "string \<Rightarrow> (PacketTransponder_Interface \<Rightarrow> PacketTransponder_Interface res) \<Rightarrow> PacketTransponder \<Rightarrow> PacketTransponder res" where
  "edit_interface name f c =
     res_bind (deref (gget (Interface c) name)) (\<lambda>i. res_bind (f i) (\<lambda>i. Inr (c\<lparr>Interface := gput name i (Interface c)\<rparr>)))"

definition edit_module ::
    "string \<Rightarrow> (PacketTransponder_OpticalModule \<Rightarrow> PacketTransponder_OpticalModule res) \<Rightarrow> PacketTransponder \<Rightarrow> PacketTransponder res" where
  "edit_module name f c =
     res_bind (deref (gget (OpticalModule c) name)) (\<lambda>m. res_bind (f m) (\<lambda>m. Inr (c\<lparr>OpticalModule := gput name m (OpticalModule c)\<rparr>)))"

definition edit_connection ::
    "string \<Rightarrow> (OpticalModuleConnection \<Rightarrow> OpticalModuleConnection res) \<Rightarrow> PacketTransponder \<Rightarrow> PacketTransponder res" where
  "edit_connection name f =
     edit_interface name (\<lambda>i. res_bind (deref (if_OpticalModuleConnection i)) (\<lambda>cn.
       res_bind (f cn) (\<lambda>cn. Inr (i\<lparr>if_OpticalModuleConnection := Some cn\<rparr>))))"

definition edit_connection_module ::
    "string \<Rightarrow> (Connection_OpticalModule \<Rightarrow> Connection_OpticalModule) \<Rightarrow> PacketTransponder \<Rightarrow> PacketTransponder res" where
  "edit_connection_module name f =
     edit_connection name (\<lambda>cn. res_bind (deref (omc_OpticalModule cn)) (\<lambda>m. Inr (cn\<lparr>omc_OpticalModule := Some (f m)\<rparr>)))"

subsection \<open>newInterface\<close>

definition newInterface :: "string \<Rightarrow> ETHERNET_SPEED \<Rightarrow> PacketTransponder \<Rightarrow> PacketTransponder res" where
  "newInterface name speed t =
     res_bind (NewInterface name t) (edit_interface name (\<lambda>iface. Inr (iface\<lparr>if_Mtu := Some 1500, if_PortSpeed := speed\<rparr>)))"

subsection \<open>port\<close>

datatype port_command = PortChannelSpeed | PortNumChannels | PortDescription | PortDescriptionClear

definition port_pre :: "string \<Rightarrow> PacketTransponder \<Rightarrow> PacketTransponder res" where
  "port_pre name c = (case gget (Port c) name of None \<Rightarrow> Inl (Errorf ''port %s doesn't exist'' [name]) | Some p \<Rightarrow> Inr c)"

definition edit_breakout ::
    "string \<Rightarrow> (BreakoutMode \<Rightarrow> BreakoutMode res) \<Rightarrow> PacketTransponder \<Rightarrow> PacketTransponder res" where
  "edit_breakout name f =
     edit_port name (\<lambda>p. res_bind (deref (pt_BreakoutMode p)) (\<lambda>b. res_bind (f b) (\<lambda>b. Inr (p\<lparr>pt_BreakoutMode := Some b\<rparr>))))"

definition port_number :: "string \<Rightarrow> int res" where
  "port_number name = res_bind (slice_from name 4) Atoi"

definition port_channel_speed :: "string \<Rightarrow> string list \<Rightarrow> PacketTransponder \<Rightarrow> PacketTransponder res" where
  "port_channel_speed name args c =
     (if length args \<noteq> 1 then Inl invalid_usage
      else let s = args ! 0; speed = enum_search ethernet_speed_enum ETHERNET_SPEED_UNSET s in
        if speed = ETHERNET_SPEED_UNSET then Inl (Errorf ''unknown speed: %s'' [s])
        else res_bind (edit_breakout name (\<lambda>b. Inr (b\<lparr>bm_ChannelSpeed := speed\<rparr>)) c) (\<lambda>c.
          res_bind (port_number name) (\<lambda>portNum.
          let ethName = eth_name portNum in
          Inr (c\<lparr>Interface := gmap_entries (\<lambda>k v.
            if k = ethName \<or> HasPrefix k (ethName @ ''_'') then v\<lparr>if_PortSpeed := speed\<rparr> else v) (Interface c)\<rparr>))))"

definition delete_interface :: "string \<Rightarrow> PacketTransponder \<Rightarrow> PacketTransponder" where
  "delete_interface name c = c\<lparr>Interface := gdel name (Interface c)\<rparr>"

definition channel_speed_of :: "string \<Rightarrow> PacketTransponder \<Rightarrow> ETHERNET_SPEED res" where
  "channel_speed_of name c =
     res_bind (deref (gget (Port c) name)) (\<lambda>p. res_bind (deref (pt_BreakoutMode p)) (\<lambda>b. Inr (bm_ChannelSpeed b)))"

definition join_channels :: "string \<Rightarrow> int \<Rightarrow> PacketTransponder \<Rightarrow> PacketTransponder res" where
  "join_channels name portNum c =
     (let c = fold (\<lambda>i. delete_interface (eth_sub_name portNum i)) [1..<5] c in
      res_bind (channel_speed_of name c) (\<lambda>speed. newInterface (eth_name portNum) speed c))"

definition split_channels :: "string \<Rightarrow> int \<Rightarrow> PacketTransponder \<Rightarrow> PacketTransponder res" where
  "split_channels name portNum c =
     for_res (\<lambda>i c. res_bind (channel_speed_of name c) (\<lambda>speed. newInterface (eth_sub_name portNum i) speed c))
       [1..<5] (delete_interface (eth_name portNum) c)"

definition port_num_channels :: "string \<Rightarrow> string list \<Rightarrow> PacketTransponder \<Rightarrow> PacketTransponder res" where
  "port_num_channels name args c =
     (if length args \<noteq> 1 then Inl (Errorf ''specify channel number'' [])
      else res_bind (ParseUint (args ! 0) 8) (\<lambda>num.
        if num \<noteq> 1 \<and> num \<noteq> 4 then Inl (Errorf ''supported num-channels: 1, 2 or 4'' [])
        else res_bind (edit_breakout name (\<lambda>b. res_bind (deref (bm_NumChannels b)) (\<lambda>old.
            if old = of_nat num then Inl (Errorf ''num-channels is already set to %d'' [itoa_nat num])
            else Inr (b\<lparr>bm_NumChannels := Some (of_nat num)\<rparr>))) c) (\<lambda>c.
          res_bind (port_number name) (\<lambda>portNum.
            if num = 1 then join_channels name portNum c else split_channels name portNum c))))"

definition port_description :: "string \<Rightarrow> string list \<Rightarrow> PacketTransponder \<Rightarrow> PacketTransponder res" where
  "port_description name args c =
     edit_port name (\<lambda>p. Inr (if args = [] then p else p\<lparr>pt_Description := Some (Join args '' '')\<rparr>)) c"

definition port_description_clear :: "string \<Rightarrow> PacketTransponder \<Rightarrow> PacketTransponder res" where
  "port_description_clear name = edit_port name (\<lambda>p. Inr (p\<lparr>pt_Description := None\<rparr>))"

fun port_run :: "port_command \<Rightarrow> string \<Rightarrow> string list \<Rightarrow> PacketTransponder \<Rightarrow> PacketTransponder res" where
  "port_run PortChannelSpeed name args c = port_channel_speed name args c"
| "port_run PortNumChannels name args c = port_num_channels name args c"
| "port_run PortDescription name args c = port_description name args c"
| "port_run PortDescriptionClear name args c = port_description_clear name c"

subsection \<open>interface\<close>

datatype interface_command =
    IfId | IfModuleName | IfModuleChannel | IfConnectionClear | IfDescription | IfDescriptionClear

fun interface_args :: "interface_command \<Rightarrow> string list \<Rightarrow> unit res" where
  "interface_args IfId args = exact_args 1 args"
| "interface_args IfModuleName args = exact_args 1 args"
| "interface_args IfModuleChannel args = only_valid_args [''A'', ''B''] args"
| "interface_args IfConnectionClear args = no_args args"
| "interface_args IfDescription args = any_args args"
| "interface_args IfDescriptionClear args = no_args args"

text \<open>Before any command of an interface its connection is made to exist.\<close>

definition interface_pre :: "string \<Rightarrow> PacketTransponder \<Rightarrow> PacketTransponder res" where
  "interface_pre name c =
     (case gget (Interface c) name of
        None \<Rightarrow> Inl (Errorf ''interface %s doesn't exist'' [name])
      | Some i \<Rightarrow>
          let cn = (case if_OpticalModuleConnection i of None \<Rightarrow> zero_Connection | Some cn \<Rightarrow> cn);
              cn = (if omc_OpticalModule cn = None then cn\<lparr>omc_OpticalModule := Some zero_Connection_OpticalModule\<rparr> else cn)
          in Inr (c\<lparr>Interface := gput name (i\<lparr>if_OpticalModuleConnection := Some cn\<rparr>) (Interface c)\<rparr>))"

definition interface_id :: "string \<Rightarrow> string list \<Rightarrow> PacketTransponder \<Rightarrow> PacketTransponder res" where
  "interface_id name args c =
     (if length args \<noteq> 1 then Inl invalid_usage
      else res_bind (ParseUint (args ! 0) 32) (\<lambda>id.
        if id < 100 \<or> 4000 < id then Inl (Errorf ''id must be between 100 and 4000'' [])
        else edit_connection name (\<lambda>cn. Inr (cn\<lparr>omc_Id := Some (of_nat id)\<rparr>)) c))"

definition interface_module_name :: "string \<Rightarrow> string list \<Rightarrow> PacketTransponder \<Rightarrow> PacketTransponder res" where
  "interface_module_name name args c =
     (if length args \<noteq> 1 then Inl invalid_usage
      else case gget (OpticalModule c) (args ! 0) of
        None \<Rightarrow> Inl (Errorf ''not found optical module %s'' [args ! 0])
      | Some m \<Rightarrow> edit_connection_module name (\<lambda>m. m\<lparr>com_Name := Some (args ! 0)\<rparr>) c)"

definition interface_module_channel :: "string \<Rightarrow> string list \<Rightarrow> PacketTransponder \<Rightarrow> PacketTransponder res" where
  "interface_module_channel name args c =
     (if length args \<noteq> 1 then Inl invalid_usage
      else if args ! 0 \<noteq> ''A'' \<and> args ! 0 \<noteq> ''B''
      then Inl (Errorf (''unsupported channel %s, supported channels are 'A' and 'B'' @ [CHR 0x27]) [args ! 0])
      else edit_connection_module name (\<lambda>m. m\<lparr>com_Channel := Some (args ! 0)\<rparr>) c)"

definition interface_connection_clear :: "string \<Rightarrow> PacketTransponder \<Rightarrow> PacketTransponder res" where
  "interface_connection_clear name = edit_interface name (\<lambda>i. Inr (i\<lparr>if_OpticalModuleConnection := None\<rparr>))"

definition interface_description :: "string \<Rightarrow> string list \<Rightarrow> PacketTransponder \<Rightarrow> PacketTransponder res" where
  "interface_description name args c =
     edit_interface name (\<lambda>i. Inr (if args = [] then i else i\<lparr>if_Description := Some (Join args '' '')\<rparr>)) c"

text \<open>The command clears the description of the port of that name.\<close>

definition interface_description_clear :: "string \<Rightarrow> PacketTransponder \<Rightarrow> PacketTransponder res" where
  "interface_description_clear name = edit_port name (\<lambda>p. Inr (p\<lparr>pt_Description := None\<rparr>))"

fun interface_run :: "interface_command \<Rightarrow> string \<Rightarrow> string list \<Rightarrow> PacketTransponder \<Rightarrow> PacketTransponder res" where
  "interface_run IfId name args c = interface_id name args c"
| "interface_run IfModuleName name args c = interface_module_name name args c"
| "interface_run IfModuleChannel name args c = interface_module_channel name args c"
| "interface_run IfConnectionClear name args c = interface_connection_clear name c"
| "interface_run IfDescription name args c = interface_description name args c"
| "interface_run IfDescriptionClear name args c = interface_description_clear name c"

subsection \<open>optical-module\<close>

datatype module_command =
    OmGrid | OmFrequencyChannel | OmBerInterval | OmEnable | OmDisable | OmPrbs | OmLosi
  | OmAllowOversubscription | OmAllowOversubscriptionClear | OmModulationType | OmDescription | OmDescriptionClear

definition modulation_names :: "string list" where
  "modulation_names = map (\<lambda>(e, c, n). n) modulation_enum"

fun module_args :: "module_command \<Rightarrow> string list \<Rightarrow> unit res" where
  "module_args OmGrid args = any_args args"
| "module_args OmFrequencyChannel args = any_args args"
| "module_args OmBerInterval args = exact_args 1 args"
| "module_args OmEnable args = no_args args"
| "module_args OmDisable args = no_args args"
| "module_args OmPrbs args = only_valid_args [''on'', ''off''] args"
| "module_args OmLosi args = only_valid_args [''on'', ''off''] args"
| "module_args OmAllowOversubscription args = only_valid_args [''true'', ''false''] args"
| "module_args OmAllowOversubscriptionClear args = no_args args"
| "module_args OmModulationType args = only_valid_args modulation_names args"
| "module_args OmDescription args = any_args args"
| "module_args OmDescriptionClear args = no_args args"

definition module_exists :: "string \<Rightarrow> PacketTransponder \<Rightarrow> PacketTransponder res" where
  "module_exists name c =
     (case gget (OpticalModule c) name of None \<Rightarrow> Inl (Errorf ''optical-module %s doesn't exist'' [name]) | Some m \<Rightarrow> Inr c)"

definition frequency_pre :: "string \<Rightarrow> PacketTransponder \<Rightarrow> PacketTransponder res" where
  "frequency_pre name c =
     res_bind (module_exists name c) (edit_module name (\<lambda>m.
       Inr (if om_OpticalModuleFrequency m = None then m\<lparr>om_OpticalModuleFrequency := Some zero_Frequency\<rparr> else m)))"

fun module_pre :: "module_command \<Rightarrow> string \<Rightarrow> PacketTransponder \<Rightarrow> PacketTransponder res" where
  "module_pre cmd name c = (if cmd = OmGrid \<or> cmd = OmFrequencyChannel then frequency_pre name c else module_exists name c)"

definition edit_frequency ::
    "string \<Rightarrow> (OpticalModuleFrequency \<Rightarrow> OpticalModuleFrequency) \<Rightarrow> PacketTransponder \<Rightarrow> PacketTransponder res" where
  "edit_frequency name f =
     edit_module name (\<lambda>m. res_bind (deref (om_OpticalModuleFrequency m)) (\<lambda>g. Inr (m\<lparr>om_OpticalModuleFrequency := Some (f g)\<rparr>)))"

definition module_grid :: "string \<Rightarrow> string list \<Rightarrow> PacketTransponder \<Rightarrow> PacketTransponder res" where
  "module_grid name args c =
     (if length args \<noteq> 1 then Inl invalid_usage
      else let grid = enum_search grid_enum Grid_UNSET (args ! 0) in
        if grid = Grid_UNSET then Inl (Errorf ''unknown grid: %s'' [args ! 0])
        else edit_frequency name (\<lambda>g. g\<lparr>omf_Grid := grid\<rparr>) c)"

definition module_frequency_channel :: "string \<Rightarrow> string list \<Rightarrow> PacketTransponder \<Rightarrow> PacketTransponder res" where
  "module_frequency_channel name args c =
     (if length args \<noteq> 1 then Inl invalid_usage
      else res_bind (ParseUint (args ! 0) 8) (\<lambda>channel.
        if channel < 1 then Inl (Errorf ''channel can't be 0'' [])
        else edit_frequency name (\<lambda>g. g\<lparr>omf_Channel := Some (of_nat channel)\<rparr>) c))"

definition module_ber_interval :: "string \<Rightarrow> string list \<Rightarrow> PacketTransponder \<Rightarrow> PacketTransponder res" where
  "module_ber_interval name args c =
     (if length args \<noteq> 1 then Inl invalid_usage
      else res_bind (ParseUint (args ! 0) 32) (\<lambda>interval.
        if interval < 5 then Inl (Errorf ''interval can't be less than 5 seconds'' [])
        else edit_module name (\<lambda>m. Inr (m\<lparr>om_BerInterval := Some (of_nat interval)\<rparr>)) c))"

definition module_enabled :: "bool \<Rightarrow> string \<Rightarrow> PacketTransponder \<Rightarrow> PacketTransponder res" where
  "module_enabled b name = edit_module name (\<lambda>m. Inr (m\<lparr>om_Enabled := Some b\<rparr>))"

definition module_prbs :: "string \<Rightarrow> string list \<Rightarrow> PacketTransponder \<Rightarrow> PacketTransponder res" where
  "module_prbs name args c =
     (if length args \<noteq> 1 then Inl invalid_usage
      else edit_module name (\<lambda>m. Inr (m\<lparr>om_Prbs := Some (args ! 0 = ''on'')\<rparr>)) c)"

definition module_losi :: "string \<Rightarrow> string list \<Rightarrow> PacketTransponder \<Rightarrow> PacketTransponder res" where
  "module_losi name args c =
     (if length args \<noteq> 1 then Inl invalid_usage
      else edit_module name (\<lambda>m. Inr (m\<lparr>om_Losi := Some (args ! 0 = ''on'')\<rparr>)) c)"

definition module_allow_clear :: "string \<Rightarrow> PacketTransponder \<Rightarrow> PacketTransponder res" where
  "module_allow_clear name = edit_module name (\<lambda>m. Inr (m\<lparr>om_AllowOversubscription := None\<rparr>))"

definition module_allow :: "string \<Rightarrow> string list \<Rightarrow> PacketTransponder \<Rightarrow> PacketTransponder res" where
  "module_allow name args c =
     (if length args \<noteq> 1 then Inl invalid_usage
      else edit_module name (\<lambda>m. Inr (m\<lparr>om_AllowOversubscription := Some (args ! 0 = ''true'')\<rparr>)) c)"

definition module_modulation :: "string \<Rightarrow> string list \<Rightarrow> PacketTransponder \<Rightarrow> PacketTransponder res" where
  "module_modulation name args c =
     (if length args \<noteq> 1 then Inl invalid_usage
      else let m' = enum_search modulation_enum Modulation_UNSET (args ! 0) in
        if m' = Modulation_UNSET then Inl (Errorf ''unknown modulation-type: %s'' [args ! 0])
        else edit_module name (\<lambda>m. Inr (m\<lparr>om_ModulationType := m'\<rparr>)) c)"

definition module_description_clear :: "string \<Rightarrow> PacketTransponder \<Rightarrow> PacketTransponder res" where
  "module_description_clear name = edit_module name (\<lambda>m. Inr (m\<lparr>om_Description := None\<rparr>))"

definition module_description :: "string \<Rightarrow> string list \<Rightarrow> PacketTransponder \<Rightarrow> PacketTransponder res" where
  "module_description name args c =
     edit_module name (\<lambda>m. Inr (if args = [] then m else m\<lparr>om_Description := Some (Join args '' '')\<rparr>)) c"

fun module_run :: "module_command \<Rightarrow> string \<Rightarrow> string list \<Rightarrow> PacketTransponder \<Rightarrow> PacketTransponder res" where
  "module_run OmGrid name args c = module_grid name args c"
| "module_run OmFrequencyChannel name args c = module_frequency_channel name args c"
| "module_run OmBerInterval name args c = module_ber_interval name args c"
| "module_run OmEnable name args c = module_enabled True name c"
| "module_run OmDisable name args c = module_enabled False name c"
| "module_run OmPrbs name args c = module_prbs name args c"
| "module_run OmLosi name args c = module_losi name args c"
| "module_run OmAllowOversubscription name args c = module_allow name args c"
| "module_run OmAllowOversubscriptionClear name args c = module_allow_clear name c"
| "module_run OmModulationType name args c = module_modulation name args c"
| "module_run OmDescription name args c = module_description name args c"
| "module_run OmDescriptionClear name args c = module_description_clear name c"

subsection \<open>allow-oversubscription\<close>

definition allow_oversubscription :: "string list \<Rightarrow> PacketTransponder \<Rightarrow> PacketTransponder res" where
  "allow_oversubscription args c =
     (if length args \<noteq> 1 then Inl invalid_usage
      else Inr (c\<lparr>AllowOversubscription := Some (args ! 0 = ''true'')\<rparr>))"

subsection \<open>The edit commands\<close>

datatype edit_command =
    PortCmd port_command string
  | InterfaceCmd interface_command string
  | ModuleCmd module_command string
  | AllowOversubscriptionCmd

fun command_args :: "edit_command \<Rightarrow> string list \<Rightarrow> unit res" where
  "command_args (PortCmd cmd name) args = any_args args"
| "command_args (InterfaceCmd cmd name) args = interface_args cmd args"
| "command_args (ModuleCmd cmd name) args = module_args cmd args"
| "command_args AllowOversubscriptionCmd args = only_valid_args [''true'', ''false''] args"

fun command_pre :: "edit_command \<Rightarrow> PacketTransponder \<Rightarrow> PacketTransponder res" where
  "command_pre (PortCmd cmd name) c = port_pre name c"
| "command_pre (InterfaceCmd cmd name) c = interface_pre name c"
| "command_pre (ModuleCmd cmd name) c = module_pre cmd name c"
| "command_pre AllowOversubscriptionCmd c = Inr c"

fun command_run :: "edit_command \<Rightarrow> string list \<Rightarrow> PacketTransponder \<Rightarrow> PacketTransponder res" where
  "command_run (PortCmd cmd name) args c = port_run cmd name args c"
| "command_run (InterfaceCmd cmd name) args c = interface_run cmd name args c"
| "command_run (ModuleCmd cmd name) args c = module_run cmd name args c"
| "command_run AllowOversubscriptionCmd args c = allow_oversubscription args c"

definition execute_edit :: "'s host_ops \<Rightarrow> codec \<Rightarrow> edit_command \<Rightarrow> string list \<Rightarrow> ('s, unit) prog" where
  "execute_edit H C cmd args =
     cobra_execute (command_args cmd args)
       (pbind (persistentPreRunE H C) (\<lambda>c. plift (command_pre cmd c)))
       (\<lambda>c. plift (command_run cmd args c)) (persistentPostRunE H C)"

subsection \<open>Showing\<close>

text \<open>
  The commands without a leaf print one entry or all of them. \<open>port\<close> and \<open>interface\<close> and the commands of a module
  save the configuration again afterwards, \<open>interface <name> state\<close> and \<open>optical-module\<close> do not.
\<close>

definition show_one :: "codec \<Rightarrow> go_struct \<Rightarrow> unit res" where
  "show_one C x = res_bind (cd_EmitJSON C x) (\<lambda>json. Inr ())"

definition show_ports :: "codec \<Rightarrow> PacketTransponder \<Rightarrow> PacketTransponder res" where
  "show_ports C c = res_bind (for_res (\<lambda>(k, p) u. show_one C (PortS (Some p))) (Port c) ()) (\<lambda>_. Inr c)"

definition show_port :: "codec \<Rightarrow> string \<Rightarrow> PacketTransponder \<Rightarrow> PacketTransponder res" where
  "show_port C name c = res_bind (show_one C (PortS (gget (Port c) name))) (\<lambda>_. Inr c)"

definition show_interfaces :: "codec \<Rightarrow> PacketTransponder \<Rightarrow> PacketTransponder res" where
  "show_interfaces C c = res_bind (for_res (\<lambda>(k, i) u. show_one C (InterfaceS (Some i))) (Interface c) ()) (\<lambda>_. Inr c)"

definition show_interface :: "codec \<Rightarrow> string \<Rightarrow> PacketTransponder \<Rightarrow> PacketTransponder res" where
  "show_interface C name c = res_bind (show_one C (InterfaceS (gget (Interface c) name))) (\<lambda>_. Inr c)"

definition interface_state :: "'s redis_ops \<Rightarrow> codec \<Rightarrow> string \<Rightarrow> PacketTransponder \<Rightarrow> ('s, PacketTransponder) prog" where
  "interface_state R C name c =
     pbind (FillInterfaceState R name (gget (Interface c) name)) (\<lambda>i.
     pbind (plift (show_one C (InterfaceS (Some i)))) (\<lambda>_.
       pret (c\<lparr>Interface := gput name i (Interface c)\<rparr>)))"

text \<open>\<open>optical-module\<close> with \<open>--verbose\<close> completes the modules of \<open>current\<close>; a single module is copied first.\<close>

definition show_modules :: "codec \<Rightarrow> bool \<Rightarrow> PacketTransponder \<Rightarrow> PacketTransponder res" where
  "show_modules C verbose c =
     res_bind (for_map (\<lambda>k m.
       res_bind (if verbose then FillTransportDefaultConfig m c else Inr m) (\<lambda>m.
       res_bind (show_one C (ModuleS (Some m))) (\<lambda>_. Inr m))) (OpticalModule c)) (\<lambda>oms. Inr (c\<lparr>OpticalModule := oms\<rparr>))"

definition module_copy :: "bool \<Rightarrow> string \<Rightarrow> PacketTransponder \<Rightarrow> PacketTransponder_OpticalModule res" where
  "module_copy verbose name c =
     res_bind (deref (gget (OpticalModule c) name)) (\<lambda>m. if verbose then FillTransportDefaultConfig m c else Inr m)"

definition show_module :: "codec \<Rightarrow> bool \<Rightarrow> string \<Rightarrow> PacketTransponder \<Rightarrow> PacketTransponder res" where
  "show_module C verbose name c =
     res_bind (module_copy verbose name c) (\<lambda>m. res_bind (show_one C (ModuleS (Some m))) (\<lambda>_. Inr c))"

definition module_state ::
    "'s redis_ops \<Rightarrow> codec \<Rightarrow> bool \<Rightarrow> bool \<Rightarrow> string \<Rightarrow> PacketTransponder \<Rightarrow> ('s, PacketTransponder) prog" where
  "module_state R C dry verbose name c =
     pbind (plift (module_copy verbose name c)) (\<lambda>m.
     pbind (if dry then pret m else FillTransportState R name (Some m)) (\<lambda>m.
     pbind (plift (show_one C (ModuleS (Some m)))) (\<lambda>_. pret c)))"

datatype show_command = ShowPorts | ShowPort string | ShowInterfaces | ShowInterface string | InterfaceState string
  | ShowModules bool | ShowModule bool string | ModuleState bool string

fun show_pre :: "show_command \<Rightarrow> PacketTransponder \<Rightarrow> PacketTransponder res" where
  "show_pre (ShowPort name) c = port_pre name c"
| "show_pre (ShowInterface name) c = interface_pre name c"
| "show_pre (InterfaceState name) c = interface_pre name c"
| "show_pre (ShowModule v name) c = module_exists name c"
| "show_pre (ModuleState v name) c = module_exists name c"
| "show_pre _ c = Inr c"

fun show_run :: "'s redis_ops \<Rightarrow> codec \<Rightarrow> bool \<Rightarrow> show_command \<Rightarrow> PacketTransponder \<Rightarrow> ('s, PacketTransponder) prog" where
  "show_run R C dry ShowPorts c = plift (show_ports C c)"
| "show_run R C dry (ShowPort name) c = plift (show_port C name c)"
| "show_run R C dry ShowInterfaces c = plift (show_interfaces C c)"
| "show_run R C dry (ShowInterface name) c = plift (show_interface C name c)"
| "show_run R C dry (InterfaceState name) c = interface_state R C name c"
| "show_run R C dry (ShowModules v) c = plift (show_modules C v c)"
| "show_run R C dry (ShowModule v name) c = plift (show_module C v name c)"
| "show_run R C dry (ModuleState v name) c = module_state R C dry v name c"

fun show_saves :: "show_command \<Rightarrow> bool" where
  "show_saves (InterfaceState name) = False"
| "show_saves (ShowModules v) = False"
| "show_saves _ = True"

fun show_args :: "show_command \<Rightarrow> string list \<Rightarrow> unit res" where
  "show_args (InterfaceState name) args = no_args args"
| "show_args (ModuleState v name) args = no_args args"
| "show_args _ args = any_args args"

definition execute_show ::
    "'s redis_ops \<Rightarrow> 's host_ops \<Rightarrow> codec \<Rightarrow> bool \<Rightarrow> show_command \<Rightarrow> string list \<Rightarrow> ('s, unit) prog" where
  "execute_show R H C dry cmd args =
     cobra_execute (show_args cmd args)
       (pbind (persistentPreRunE H C) (\<lambda>c. plift (show_pre cmd c)))
       (show_run R C dry cmd) (if show_saves cmd then persistentPostRunE H C else (\<lambda>c. pret ()))"

subsection \<open>The default configuration\<close>

definition portNum :: nat where "portNum = 16"
definition opticalModuleNum :: nat where "opticalModuleNum = 8"

definition default_port :: "nat \<Rightarrow> PacketTransponder \<Rightarrow> PacketTransponder res" where
  "default_port i d =
     res_bind (wrap_err ''failed to create port: %v'' (NewPort (port_name_of i) d)) (\<lambda>d.
     res_bind (edit_port (port_name_of i) (\<lambda>p. Inr (p\<lparr>pt_BreakoutMode :=
       Some \<lparr>bm_ChannelSpeed = SPEED_100GB, bm_NumChannels = Some 1\<rparr>\<rparr>)) d)
       (newInterface (eth_name (int i)) SPEED_100GB))"

definition default_module :: "nat \<Rightarrow> PacketTransponder \<Rightarrow> PacketTransponder res" where
  "default_module i d = wrap_err ''failed to create optical module: %v'' (NewOpticalModule (opt_name i) d)"

definition defaultConfiguration :: "PacketTransponder res" where
  "defaultConfiguration =
     res_bind (for_res default_port [1..<portNum + 1] zero_PacketTransponder)
       (for_res default_module [1..<opticalModuleNum + 1])"

subsection \<open>The configuration file\<close>

context kubernetes
begin

text \<open>Creating a file and writing a line into it leaves exactly the line.\<close>

lemma save_file:
  "\<exists>t. pseq (pwrap msg (ho_create H f)) (write_line H f x) s = (Inr (), t) \<and>
     files t = (files s)(f \<mapsto> x @ [newline]) \<and> deployed t = deployed s"
proof -
  obtain t1 where t1: "ho_create H f s = (Inr (), t1)" "files t1 = (files s)(f \<mapsto> [])" "deployed t1 = deployed s"
    using fcreate by blast
  obtain t2 where t2: "ho_write H f x t1 = (Inr (), t2)" "files t2 = (files t1)(f \<mapsto> [] @ x)" "deployed t2 = deployed t1"
    using fwrite [of t1 f "[]" x] t1(2) by auto
  obtain t3 where t3: "ho_write H f [newline] t2 = (Inr (), t3)" "files t3 = (files t2)(f \<mapsto> x @ [newline])" "deployed t3 = deployed t2"
    using fwrite [of t2 f x "[newline]"] t2(2) by auto
  have "pwrap msg (ho_create H f) s = (Inr (), t1)" by (simp add: pwrap_def t1(1) wrap_err_def)
  moreover have "write_line H f x t1 = (Inr (), t3)"
    by (simp add: write_line_def pbind_def ptry_def pret_def t2(1) t3(1))
  ultimately show ?thesis using t1 t2 t3 by (simp add: pseq_def pbind_def)
qed

lemma load_file:
  "files s f = Some x \<Longrightarrow> \<exists>t. pwrap msg (ho_read H f) s = (Inr x, t) \<and> files t = files s \<and> deployed t = deployed s"
  using fread [of s f x] by (auto simp: pwrap_def wrap_err_def)

lemma persistentPostRunE_run:
  "persistentPostRunE H C c s = (r, t) \<Longrightarrow>
     (case cd_EmitJSON C (TransponderS c) of
        Inl e \<Rightarrow> t = s \<and> (\<exists>e'. r = Inl e')
      | Inr x \<Rightarrow> r = Inr () \<and> files t = (files s)(in_git_dir H CONFIG_FILE \<mapsto> x @ [newline]) \<and> deployed t = deployed s)"
  using save_file [of "''%v''" "in_git_dir H CONFIG_FILE" _ s]
  by (auto simp: persistentPostRunE_def pbind_def plift_def wrap_err_def split: sum.split if_splits) (metis prod.inject)+

end

end
