(* ===== verification/Commit.thy ===== *)
theory Commit
  imports Cli
begin

section \<open>Commits (cmd/oopt/main.go)\<close>

text \<open>
  The configurations are kept in a git repository. \<open>commit\<close> validates \<open>current\<close>, commits the file, and brings
  the hardware from the previous commit to the new one: \<open>handleDiff\<close> sorts the changed leaves
  by object and hands them to the handlers, or the whole system is rebooted. \<open>rollback\<close> commits an
  earlier configuration again. go-git and \<open>ygot.Diff\<close> are parameters; a commit is an abstract
  value, the log is the list of commits from the head back, and \<open>git_file\<close> is the chain \<open>Tree\<close>,
  \<open>File\<close>, \<open>Contents\<close>.
\<close>

record ('s, 'c) git_ops =
  git_init :: "string \<Rightarrow> ('s, unit) prog"
  git_open :: "string \<Rightarrow> ('s, unit) prog"
  git_worktree :: "('s, unit) prog"
  git_add :: "string \<Rightarrow> ('s, unit) prog"
  git_commit :: "string \<Rightarrow> bool \<Rightarrow> ('s, unit) prog"
  git_log :: "('s, 'c list) prog"
  git_file :: "'c \<Rightarrow> string \<Rightarrow> ('s, string) prog"

text \<open>A \<open>gnmi.Notification\<close>: the changed leaves with their values and the deleted ones.\<close>

record Notification =
  nt_Update :: "(PathElem list \<times> TypedValue option) list"
  nt_Delete :: "PathElem list list"

record ('s, 'c) env =
  en_redis :: "'s redis_ops"
  en_host :: "'s host_ops"
  en_git :: "('s, 'c) git_ops"
  en_codec :: codec
  en_diff :: "PacketTransponder \<Rightarrow> PacketTransponder \<Rightarrow> Notification res"
  en_now :: string
  en_dry :: bool
  en_virtual :: bool

subsection \<open>init\<close>

definition RemoveContents :: "'s host_ops \<Rightarrow> string \<Rightarrow> ('s, unit) prog" where
  "RemoveContents H dir =
     pbind (ho_readdir H dir) (pfor (\<lambda>name. ho_remove_all H (dir @ ''/'' @ name)))"

definition init_repo :: "('s, 'c) env \<Rightarrow> bool \<Rightarrow> ('s, unit) prog" where
  "init_repo E force =
     (let dir = ho_git_dir (en_host E) in
      pbind (ptry (git_init (en_git E) dir)) (\<lambda>r.
        case r of Inr u \<Rightarrow> pret ()
        | Inl e \<Rightarrow> if force then pseq (RemoveContents (en_host E) dir) (git_init (en_git E) dir) else pfail e))"

definition initConfig :: "('s, 'c) env \<Rightarrow> bool \<Rightarrow> ('s, unit) prog" where
  "initConfig E force =
     (let H = en_host E; G = en_git E; file = in_git_dir H CONFIG_FILE in
      pbind (plift defaultConfiguration) (\<lambda>c.
      pbind (plift (cd_EmitJSON (en_codec E) (TransponderS c))) (\<lambda>json.
      pseq (init_repo E force)
      (pseq (ho_create H file)
      (pseq (write_line H file json)
      (pseq (git_worktree G)
      (pseq (pwrap ''git-add: %v'' (git_add G CONFIG_FILE))
        (git_commit G ''initial commit'' False))))))))"

definition reboot_with :: "('s, 'c) env \<Rightarrow> PacketTransponder \<Rightarrow> ('s, unit) prog" where
  "reboot_with E = rebootSystem (en_redis E) (en_host E) (en_dry E) (en_virtual E)"

definition init_cmd :: "('s, 'c) env \<Rightarrow> bool \<Rightarrow> ('s, unit) prog" where
  "init_cmd E force =
     pseq (initConfig E force)
     (pbind (persistentPreRunE (en_host E) (en_codec E)) (\<lambda>current.
      pbind (plift (validateFinal current)) (reboot_with E)))"

subsection \<open>dump, reboot and status\<close>

text \<open>No \<open>PersistentPreRunE\<close> runs before \<open>dump\<close>: the global \<open>current\<close> is nil.\<close>

definition dump_cmd :: "('s, 'c) env \<Rightarrow> bool \<Rightarrow> ('s, unit) prog" where
  "dump_cmd E verbose =
     pbind (ho_read (en_host E) (in_git_dir (en_host E) CONFIG_FILE)) (\<lambda>data.
     pbind (plift (cd_Unmarshal (en_codec E) data)) (\<lambda>t.
     pbind (plift (if verbose then fillDefaultValues None t else Inr t)) (\<lambda>t.
       plift (show_one (en_codec E) (TransponderS t)))))"

definition reboot_cmd :: "('s, 'c) env \<Rightarrow> string list \<Rightarrow> ('s, unit) prog" where
  "reboot_cmd E args =
     pseq (plift (no_args args))
     (pbind (persistentPreRunE (en_host E) (en_codec E)) (\<lambda>current.
      pbind (plift (validateFinal current)) (reboot_with E)))"

definition status_cmd :: "'s host_ops \<Rightarrow> ('s, unit) prog" where
  "status_cmd H = run_cmd H [''get'', ''pod'']"

text \<open>\<open>diff\<close> shows what \<open>git diff\<close> prints in the git directory; \<open>chdir\<close> and \<open>git\<close> are the two system calls.\<close>

definition diff_cmd ::
    "'s host_ops \<Rightarrow> codec \<Rightarrow> (string \<Rightarrow> ('s, unit) prog) \<Rightarrow> (string list \<Rightarrow> ('s, string) prog) \<Rightarrow> string list \<Rightarrow> ('s, string) prog" where
  "diff_cmd H cd chdir git args =
     pseq (plift (no_args args))
     (pbind (persistentPreRunE H cd) (\<lambda>current.
      pseq (chdir (ho_git_dir H)) (git [''diff'', ''--color''])))"

subsection \<open>handleDiff\<close>

definition getPacketTransport :: "('s, 'c) env \<Rightarrow> 'c \<Rightarrow> ('s, PacketTransponder) prog" where
  "getPacketTransport E c = pbind (git_file (en_git E) c CONFIG_FILE) (\<lambda>json. plift (cd_Unmarshal (en_codec E) json))"

record diff_tasks =
  optDiffTask :: "DiffTask list gomap"
  intfDiffTask :: "DiffTask list gomap"
  portDiffTask :: "DiffTask list gomap"

definition append_task :: "string \<Rightarrow> DiffTask \<Rightarrow> DiffTask list gomap \<Rightarrow> DiffTask list gomap" where
  "append_task name t m = gput name ((case gget m name of None \<Rightarrow> [] | Some ts \<Rightarrow> ts) @ [t]) m"

definition elem_name_key :: "PathElem \<Rightarrow> string" where
  "elem_name_key n = (case gget (pe_Key n) ''name'' of None \<Rightarrow> [] | Some k \<Rightarrow> k)"

definition add_task :: "DiffType \<Rightarrow> PathElem list \<times> TypedValue option \<Rightarrow> diff_tasks \<Rightarrow> diff_tasks res" where
  "add_task ty ev d =
     (case fst ev of
        e # n # rest \<Rightarrow>
          let upd = append_task (elem_name_key n) \<lparr>dt_Type = ty, dt_Path = rest, dt_Value = snd ev\<rparr> in
          if pe_Name e = ''optical-modules'' then Inr (d\<lparr>optDiffTask := upd (optDiffTask d)\<rparr>)
          else if pe_Name e = ''interfaces'' then Inr (d\<lparr>intfDiffTask := upd (intfDiffTask d)\<rparr>)
          else if pe_Name e = ''ports'' then Inr (d\<lparr>portDiffTask := upd (portDiffTask d)\<rparr>)
          else Inr d
      | _ \<Rightarrow> Inl (Panic ''index out of range''))"

definition sort_tasks :: "Notification \<Rightarrow> diff_tasks res" where
  "sort_tasks diff =
     res_bind (for_res (add_task DiffModified) (nt_Update diff) \<lparr>optDiffTask = [], intfDiffTask = [], portDiffTask = []\<rparr>)
       (for_res (\<lambda>p. add_task DiffDeleted (p, None)) (nt_Delete diff))"

fun port_diffs :: "DiffTask list gomap \<Rightarrow> bool \<Rightarrow> bool \<times> err option" where
  "port_diffs [] rebootOFDPA = (rebootOFDPA, None)"
| "port_diffs ((k, v) # ts) rebootOFDPA =
     (case HandlePortDiff k v of
        Inl e \<Rightarrow> (rebootOFDPA, Some e)
      | Inr reboot \<Rightarrow> port_diffs ts (rebootOFDPA \<or> reboot))"

text \<open>The two results of \<open>handleDiff\<close>: whether OF-DPA has to reboot, and the error.\<close>

definition handleDiff ::
    "'s redis_ops \<Rightarrow> PacketTransponder \<Rightarrow> PacketTransponder \<Rightarrow> Notification \<Rightarrow> ('s, bool \<times> err option) prog" where
  "handleDiff R newConfig oldConfig diff =
     pbind (plift (sort_tasks diff)) (\<lambda>d.
     pbind (ptry (pfor (\<lambda>(k, v). HandleOptDiff R k v) (optDiffTask d))) (\<lambda>r.
       case r of Inl e \<Rightarrow> pret (False, Some e)
       | Inr u \<Rightarrow>
           pbind (ptry (pfor (\<lambda>(k, v). HandleInterfaceDiff R newConfig oldConfig k v) (intfDiffTask d))) (\<lambda>r.
             case r of Inl e \<Rightarrow> pret (False, Some e)
             | Inr u \<Rightarrow> pret (port_diffs (portDiffTask d) False))))"

subsection \<open>commit and rollback\<close>

definition EOF :: err where "EOF = Ext ''EOF''"

text \<open>\<open>iter.Next\<close> n times.\<close>

definition nth_commit :: "'c list \<Rightarrow> nat \<Rightarrow> 'c res" where
  "nth_commit cs n = (if n < length cs then Inr (cs ! n) else Inl EOF)"

definition commit :: "('s, 'c) env \<Rightarrow> string \<Rightarrow> bool \<Rightarrow> PacketTransponder \<Rightarrow> ('s, unit) prog" where
  "commit E commitMessage reboot current =
     (let G = en_git E in
      pbind (plift (validateFinal current)) (\<lambda>current.
      pseq (git_open G (ho_git_dir (en_host E)))
      (pseq (git_worktree G)
      (pseq (git_commit G (if commitMessage = [] then en_now E else commitMessage) True)
      (if en_dry E then pret ()
       else
         pbind (git_log G) (\<lambda>cs.
         pbind (plift (nth_commit cs 0)) (\<lambda>head.
         pbind (getPacketTransport E head) (\<lambda>t.
         pbind (plift (nth_commit cs 1)) (\<lambda>next.
         pbind (getPacketTransport E next) (\<lambda>s.
           if reboot then reboot_with E current
           else
             pbind (plift (en_diff E s t)) (\<lambda>diff.
             pbind (handleDiff (en_redis E) t s diff) (\<lambda>(reboot, err).
               if reboot then reboot_with E current
               else case err of None \<Rightarrow> pret () | Some e \<Rightarrow> pfail e))))))))))))"

definition commit_cmd :: "('s, 'c) env \<Rightarrow> string \<Rightarrow> bool \<Rightarrow> string list \<Rightarrow> ('s, unit) prog" where
  "commit_cmd E message reboot args =
     pbind (persistentPreRunE (en_host E) (en_codec E)) (\<lambda>current.
       if args \<noteq> [] then pfail (Errorf ''%s cmd takes no args'' [''commit'']) else commit E message reboot current)"

text \<open>The commit that \<open>2 + number\<close> calls of \<open>Next\<close> end on; with none the commit stays nil.\<close>

definition rollback_target :: "'c list \<Rightarrow> int \<Rightarrow> 'c res" where
  "rollback_target cs number =
     (if 2 + number \<le> 0 then Inl (Panic ''nil pointer dereference'')
      else nth_commit cs (nat (1 + number)))"

definition rollback_cmd :: "('s, 'c) env \<Rightarrow> int \<Rightarrow> string \<Rightarrow> bool \<Rightarrow> string list \<Rightarrow> ('s, unit) prog" where
  "rollback_cmd E number message reboot args =
     pseq (plift (no_args args))
     (pseq (git_open (en_git E) (ho_git_dir (en_host E)))
     (pbind (git_log (en_git E)) (\<lambda>cs.
      pbind (plift (rollback_target cs number)) (\<lambda>c.
      pbind (getPacketTransport E c) (\<lambda>s.
      pseq (persistentPostRunE (en_host E) (en_codec E) s)
        (commit E (if message = [] then ''rollback('' @ itoa number @ '') '' @ en_now E else message) reboot s))))))"

end
