(* ===== verification/Board.thy ===== *)
theory Board
  imports Commit
begin

section \<open>What the command line keeps true of a configuration\<close>

text \<open>
  The configuration as a state machine: it starts as \<open>defaultConfiguration\<close> and every
  configuration command is a step. \<open>board_ok\<close> is the invariant that the later stages rely on: the sixteen ports,
  the client interfaces that their breakout modes provide, with the port's speed, the eight modules, and
  connections that name them.
\<close>

subsection \<open>Ports and their interfaces\<close>

definition breakout :: "PacketTransponder \<Rightarrow> nat \<Rightarrow> (8 word \<times> ETHERNET_SPEED) option" where
  "breakout c i =
     (case gget (Port c) (port_name_of i) of None \<Rightarrow> None
      | Some p \<Rightarrow> (case pt_BreakoutMode p of None \<Rightarrow> None
      | Some b \<Rightarrow> map_option (\<lambda>n. (n, bm_ChannelSpeed b)) (bm_NumChannels b)))"

definition client_ports :: "nat \<Rightarrow> 8 word \<Rightarrow> string list" where
  "client_ports i n = (if n = 1 then [eth_name (int i)] else map (eth_sub_name (int i)) [1..<5])"

definition speed_at :: "PacketTransponder \<Rightarrow> string \<Rightarrow> ETHERNET_SPEED option" where
  "speed_at c k = map_option if_PortSpeed (gget (Interface c) k)"

definition board_ports :: "PacketTransponder \<Rightarrow> bool" where
  "board_ports c \<longleftrightarrow> gomap_ok (Port c) \<and> gkeys (Port c) = port_name_of ` {1..16} \<and>
     (\<forall>i \<in> {1..16}. \<exists>n s. breakout c i = Some (n, s) \<and> (n = 1 \<or> n = 4) \<and> s \<noteq> ETHERNET_SPEED_UNSET)"

definition board_interfaces :: "PacketTransponder \<Rightarrow> bool" where
  "board_interfaces c \<longleftrightarrow> gomap_ok (Interface c) \<and>
     (\<forall>k s. speed_at c k = Some s \<longleftrightarrow> (\<exists>i \<in> {1..16}. \<exists>n. breakout c i = Some (n, s) \<and> k \<in> set (client_ports i n)))"

definition board_modules :: "PacketTransponder \<Rightarrow> bool" where
  "board_modules c \<longleftrightarrow> gomap_ok (OpticalModule c) \<and> gkeys (OpticalModule c) = opt_name ` {1..8} \<and>
     (\<forall>(k, v) \<in> set (OpticalModule c). plain_module k v)"

definition connection_ok :: "PacketTransponder_Interface \<Rightarrow> bool" where
  "connection_ok v \<longleftrightarrow> (\<forall>cn. if_OpticalModuleConnection v = Some cn \<longrightarrow>
     (\<forall>i. omc_Id cn = Some i \<longrightarrow> 100 \<le> i \<and> i \<le> 4000) \<and>
     (\<forall>m. omc_OpticalModule cn = Some m \<longrightarrow>
        (\<forall>n. com_Name m = Some n \<longrightarrow> n \<in> opt_name ` {1..8}) \<and>
        (\<forall>ch. com_Channel m = Some ch \<longrightarrow> ch = ''A'' \<or> ch = ''B'')))"

definition board_ok :: "PacketTransponder \<Rightarrow> bool" where
  "board_ok c \<longleftrightarrow> board_ports c \<and> board_interfaces c \<and> board_modules c \<and> (\<forall>(k, v) \<in> set (Interface c). connection_ok v)"

text \<open>A step ends in an error that is no panic or in a configuration of the board.\<close>

definition good :: "PacketTransponder res \<Rightarrow> bool" where
  "good r \<longleftrightarrow> (case r of Inl e \<Rightarrow> \<not> is_panic e | Inr c \<Rightarrow> board_ok c)"

lemma good_simps [simp]:
  "good (Inr c) \<longleftrightarrow> board_ok c" "good (Inl (Errorf f as))" "good (Inl invalid_usage)"
  by (simp_all add: good_def is_panic_def invalid_usage_def)

lemma good_bind: "(case r of Inl e \<Rightarrow> \<not> is_panic e | Inr x \<Rightarrow> good (f x)) \<Longrightarrow> good (res_bind r f)"
  by (cases r) (auto simp: good_def)

lemma ParseUint_good: "(\<And>n. ParseUint s b = Inr n \<Longrightarrow> good (f n)) \<Longrightarrow> good (res_bind (ParseUint s b) f)"
  by (auto simp: ParseUint_def is_panic_def good_def split: option.splits)

subsection \<open>Names\<close>

lemma client_ports_unique: "k \<in> set (client_ports i n) \<Longrightarrow> k \<in> set (client_ports j n') \<Longrightarrow> i = j"
  by (auto simp: client_ports_def split: if_splits)

lemma port_number_name: "i \<in> {1..16} \<Longrightarrow> port_number (port_name_of i) = Inr (int i)"
  by (simp add: port_number_def port_name_of_def slice_from_def Atoi_itoa_nat)

lemma own_interface:
  assumes "k \<in> set (client_ports j n)"
  shows "(k = eth_name (int i) \<or> HasPrefix k (eth_name (int i) @ ''_'')) \<longleftrightarrow> j = i"
proof -
  have nb: "CHR ''_'' \<notin> set (eth_name (int i))" for i by (simp add: eth_name_def)
  have "HasPrefix (eth_sub_name (int j) a) (eth_name (int i) @ ''_'') \<longleftrightarrow> j = i" for a
  proof -
    have "eth_sub_name (int j) a = eth_name (int j) @ CHR ''_'' # itoa_nat a" by (simp add: eth_sub_name_def eth_name_def)
    then show ?thesis using append_sep_inj [OF nb nb, of j _ i] by (auto simp: HasPrefix_iff)
  qed
  moreover have "\<not> HasPrefix (eth_name (int j)) (eth_name (int i) @ ''_'')"
    using nb [of j] by (auto simp: HasPrefix_iff)
  ultimately show ?thesis using assms by (auto simp: client_ports_def split: if_splits)
qed

lemma board_portE:
  assumes "board_ok c" "gget (Port c) name = Some p"
  obtains i b n where "i \<in> {1..16}" "name = port_name_of i" "pt_BreakoutMode p = Some b" "bm_NumChannels b = Some n"
    "breakout c i = Some (n, bm_ChannelSpeed b)" "n = 1 \<or> n = 4"
proof -
  have "name \<in> gkeys (Port c)" using assms(2) gget_Some_key by blast
  then obtain i where i: "i \<in> {1..16}" "name = port_name_of i" using assms(1) unfolding board_ok_def board_ports_def by blast
  then obtain n s where n: "breakout c i = Some (n, s)" "n = 1 \<or> n = 4" using assms(1) unfolding board_ok_def board_ports_def by blast
  from n(1) assms(2) i(2) obtain b where "pt_BreakoutMode p = Some b" "bm_NumChannels b = Some n" "s = bm_ChannelSpeed b"
    by (auto simp: breakout_def split: option.splits)
  with that i n show thesis by blast
qed

subsection \<open>Editing an interface or a module\<close>

lemma board_interface_edit:
  assumes "board_ok c" "gget (Interface c) name = Some v" "if_PortSpeed v' = if_PortSpeed v" "connection_ok v'"
  shows "board_ok (c\<lparr>Interface := gput name v' (Interface c)\<rparr>)"
proof -
  let ?c = "c\<lparr>Interface := gput name v' (Interface c)\<rparr>"
  have b: "breakout ?c = breakout c" by (rule ext) (simp add: breakout_def)
  have s: "speed_at ?c k = speed_at c k" for k using assms(2,3) by (simp add: speed_at_def)
  have ok: "gomap_ok (Interface ?c)" using assms(1) by (simp add: board_ok_def board_interfaces_def)
  have "connection_ok x" if "(k, x) \<in> set (Interface ?c)" for k x
  proof -
    from in_set_gget [OF ok that] have "(if k = name then Some v' else gget (Interface c) k) = Some x" by simp
    then have "x = v' \<or> (k, x) \<in> set (Interface c)" using gget_in_set [of "Interface c" k x] by (auto split: if_splits)
    then show ?thesis using assms(1,4) by (auto simp: board_ok_def)
  qed
  with assms(1) ok show ?thesis
    by (auto simp: board_ok_def board_ports_def board_interfaces_def board_modules_def b s)
qed

lemma edit_interface_good:
  assumes "board_ok c" "gget (Interface c) name = Some v"
    and "case f v of Inl e \<Rightarrow> \<not> is_panic e | Inr v' \<Rightarrow> if_PortSpeed v' = if_PortSpeed v \<and> connection_ok v'"
  shows "good (edit_interface name f c)"
  using assms board_interface_edit [OF assms(1,2)] by (cases "f v") (simp_all add: edit_interface_def good_def)

lemma board_interface_connection: "board_ok c \<Longrightarrow> gget (Interface c) name = Some v \<Longrightarrow> connection_ok v"
  using gget_in_set by (fastforce simp: board_ok_def)

lemma edit_connection_good:
  assumes "board_ok c" "gget (Interface c) name = Some v" "if_OpticalModuleConnection v = Some cn"
    and "case f cn of Inl e \<Rightarrow> \<not> is_panic e | Inr cn' \<Rightarrow> connection_ok (v\<lparr>if_OpticalModuleConnection := Some cn'\<rparr>)"
  shows "good (edit_connection name f c)"
  unfolding edit_connection_def
  using assms by (intro edit_interface_good [OF assms(1,2)]) (cases "f cn"; simp)

lemma edit_connection_module_good:
  assumes "board_ok c" "gget (Interface c) name = Some v" "if_OpticalModuleConnection v = Some cn" "omc_OpticalModule cn = Some m"
    and "connection_ok (v\<lparr>if_OpticalModuleConnection := Some (cn\<lparr>omc_OpticalModule := Some (f m)\<rparr>)\<rparr>)"
  shows "good (edit_connection_module name f c)"
  unfolding edit_connection_module_def
  using assms by (intro edit_connection_good [OF assms(1-3)]) simp

lemma edit_module_good:
  assumes "board_ok c" "gget (OpticalModule c) name = Some v"
    and "case f v of Inl e \<Rightarrow> \<not> is_panic e | Inr v' \<Rightarrow> om_Name v' = om_Name v \<and> om_ChannelStats v' = om_ChannelStats v"
  shows "good (edit_module name f c)"
proof (cases "f v")
  case (Inl e)
  with assms(2,3) show ?thesis by (simp add: edit_module_def good_def)
next
  case (Inr v')
  let ?c = "c\<lparr>OpticalModule := gput name v' (OpticalModule c)\<rparr>"
  have b: "breakout ?c = breakout c" "speed_at ?c = speed_at c" by (rule ext, simp add: breakout_def speed_at_def)+
  have ok: "gomap_ok (OpticalModule ?c)" using assms(1) by (simp add: board_ok_def board_modules_def)
  have "plain_module k x" if "(k, x) \<in> set (OpticalModule ?c)" for k x
  proof -
    from in_set_gget [OF ok that] have "(if k = name then Some v' else gget (OpticalModule c) k) = Some x" by simp
    then have "k = name \<and> x = v' \<or> (k, x) \<in> set (OpticalModule c)"
      using gget_in_set [of "OpticalModule c" k x] by (auto split: if_splits)
    moreover have "plain_module name v"
      using assms(1) gget_in_set [OF assms(2)] by (auto simp: board_ok_def board_modules_def)
    then have "plain_module name v'" using assms(3) Inr by (simp add: plain_module_def)
    ultimately show ?thesis using assms(1) by (auto simp: board_ok_def board_modules_def)
  qed
  moreover have "gkeys (OpticalModule ?c) = opt_name ` {1..8}"
    using assms(1,2) gget_Some_key [of name "OpticalModule c"] by (auto simp: board_ok_def board_modules_def)
  ultimately have "board_ok ?c" using assms(1) ok
    unfolding board_ok_def board_ports_def board_interfaces_def board_modules_def b by auto
  with Inr assms(2) show ?thesis by (simp add: edit_module_def)
qed

subsection \<open>Commands on interfaces and modules\<close>

lemma interface_pre_good:
  "board_ok c \<Longrightarrow> good (interface_pre name c) \<and>
     (\<forall>c'. interface_pre name c = Inr c' \<longrightarrow> (\<exists>v cn m. gget (Interface c') name = Some v \<and>
        if_OpticalModuleConnection v = Some cn \<and> omc_OpticalModule cn = Some m))"
proof (cases "gget (Interface c) name")
  case (Some v)
  assume c: "board_ok c"
  have "connection_ok v" using board_interface_connection [OF c Some] .
  then show ?thesis using board_interface_edit [OF c Some] Some
    by (cases "if_OpticalModuleConnection v")
      (auto simp: interface_pre_def Let_def connection_ok_def zero_Connection_def zero_Connection_OpticalModule_def)
qed (simp add: interface_pre_def)

lemma interface_run_good:
  assumes c: "board_ok c" and v: "gget (Interface c) name = Some v" "if_OpticalModuleConnection v = Some cn"
      "omc_OpticalModule cn = Some m"
    and cmd: "cmd \<noteq> IfDescriptionClear"
  shows "good (interface_run cmd name args c)"
proof -
  have conn: "connection_ok v" using board_interface_connection [OF c v(1)] .
  show ?thesis
  proof (cases cmd)
    case IfId
    have "good (edit_connection name (\<lambda>cn. Inr (cn\<lparr>omc_Id := Some (of_nat n)\<rparr>)) c)" if "100 \<le> n" "n \<le> 4000" for n
    proof -
      have "(100 :: 32 word) \<le> of_nat n \<and> of_nat n \<le> (4000 :: 32 word)"
        using that by (simp add: word_le_nat_alt unat_of_nat)
      with conn v show ?thesis by (intro edit_connection_good [OF c v(1,2)]) (auto simp: connection_ok_def)
    qed
    then show ?thesis unfolding IfId interface_run.simps interface_id_def
      by (auto intro: ParseUint_good)
  next
    case IfModuleName
    have "good (edit_connection_module name (\<lambda>m. m\<lparr>com_Name := Some a\<rparr>) c)" if "gget (OpticalModule c) a = Some x" for a x
    proof -
      have "a \<in> opt_name ` {1..8}" using that gget_Some_key [of a "OpticalModule c"] c by (auto simp: board_ok_def board_modules_def)
      with conn v show ?thesis by (intro edit_connection_module_good [OF c v]) (auto simp: connection_ok_def)
    qed
    then show ?thesis unfolding IfModuleName interface_run.simps interface_module_name_def by (simp split: option.split)
  next
    case IfModuleChannel
    have "good (edit_connection_module name (\<lambda>m. m\<lparr>com_Channel := Some a\<rparr>) c)" if "a = ''A'' \<or> a = ''B''" for a
      using that conn v by (intro edit_connection_module_good [OF c v]) (auto simp: connection_ok_def)
    then show ?thesis unfolding IfModuleChannel interface_run.simps interface_module_channel_def by auto
  next
    case IfConnectionClear
    then show ?thesis using c v(1) by (simp add: interface_connection_clear_def) (intro edit_interface_good, auto simp: connection_ok_def)
  next
    case IfDescription
    then show ?thesis using c v(1) conn by (simp add: interface_description_def) (intro edit_interface_good, auto simp: connection_ok_def)
  qed (use cmd in simp)
qed

lemma board_module_plain: "board_ok c \<Longrightarrow> gget (OpticalModule c) name = Some v \<Longrightarrow> plain_module name v"
  using gget_in_set [of "OpticalModule c" name v] by (auto simp: board_ok_def board_modules_def)

lemma module_exists_good:
  "board_ok c \<Longrightarrow> good (module_exists name c) \<and>
     (\<forall>c'. module_exists name c = Inr c' \<longrightarrow> c' = c \<and> (\<exists>v. gget (OpticalModule c) name = Some v))"
  by (auto simp: module_exists_def split: option.split)

lemma edit_module_result:
  "edit_module name f c = Inr c' \<Longrightarrow>
     \<exists>v v'. gget (OpticalModule c) name = Some v \<and> f v = Inr v' \<and> gget (OpticalModule c') name = Some v'"
  by (cases "gget (OpticalModule c) name") (auto simp: edit_module_def res_bind_Inr)

lemma module_pre_good:
  assumes "board_ok c"
  shows "good (module_pre cmd name c) \<and> (\<forall>c'. module_pre cmd name c = Inr c' \<longrightarrow>
     (\<exists>v. gget (OpticalModule c') name = Some v \<and>
        (cmd = OmGrid \<or> cmd = OmFrequencyChannel \<longrightarrow> om_OpticalModuleFrequency v \<noteq> None)))"
proof (cases "cmd = OmGrid \<or> cmd = OmFrequencyChannel")
  case True
  then have pre: "module_pre cmd name c = frequency_pre name c" by simp
  show ?thesis
  proof (cases "gget (OpticalModule c) name")
    case (Some v)
    have "good (frequency_pre name c)" using edit_module_good [OF assms Some] Some
      by (simp add: frequency_pre_def module_exists_def)
    moreover have "\<exists>v. gget (OpticalModule c') name = Some v \<and> om_OpticalModuleFrequency v \<noteq> None"
      if "frequency_pre name c = Inr c'" for c'
      using that Some by (auto simp: frequency_pre_def module_exists_def dest!: edit_module_result)
    ultimately show ?thesis unfolding pre by blast
  qed (simp add: frequency_pre_def module_exists_def True)
next
  case False
  then have "module_pre cmd name c = module_exists name c" by simp
  with module_exists_good [OF assms, of name] False show ?thesis by auto
qed

lemma edit_frequency_good:
  assumes "board_ok c" "gget (OpticalModule c) name = Some v" "om_OpticalModuleFrequency v \<noteq> None"
  shows "good (edit_frequency name f c)"
  unfolding edit_frequency_def using assms(3) by (intro edit_module_good [OF assms(1,2)]) auto

lemma module_run_good:
  assumes c: "board_ok c" and v: "gget (OpticalModule c) name = Some v"
    and freq: "cmd = OmGrid \<or> cmd = OmFrequencyChannel \<Longrightarrow> om_OpticalModuleFrequency v \<noteq> None"
  shows "good (module_run cmd name args c)"
proof -
  note edit = edit_module_good [OF c v]
  show ?thesis
  proof (cases cmd)
    case OmGrid
    then show ?thesis using edit_frequency_good [OF c v] freq by (simp add: module_grid_def Let_def)
  next
    case OmFrequencyChannel
    then show ?thesis unfolding OmFrequencyChannel module_run.simps module_frequency_channel_def
      using edit_frequency_good [OF c v freq [OF disjI2 [OF OmFrequencyChannel]]] by (auto intro!: ParseUint_good)
  next
    case OmBerInterval
    then show ?thesis unfolding OmBerInterval module_run.simps module_ber_interval_def
      by (auto intro!: ParseUint_good edit)
  qed (auto simp: module_enabled_def module_prbs_def module_losi_def module_allow_def module_allow_clear_def
      module_modulation_def module_description_def module_description_clear_def Let_def intro!: edit)
qed

subsection \<open>Commands on ports\<close>

lemma board_port_edit:
  assumes c: "board_ok c" and p: "gget (Port c) name = Some p" and same: "pt_BreakoutMode p' = pt_BreakoutMode p"
  shows "board_ok (c\<lparr>Port := gput name p' (Port c)\<rparr>)"
proof -
  let ?c = "c\<lparr>Port := gput name p' (Port c)\<rparr>"
  have b: "breakout ?c = breakout c" by (rule ext) (auto simp: breakout_def p same)
  have s: "speed_at ?c = speed_at c" by (rule ext) (simp add: speed_at_def)
  have "gkeys (Port ?c) = gkeys (Port c)" using p gget_Some_key [of name "Port c"] by auto
  with c show ?thesis unfolding board_ok_def board_ports_def board_interfaces_def board_modules_def b s by auto
qed

lemma edit_port_good:
  assumes "board_ok c" "gget (Port c) name = Some p"
    and "case f p of Inl e \<Rightarrow> \<not> is_panic e | Inr p' \<Rightarrow> pt_BreakoutMode p' = pt_BreakoutMode p"
  shows "good (edit_port name f c)"
  using assms board_port_edit [OF assms(1,2)] by (cases "f p") (simp_all add: edit_port_def good_def)

lemma edit_breakout_result:
  assumes "gget (Port c) name = Some p" "pt_BreakoutMode p = Some b"
  shows "edit_breakout name f c = res_bind (f b) (\<lambda>b'. Inr (c\<lparr>Port := gput name (p\<lparr>pt_BreakoutMode := Some b'\<rparr>) (Port c)\<rparr>))"
  by (cases "f b") (simp_all add: edit_breakout_def edit_port_def assms)

text \<open>The port part of the board after a breakout mode has been written.\<close>

lemma breakout_edit:
  assumes "gget (Port c) (port_name_of i) = Some p" "bm_NumChannels b' = Some n"
  shows "breakout (c\<lparr>Port := gput (port_name_of i) (p\<lparr>pt_BreakoutMode := Some b'\<rparr>) (Port c)\<rparr>) =
    (breakout c)(i \<mapsto> (n, bm_ChannelSpeed b'))"
  by (rule ext) (auto simp: breakout_def assms port_name_inj)

lemma board_ports_edit:
  assumes c: "board_ports c" and i: "i \<in> {1..16}" "gget (Port c) (port_name_of i) = Some p"
    and b: "bm_NumChannels b' = Some n" "n = 1 \<or> n = 4" "bm_ChannelSpeed b' \<noteq> ETHERNET_SPEED_UNSET"
  shows "board_ports (c\<lparr>Port := gput (port_name_of i) (p\<lparr>pt_BreakoutMode := Some b'\<rparr>) (Port c)\<rparr>)"
proof -
  let ?c = "c\<lparr>Port := gput (port_name_of i) (p\<lparr>pt_BreakoutMode := Some b'\<rparr>) (Port c)\<rparr>"
  have "gkeys (Port ?c) = gkeys (Port c)" using i(2) gget_Some_key [of "port_name_of i" "Port c"] by auto
  with c b show ?thesis unfolding board_ports_def breakout_edit [OF i(2) b(1)] by auto
qed

lemma port_channel_speed_good:
  assumes c: "board_ok c" and p: "gget (Port c) name = Some p"
  shows "good (port_channel_speed name args c)"
proof -
  from board_portE [OF c p] obtain i b n where i: "i \<in> {1..16}" "name = port_name_of i" and b: "pt_BreakoutMode p = Some b"
      "bm_NumChannels b = Some n" "breakout c i = Some (n, bm_ChannelSpeed b)" "n = 1 \<or> n = 4" by blast
  have "board_ok (c\<lparr>Port := gput name (p\<lparr>pt_BreakoutMode := Some (b\<lparr>bm_ChannelSpeed := speed\<rparr>)\<rparr>) (Port c),
      Interface := gmap_entries (\<lambda>k v. if k = eth_name (int i) \<or> HasPrefix k (eth_name (int i) @ ''_'')
        then v\<lparr>if_PortSpeed := speed\<rparr> else v) (Interface c)\<rparr>)" (is "board_ok ?d")
    if speed: "speed \<noteq> ETHERNET_SPEED_UNSET" for speed
  proof -
    let ?c = "c\<lparr>Port := gput (port_name_of i) (p\<lparr>pt_BreakoutMode := Some (b\<lparr>bm_ChannelSpeed := speed\<rparr>)\<rparr>) (Port c)\<rparr>"
    have ports: "board_ports ?c"
      using board_ports_edit [of c i p "b\<lparr>bm_ChannelSpeed := speed\<rparr>" n] c i p b speed by (simp add: board_ok_def)
    have br: "breakout ?d = (breakout c)(i \<mapsto> (n, speed))"
      using breakout_edit [of c i p "b\<lparr>bm_ChannelSpeed := speed\<rparr>" n] p i(2) b(2) by (auto simp: breakout_def fun_eq_iff)
    have dp: "board_ports ?d"
    proof -
      have "breakout ?d = breakout ?c" unfolding i(2) by (rule ext) (simp add: breakout_def)
      with ports show ?thesis unfolding board_ports_def i(2) by simp
    qed
    have sp: "speed_at ?d k = Some s \<longleftrightarrow> (\<exists>j \<in> {1..16}. \<exists>n'. breakout ?d j = Some (n', s) \<and> k \<in> set (client_ports j n'))" for k s
    proof (cases "speed_at c k")
      case None
      then have "speed_at ?d k = None" by (simp add: speed_at_def)
      moreover have "\<not> (\<exists>j \<in> {1..16}. \<exists>n' s'. breakout c j = Some (n', s') \<and> k \<in> set (client_ports j n'))"
        using None c unfolding board_ok_def board_interfaces_def by (metis option.distinct(1))
      ultimately show ?thesis using b(3) i(1) unfolding br fun_upd_apply by (metis option.distinct(1) option.inject prod.inject)
    next
      case (Some t)
      then obtain j n' where j: "j \<in> {1..16}" "breakout c j = Some (n', t)" "k \<in> set (client_ports j n')"
        using c unfolding board_ok_def board_interfaces_def by blast
      have A: "speed_at ?d k = Some (if j = i then speed else t)"
        using Some own_interface [OF j(3), of i] by (auto simp: speed_at_def)
      have B: "(\<exists>j' \<in> {1..16}. \<exists>n''. f j' = Some (n'', s) \<and> k \<in> set (client_ports j' n'')) \<longleftrightarrow>
          (\<exists>n''. f j = Some (n'', s) \<and> k \<in> set (client_ports j n''))" for f :: "nat \<Rightarrow> (8 word \<times> ETHERNET_SPEED) option"
        using client_ports_unique [OF j(3)] j(1) by blast
      have C: "(\<exists>n''. ((breakout c)(i \<mapsto> (n, speed))) j = Some (n'', s) \<and> k \<in> set (client_ports j n'')) \<longleftrightarrow>
          s = (if j = i then speed else t)"
        using j(2,3) b(3) by (cases "j = i") auto
      show ?thesis unfolding br B C A by (simp only: option.inject eq_commute)
    qed
    have conn: "connection_ok v" if "(k, v) \<in> set (Interface ?d)" for k v
    proof -
      from that obtain v0 where "(k, v0) \<in> set (Interface c)" "if_OpticalModuleConnection v = if_OpticalModuleConnection v0"
        by (auto simp: gmap_entries_def split: if_splits)
      with c show ?thesis by (auto simp: board_ok_def connection_ok_def)
    qed
    have "gomap_ok (Interface ?d)" using c by (simp add: board_ok_def board_interfaces_def)
    moreover have "board_modules ?d" using c by (simp add: board_ok_def board_modules_def)
    ultimately show ?thesis unfolding board_ok_def board_interfaces_def using dp sp conn by blast
  qed
  then show ?thesis
    using edit_breakout_result [OF p b(1)] port_number_name [OF i(1)] i(2) by (simp add: port_channel_speed_def Let_def)
qed

text \<open>Changing the number of channels exchanges the interfaces of the port and no others.\<close>

lemma board_switch:
  assumes c: "board_ok c" and i: "i \<in> {1..16}" "breakout c i = Some (n0, s)"
    and d: "breakout d = (breakout c)(i \<mapsto> (n, s))" "board_ports d" "gomap_ok (Interface d)" "OpticalModule d = OpticalModule c"
      "\<And>k. speed_at d k = (if k \<in> set (client_ports i n) then Some s else if k \<in> set (client_ports i n0) then None else speed_at c k)"
      "\<And>k v. (k, v) \<in> set (Interface d) \<Longrightarrow> connection_ok v"
  shows "board_ok d"
proof -
  have "speed_at d k = Some s' \<longleftrightarrow> (\<exists>j \<in> {1..16}. \<exists>m. breakout d j = Some (m, s') \<and> k \<in> set (client_ports j m))" for k s'
  proof -
    consider (new) "k \<in> set (client_ports i n)" | (old) "k \<notin> set (client_ports i n)" "k \<in> set (client_ports i n0)"
      | (other) "k \<notin> set (client_ports i n)" "k \<notin> set (client_ports i n0)" by blast
    then show ?thesis
    proof cases
      case new
      have "(\<exists>j \<in> {1..16}. \<exists>m. f j = Some (m, s') \<and> k \<in> set (client_ports j m)) \<longleftrightarrow>
          (\<exists>m. f i = Some (m, s') \<and> k \<in> set (client_ports i m))" for f :: "nat \<Rightarrow> (8 word \<times> ETHERNET_SPEED) option"
        using client_ports_unique [OF new] i(1) by blast
      with new show ?thesis unfolding d(1,5) by simp
    next
      case old
      have "(\<exists>j \<in> {1..16}. \<exists>m. f j = Some (m, s') \<and> k \<in> set (client_ports j m)) \<longleftrightarrow>
          (\<exists>m. f i = Some (m, s') \<and> k \<in> set (client_ports i m))" for f :: "nat \<Rightarrow> (8 word \<times> ETHERNET_SPEED) option"
        using client_ports_unique [OF old(2)] i(1) by blast
      with old show ?thesis unfolding d(1,5) by simp
    next
      case other
      have "(breakout d j = Some (m, s') \<and> k \<in> set (client_ports j m)) \<longleftrightarrow>
          (breakout c j = Some (m, s') \<and> k \<in> set (client_ports j m))" for j m
        using other i(2) unfolding d(1) by (cases "j = i") auto
      moreover have "speed_at c k = Some s' \<longleftrightarrow> (\<exists>j \<in> {1..16}. \<exists>m. breakout c j = Some (m, s') \<and> k \<in> set (client_ports j m))"
        using c unfolding board_ok_def board_interfaces_def by blast
      ultimately show ?thesis using other unfolding d(5) by simp
    qed
  qed
  moreover have "board_modules d" using c d(4) by (simp add: board_ok_def board_modules_def)
  ultimately show ?thesis unfolding board_ok_def board_interfaces_def using d(2,3,6) by blast
qed

lemma board_absent:
  assumes "board_ok c" "breakout c i = Some (n0, s)" "k \<in> set (client_ports i n)" "k \<notin> set (client_ports i n0)"
  shows "gget (Interface c) k = None"
proof (rule ccontr)
  assume "gget (Interface c) k \<noteq> None"
  then obtain t where "speed_at c k = Some t" by (auto simp: speed_at_def)
  then obtain j m where j: "breakout c j = Some (m, t)" "k \<in> set (client_ports j m)"
    using assms(1) unfolding board_ok_def board_interfaces_def by blast
  with client_ports_unique [OF assms(3) j(2)] assms(2,4) show False by auto
qed

definition fresh_interface :: "string \<Rightarrow> ETHERNET_SPEED \<Rightarrow> PacketTransponder_Interface" where
  "fresh_interface name speed = zero_Interface\<lparr>if_Name := Some name, if_Mtu := Some 1500, if_PortSpeed := speed\<rparr>"

lemma fresh_interface_simps [simp]:
  "if_PortSpeed (fresh_interface k s) = s" "connection_ok (fresh_interface k s)" "if_OpticalModuleConnection (fresh_interface k s) = None"
  by (simp_all add: fresh_interface_def connection_ok_def zero_Interface_def)

lemma newInterface_fresh:
  assumes "gget (Interface c) k = None"
  shows "newInterface k speed c = Inr (c\<lparr>Interface := gput k (fresh_interface k speed) (Interface c)\<rparr>)"
  using assms by (simp add: newInterface_def NewInterface_def list_insert_def edit_interface_def fresh_interface_def update_last)

lemma client_ports_simps:
  "client_ports i 1 = [eth_name (int i)]"
  "client_ports i 4 = [eth_sub_name (int i) 1, eth_sub_name (int i) 2, eth_sub_name (int i) 3, eth_sub_name (int i) 4]"
  by (simp_all add: client_ports_def upt_conv_Cons)

lemma four_channels: "[1..<5] = [1, 2, 3, 4 :: nat]"
  by code_simp

lemma join_channels_result:
  assumes "channel_speed_of name c = Inr s" "gget (Interface c) (eth_name i) = None"
  shows "join_channels name i c = Inr (c\<lparr>Interface := gput (eth_name i) (fresh_interface (eth_name i) s)
    (gdel (eth_sub_name i 4) (gdel (eth_sub_name i 3) (gdel (eth_sub_name i 2) (gdel (eth_sub_name i 1) (Interface c)))))\<rparr>)"
proof -
  have speed: "channel_speed_of name (c\<lparr>Interface := m\<rparr>) = Inr s" for m using assms(1) by (simp add: channel_speed_of_def)
  show ?thesis
    using assms(2) unfolding join_channels_def four_channels by (simp add: delete_interface_def Let_def speed newInterface_fresh)
qed

lemma split_channels_result:
  assumes "channel_speed_of name c = Inr s" "\<And>j. j \<in> {1..4} \<Longrightarrow> gget (Interface c) (eth_sub_name i j) = None"
  shows "split_channels name i c = Inr (c\<lparr>Interface :=
    gput (eth_sub_name i 4) (fresh_interface (eth_sub_name i 4) s) (gput (eth_sub_name i 3) (fresh_interface (eth_sub_name i 3) s)
    (gput (eth_sub_name i 2) (fresh_interface (eth_sub_name i 2) s) (gput (eth_sub_name i 1) (fresh_interface (eth_sub_name i 1) s)
    (gdel (eth_name i) (Interface c)))))\<rparr>)"
proof -
  have speed: "channel_speed_of name (c\<lparr>Interface := m\<rparr>) = Inr s" for m using assms(1) by (simp add: channel_speed_of_def)
  show ?thesis
    using assms(2) unfolding split_channels_def four_channels by (simp add: delete_interface_def speed newInterface_fresh)
qed

lemma connection_ok_gput:
  "gomap_ok m \<Longrightarrow> connection_ok v \<Longrightarrow> \<forall>(k, v) \<in> set m. connection_ok v \<Longrightarrow> \<forall>(k, v) \<in> set (gput n v m). connection_ok v"
  by (auto simp: in_set_iff_gget split: if_splits)

lemma connection_ok_gdel:
  "gomap_ok m \<Longrightarrow> \<forall>(k, v) \<in> set m. connection_ok v \<Longrightarrow> \<forall>(k, v) \<in> set (gdel n m). connection_ok v"
  by (auto simp: in_set_iff_gget split: if_splits)

lemma port_num_channels_good:
  assumes c: "board_ok c" and p: "gget (Port c) name = Some p"
  shows "good (port_num_channels name args c)"
proof -
  from board_portE [OF c p] obtain i b n0 where i: "i \<in> {1..16}" "name = port_name_of i" and b: "pt_BreakoutMode p = Some b"
      "bm_NumChannels b = Some n0" "breakout c i = Some (n0, bm_ChannelSpeed b)" "n0 = 1 \<or> n0 = 4" by blast
  define s where "s = bm_ChannelSpeed b"
  have s: "s \<noteq> ETHERNET_SPEED_UNSET" "breakout c i = Some (n0, s)"
    using c i(1) b(3) unfolding board_ok_def board_ports_def s_def by fastforce+
  have ifs: "gomap_ok (Interface c)" "\<forall>(k, v) \<in> set (Interface c). connection_ok v"
    using c by (auto simp: board_ok_def board_interfaces_def)
  let ?c = "\<lambda>n. c\<lparr>Port := gput (port_name_of i) (p\<lparr>pt_BreakoutMode := Some (b\<lparr>bm_NumChannels := Some n\<rparr>)\<rparr>) (Port c)\<rparr>"
  have br: "breakout (?c n) = (breakout c)(i \<mapsto> (n, s))" for n
    using breakout_edit [of c i p "b\<lparr>bm_NumChannels := Some n\<rparr>" n] p i(2) by (simp add: s_def)
  have speed: "channel_speed_of name (?c n) = Inr s" for n by (simp add: channel_speed_of_def i(2) s_def)
  have ok: "board_ok ((?c n)\<lparr>Interface := m\<rparr>)"
    if "n = 1 \<or> n = 4" "gomap_ok m" "\<forall>(k, v) \<in> set m. connection_ok v"
      "\<And>k. map_option if_PortSpeed (gget m k) =
         (if k \<in> set (client_ports i n) then Some s else if k \<in> set (client_ports i n0) then None else speed_at c k)" for n m
  proof (rule board_switch [OF c i(1) s(2), of _ n])
    have "board_ports (?c n)"
      using board_ports_edit [of c i p "b\<lparr>bm_NumChannels := Some n\<rparr>" n] c i p s(1) that(1) by (simp add: board_ok_def s_def)
    then show "board_ports ((?c n)\<lparr>Interface := m\<rparr>)" by (simp add: board_ports_def breakout_def)
    show "breakout ((?c n)\<lparr>Interface := m\<rparr>) = (breakout c)(i \<mapsto> (n, s))"
      using br [of n] by (simp add: breakout_def fun_eq_iff)
  qed (use that in \<open>auto simp: speed_at_def\<close>)
  have one: "good (join_channels name (int i) (?c 1))" if "n0 = 4"
  proof -
    have "gget (Interface c) (eth_name (int i)) = None"
      by (rule board_absent [OF c s(2), of _ 1]) (simp_all add: that client_ports_simps)
    then show ?thesis using join_channels_result [OF speed, of 1 "int i"]
      by (simp, intro ok connection_ok_gput connection_ok_gdel) (simp_all add: ifs that client_ports_simps speed_at_def)
  qed
  have four: "good (split_channels name (int i) (?c 4))" if "n0 = 1"
  proof -
    have "gget (Interface c) (eth_sub_name (int i) j) = None" if "j \<in> {1..4}" for j
      by (rule board_absent [OF c s(2), of _ 4]) (use that \<open>n0 = 1\<close> in \<open>auto simp: client_ports_def\<close>)
    then show ?thesis using split_channels_result [OF speed, of 4 "int i"]
      by (simp, intro ok connection_ok_gput connection_ok_gdel) (simp_all add: ifs that client_ports_simps speed_at_def)
  qed
  have "good (res_bind (edit_breakout name (\<lambda>b. res_bind (deref (bm_NumChannels b)) (\<lambda>old.
            if old = of_nat num then Inl (Errorf ''num-channels is already set to %d'' [itoa_nat num])
            else Inr (b\<lparr>bm_NumChannels := Some (of_nat num)\<rparr>))) c) (\<lambda>c.
          res_bind (port_number name) (\<lambda>portNum.
            if num = 1 then join_channels name portNum c else split_channels name portNum c)))" if "num = 1 \<or> num = 4" for num
    using one four that b(2,4) port_number_name [OF i(1)] i(2) by (auto simp: edit_breakout_result [OF p b(1), unfolded i(2)])
  then show ?thesis by (auto simp: port_num_channels_def intro!: ParseUint_good)
qed

subsection \<open>The default configuration\<close>

definition default_port_entry :: "nat \<Rightarrow> PacketTransponder_Port" where
  "default_port_entry i = zero_Port\<lparr>pt_Name := Some (port_name_of i),
     pt_BreakoutMode := Some \<lparr>bm_ChannelSpeed = SPEED_100GB, bm_NumChannels = Some 1\<rparr>\<rparr>"

definition default_module_entry :: "nat \<Rightarrow> PacketTransponder_OpticalModule" where
  "default_module_entry i = zero_OpticalModule\<lparr>om_Name := Some (opt_name i)\<rparr>"

definition default_board :: "nat list \<Rightarrow> nat list \<Rightarrow> PacketTransponder" where
  "default_board is js =
     \<lparr>AllowOversubscription = None,
      Interface = map (\<lambda>i. (eth_name (int i), fresh_interface (eth_name (int i)) SPEED_100GB)) is,
      OpticalModule = map (\<lambda>j. (opt_name j, default_module_entry j)) js,
      Port = map (\<lambda>i. (port_name_of i, default_port_entry i)) is\<rparr>"

lemma map_of_named:
  "inj f \<Longrightarrow> map_of (map (\<lambda>i. (f i, g i)) is) (f j) = (if j \<in> set is then Some (g j) else None)"
  by (induction "is") (auto dest: injD)

lemma names_inj: "inj port_name_of" "inj opt_name" "inj (\<lambda>i. eth_name (int i))"
  by (simp_all add: inj_def)

lemma default_port_step:
  assumes "i \<notin> set is"
  shows "default_port i (default_board is js) = Inr (default_board (is @ [i]) js)"
proof -
  have free: "gget (Port (default_board is js)) (port_name_of i) = None"
      "gget (Interface (default_board is js)) (eth_name (int i)) = None"
    using map_of_named [OF names_inj(1), of _ "is" i] map_of_named [OF names_inj(3), of _ "is" i] assms
    by (simp_all add: default_board_def)
  have fresh: "port_name_of i \<notin> fst ` set (Port (default_board is js))"
      "eth_name (int i) \<notin> fst ` set (Interface (default_board is js))"
    using free by (simp_all add: map_of_eq_None_iff)
  have "NewPort (port_name_of i) (default_board is js) =
      Inr ((default_board is js)\<lparr>Port := gput (port_name_of i) (zero_Port\<lparr>pt_Name := Some (port_name_of i)\<rparr>) (Port (default_board is js))\<rparr>)"
    using free(1) by (simp add: NewPort_def list_insert_def)
  then have "default_port i (default_board is js) = newInterface (eth_name (int i)) SPEED_100GB
      ((default_board is js)\<lparr>Port := gput (port_name_of i) (default_port_entry i) (Port (default_board is js))\<rparr>)"
    by (simp add: default_port_def wrap_err_def edit_port_def default_port_entry_def update_last)
  also have "\<dots> = Inr (default_board (is @ [i]) js)"
    using free(2) fresh by (simp add: newInterface_fresh update_fresh) (simp add: default_board_def)
  finally show ?thesis .
qed

lemma default_module_step:
  assumes "j \<notin> set js"
  shows "default_module j (default_board is js) = Inr (default_board is (js @ [j]))"
proof -
  have free: "gget (OpticalModule (default_board is js)) (opt_name j) = None"
    using map_of_named [OF names_inj(2), of _ js j] assms by (simp add: default_board_def)
  then have "opt_name j \<notin> fst ` set (OpticalModule (default_board is js))" by (simp add: map_of_eq_None_iff)
  with free show ?thesis
    by (simp add: default_module_def wrap_err_def NewOpticalModule_def list_insert_def update_fresh)
      (simp add: default_board_def default_module_entry_def)
qed

lemma default_loop:
  assumes "\<And>i is. i \<notin> set is \<Longrightarrow> step i (mk is) = Inr (mk (is @ [i]))" "distinct (is @ js)"
  shows "for_res step js (mk is) = Inr (mk (is @ js))"
  using assms(2) by (induction js arbitrary: "is") (simp_all add: assms(1))

lemma default_configuration: "defaultConfiguration = Inr (default_board [1..<17] [1..<9])"
proof -
  have zero: "zero_PacketTransponder = default_board [] []" by (simp add: zero_PacketTransponder_def default_board_def)
  have "for_res default_port [1..<17] (default_board [] []) = Inr (default_board [1..<17] [])"
    using default_loop [of default_port "\<lambda>is. default_board is []" "[]" "[1..<17]", OF default_port_step] by simp
  moreover have "for_res default_module [1..<9] (default_board [1..<17] []) = Inr (default_board [1..<17] [1..<9])"
    using default_loop [of default_module "\<lambda>js. default_board [1..<17] js" "[]" "[1..<9]", OF default_module_step] by simp
  ultimately show ?thesis by (simp add: defaultConfiguration_def portNum_def opticalModuleNum_def zero del: upt_Suc)
qed

lemma default_breakout: "breakout (default_board is js) i = (if i \<in> set is then Some (1, SPEED_100GB) else None)"
  using map_of_named [OF names_inj(1), of default_port_entry "is" i]
  by (simp add: breakout_def default_board_def default_port_entry_def)

lemma default_board_ok: "board_ok (default_board [1..<17] [1..<9])"
  unfolding board_ok_def
proof (intro conjI)
  let ?c = "default_board [1..<17] [1..<9]"
  have sets: "set [1..<17] = {1..16 :: nat}" "set [1..<9] = {1..8 :: nat}" by auto
  have keys: "gkeys (Port ?c) = port_name_of ` {1..16}" "gkeys (OpticalModule ?c) = opt_name ` {1..8}"
    by (simp_all only: default_board_def PacketTransponder.simps set_map image_image fst_conv sets)
  have ok: "gomap_ok (Port ?c)" "gomap_ok (OpticalModule ?c)" "gomap_ok (Interface ?c)"
    using names_inj by (simp_all add: default_board_def gomap_ok_def comp_def distinct_map inj_on_def del: upt_Suc)
  show "board_ports ?c"
    unfolding board_ports_def default_breakout sets using keys ok by auto
  show "board_modules ?c"
    unfolding board_modules_def using keys ok
    by (auto simp: default_board_def default_module_entry_def plain_module_def zero_OpticalModule_def simp del: upt_Suc)
  show "\<forall>(k, v) \<in> set (Interface ?c). connection_ok v" by (auto simp: default_board_def simp del: upt_Suc)
  have "speed_at ?c k = Some s \<longleftrightarrow> (\<exists>i \<in> {1..16}. \<exists>n. breakout ?c i = Some (n, s) \<and> k \<in> set (client_ports i n))" for k s
  proof -
    have "(\<exists>i \<in> {1..16}. \<exists>n. breakout ?c i = Some (n, s) \<and> k \<in> set (client_ports i n)) \<longleftrightarrow>
        s = SPEED_100GB \<and> (\<exists>i \<in> {1..16}. k = eth_name (int i))"
      unfolding default_breakout sets by (auto simp: client_ports_simps)
    also have "\<dots> \<longleftrightarrow> speed_at ?c k = Some s"
    proof (cases "\<exists>i. k = eth_name (int i)")
      case True
      then obtain i where k: "k = eth_name (int i)" by blast
      have "speed_at ?c k = (if i \<in> {1..16} then Some SPEED_100GB else None)"
        using map_of_named [OF names_inj(3), of "\<lambda>i. fresh_interface (eth_name (int i)) SPEED_100GB" "[1..<17]" i]
        unfolding sets k speed_at_def by (simp add: default_board_def del: upt_Suc)
      then show ?thesis unfolding k by auto
    next
      case False
      then have "k \<notin> gkeys (Interface ?c)" by (auto simp: default_board_def simp del: upt_Suc)
      then have "speed_at ?c k = None" unfolding gget_None_iff [symmetric] by (simp add: speed_at_def)
      with False show ?thesis by auto
    qed
    finally show ?thesis by blast
  qed
  with ok show "board_interfaces ?c" unfolding board_interfaces_def by blast
qed

subsection \<open>The state machine\<close>

definition edit_config :: "edit_command \<Rightarrow> string list \<Rightarrow> PacketTransponder \<Rightarrow> PacketTransponder res" where
  "edit_config cmd args c =
     res_bind (command_args cmd args) (\<lambda>_. res_bind (command_pre cmd c) (command_run cmd args))"

inductive cli_reachable :: "PacketTransponder \<Rightarrow> bool" where
  initial: "defaultConfiguration = Inr c \<Longrightarrow> cli_reachable c"
| edit: "cli_reachable c \<Longrightarrow> edit_config cmd args c = Inr c' \<Longrightarrow> cli_reachable c'"

lemma args_no_panic: "command_args cmd args = Inl e \<Longrightarrow> \<not> is_panic e"
proof -
  have valid: "only_valid_args vs as = Inl e \<Longrightarrow> \<not> is_panic e" for vs as
    by (induction vs as rule: only_valid_args.induct) (auto simp: is_panic_def split: if_splits)
  have "exact_args n args = Inl e \<Longrightarrow> \<not> is_panic e" "no_args args = Inl e \<Longrightarrow> \<not> is_panic e" for n
    by (auto simp: exact_args_def no_args_def is_panic_def split: if_splits list.splits)
  note all = valid this
  assume a: "command_args cmd args = Inl e"
  show ?thesis
  proof (cases cmd)
    case (PortCmd pc name)
    with a show ?thesis by (simp add: any_args_def)
  next
    case (InterfaceCmd ic name)
    with a all show ?thesis by (cases ic) (auto simp: any_args_def)
  next
    case (ModuleCmd mc name)
    with a all show ?thesis by (cases mc) (auto simp: any_args_def)
  next
    case AllowOversubscriptionCmd
    with a all show ?thesis by auto
  qed
qed

lemma port_run_good:
  assumes "board_ok c" "gget (Port c) name = Some p"
  shows "good (port_run cmd name args c)"
  using port_channel_speed_good [OF assms] port_num_channels_good [OF assms]
  by (cases cmd) (auto simp: port_description_def port_description_clear_def intro!: edit_port_good [OF assms])

lemma allow_good: "board_ok c \<Longrightarrow> good (allow_oversubscription args c)"
proof -
  assume c: "board_ok c"
  have "breakout (c\<lparr>AllowOversubscription := x\<rparr>) = breakout c" "speed_at (c\<lparr>AllowOversubscription := x\<rparr>) = speed_at c" for x
    by (rule ext, simp add: breakout_def speed_at_def)+
  with c show ?thesis
    by (auto simp: allow_oversubscription_def board_ok_def board_ports_def board_interfaces_def board_modules_def)
qed

lemma edit_config_good:
  assumes c: "board_ok c" and cmd: "\<forall>name. cmd \<noteq> InterfaceCmd IfDescriptionClear name"
  shows "good (edit_config cmd args c)"
proof -
  have "good (res_bind (command_pre cmd c) (command_run cmd args))"
  proof (cases cmd)
    case (PortCmd pc name)
    with port_run_good [OF c, of name] show ?thesis by (cases "gget (Port c) name") (simp_all add: port_pre_def)
  next
    case (InterfaceCmd ic name)
    with cmd have ic: "ic \<noteq> IfDescriptionClear" by simp
    show ?thesis
    proof (cases "interface_pre name c")
      case (Inr c')
      with interface_pre_good [OF c, of name] have "board_ok c'" and ex: "\<exists>v cn m. gget (Interface c') name = Some v \<and>
          if_OpticalModuleConnection v = Some cn \<and> omc_OpticalModule cn = Some m" by auto
      with interface_run_good [OF _ _ _ _ ic] Inr InterfaceCmd show ?thesis by auto
    qed (use interface_pre_good [OF c, of name] InterfaceCmd in \<open>simp add: good_def\<close>)
  next
    case (ModuleCmd mc name)
    show ?thesis
    proof (cases "module_pre mc name c")
      case (Inr c')
      with module_pre_good [OF c, of mc name] have "board_ok c'" and ex: "\<exists>v. gget (OpticalModule c') name = Some v \<and>
          (mc = OmGrid \<or> mc = OmFrequencyChannel \<longrightarrow> om_OpticalModuleFrequency v \<noteq> None)" by auto
      from ex obtain v where v: "gget (OpticalModule c') name = Some v"
          "mc = OmGrid \<or> mc = OmFrequencyChannel \<longrightarrow> om_OpticalModuleFrequency v \<noteq> None" by blast
      have "good (module_run mc name args c')" by (rule module_run_good [OF \<open>board_ok c'\<close> v(1)]) (use v(2) in blast)
      with Inr ModuleCmd show ?thesis by (simp del: module_pre.simps)
    qed (use module_pre_good [OF c, of mc name] ModuleCmd in \<open>simp add: good_def del: module_pre.simps\<close>)
  next
    case AllowOversubscriptionCmd
    with allow_good [OF c] show ?thesis by simp
  qed
  then show ?thesis using args_no_panic [of cmd args] by (cases "command_args cmd args") (auto simp: edit_config_def good_def)
qed

lemma interface_not_port:
  assumes "board_ok c" "gget (Interface c) name = Some v"
  shows "gget (Port c) name = None"
proof -
  have "speed_at c name = Some (if_PortSpeed v)" using assms(2) by (simp add: speed_at_def)
  then obtain i n where "name \<in> set (client_ports i n)" using assms(1) unfolding board_ok_def board_interfaces_def by blast
  then have "hd name = CHR ''E''" by (auto simp: client_ports_def eth_name_def eth_sub_name_def split: if_splits)
  then have "name \<notin> port_name_of ` {1..16}" by (auto simp: port_name_of_def)
  with assms(1) show ?thesis unfolding board_ok_def board_ports_def gget_None_iff by metis
qed

lemma description_clear_panics:
  assumes c: "board_ok c"
  shows "edit_config (InterfaceCmd IfDescriptionClear name) args c =
    (if args \<noteq> [] then Inl (Errorf ''unknown command %q for %q'' [hd args])
     else if name \<notin> gkeys (Interface c) then Inl (Errorf ''interface %s doesn't exist'' [name])
     else Inl (Panic ''nil pointer dereference''))"
proof (cases "gget (Interface c) name")
  case None
  then have "name \<notin> gkeys (Interface c)" by (simp add: gget_None_iff)
  with None show ?thesis by (cases args) (simp_all add: edit_config_def no_args_def interface_pre_def)
next
  case (Some v)
  then have "name \<in> gkeys (Interface c)" using gget_Some_key by blast
  with Some interface_not_port [OF c Some] show ?thesis
    by (cases args) (simp_all add: edit_config_def no_args_def interface_pre_def Let_def interface_description_clear_def edit_port_def)
qed

lemma reachable_board: "cli_reachable c \<Longrightarrow> board_ok c"
proof (induction rule: cli_reachable.induct)
  case (initial c)
  then have "c = default_board [1..<17] [1..<9]" using default_configuration by (metis sum.inject(2))
  then show ?case using default_board_ok by (simp only:)
next
  case (edit c cmd args c')
  show ?case
  proof (cases "\<exists>name. cmd = InterfaceCmd IfDescriptionClear name")
    case True
    with edit description_clear_panics show ?thesis by (auto split: if_splits)
  next
    case False
    with edit_config_good [OF edit.IH, of cmd args] edit.hyps(2) show ?thesis by simp
  qed
qed

text \<open>
  C8: the invariant of the command line. Whatever sequence of configuration commands is run on the default
  configuration: the ports are \<open>Port1\<close> to \<open>Port16\<close>, each with one or four channels of a set speed; the interfaces
  are exactly those that the breakout modes of the ports provide, with the speed of the port; the modules
  are \<open>Opt1\<close> to \<open>Opt8\<close>, and the connections have ids, modules and channels in range.
\<close>

theorem cli_invariant:
  assumes "cli_reachable c"
  shows "board_ok c"
  using assms by (rule reachable_board)

lemma cli_invariant_witness: "board_ok (default_board [1..<17] [1..<9])"
  by (rule cli_invariant) (rule cli_reachable.initial, rule default_configuration)



subsection \<open>A validated configuration can be brought up\<close>

lemma board_client_name:
  assumes "board_ok c" "(k, v) \<in> set (Interface c)"
  shows "client_name k"
proof -
  have "gget (Interface c) k = Some v" using assms by (simp add: board_ok_def board_interfaces_def in_set_gget)
  then have "speed_at c k = Some (if_PortSpeed v)" by (simp add: speed_at_def)
  then obtain i n where i: "i \<in> {1..16}" "k \<in> set (client_ports i n)"
    using assms(1) unfolding board_ok_def board_interfaces_def by blast
  then have "int i \<in> {1..16}" by simp
  with i show ?thesis unfolding client_name_def
    by (intro bexI [of _ "int i"]) (auto simp: client_ports_def split: if_splits)
qed

lemma client_name_index: "client_name k \<Longrightarrow> \<exists>ij. interface_index k = Inr ij"
  by (auto simp: client_name_def interface_index_main interface_index_sub)

lemma client_not_line_port: "client_name k \<Longrightarrow> \<not> is_line_port k"
  by (auto simp: client_name_def is_line_port_def)

lemma board_interface_accepted:
  assumes c: "board_ok c" and v: "(k, v) \<in> set (Interface c)" and complete: "connection_complete v"
  shows "interface_accepted k v"
proof -
  have "\<exists>n. OptEthernetName (omc_OpticalModule cn) = Inr n" if cn: "if_OpticalModuleConnection v = Some cn" for cn
  proof -
    from complete cn obtain i ch n where "cn = \<lparr>omc_Id = Some i, omc_OpticalModule = Some \<lparr>com_Channel = Some ch, com_Name = Some n\<rparr>\<rparr>"
      by (auto simp: connection_complete_def)
    moreover have "connection_ok v" using c v by (auto simp: board_ok_def)
    ultimately obtain j where "n = opt_name j" "j \<in> {1..8}" using cn by (auto simp: connection_ok_def)
    then show ?thesis using \<open>cn = _\<close> OptEthernetName_eq [of j ch] by simp
  qed
  with client_name_index [OF board_client_name [OF c v]] complete show ?thesis
    by (auto simp: interface_accepted_def connection_complete_def)
qed

lemma board_validated:
  assumes c: "board_ok c" and valid: "validateFinal c = Inr c'"
  shows "(\<exists>cfg. NewSONiCConfigFromModel c' = Inr cfg) \<and> (\<exists>x. NewOFDPAConfigFromModel c' = Inr x)"
proof
  note val = validated_interfaces [OF valid]
  show "\<exists>cfg. NewSONiCConfigFromModel c' = Inr cfg"
    unfolding config_succeeds_iff val(1)
    using board_interface_accepted [OF c] val(3) client_not_line_port [OF board_client_name [OF c]] by blast
  have "ofdpa_accepted k p" if "(k, p) \<in> set (Port c)" for k p
  proof -
    have "gget (Port c) k = Some p" using c that by (simp add: board_ok_def board_ports_def in_set_gget)
    from board_portE [OF c this] obtain i b n where "i \<in> {1..16}" "k = port_name_of i"
        "pt_BreakoutMode p = Some b" "bm_NumChannels b = Some n" by blast
    then show ?thesis by (auto simp: ofdpa_accepted_def port_index_name)
  qed
  then show "\<exists>x. NewOFDPAConfigFromModel c' = Inr x" unfolding config_from_model val(2) by blast
qed

lemma board_connection:
  assumes c: "board_ok c" and v: "(k, v) \<in> set (Interface c)" and complete: "connection_complete v"
    and cn: "if_OpticalModuleConnection v = Some cn" "omc_Id cn = Some vid"
  shows "\<exists>opt. OptEthernetName (omc_OpticalModule cn) = Inr opt \<and> is_line_port opt \<and> vlan_id v = Some vid \<and>
    vlan_ports k v = [(k, ''untagged''), (opt, ''tagged'')]"
proof -
  from complete cn obtain ch n where cn': "cn = \<lparr>omc_Id = Some vid, omc_OpticalModule = Some \<lparr>com_Channel = Some ch, com_Name = Some n\<rparr>\<rparr>"
    by (auto simp: connection_complete_def)
  moreover have "connection_ok v" using c v by (auto simp: board_ok_def)
  ultimately obtain j where j: "n = opt_name j" "j \<in> {1..8}" and vid: "100 \<le> vid" using cn by (auto simp: connection_ok_def)
  have "vid \<noteq> 0" using vid by auto
  then have id: "vlan_id v = Some vid" using cn by (simp add: vlan_id_def)
  let ?opt = "line_port j (ch = ''B'')"
  have opt: "OptEthernetName (omc_OpticalModule cn) = Inr ?opt" using cn' j OptEthernetName_eq [of j ch] by simp
  have line: "is_line_port ?opt" using j(2) unfolding is_line_port_def line_port_def
    by (intro bexI [of _ "2 * int j + 15 + (if ch = ''B'' then 1 else 0)"]) auto
  then have "?opt \<noteq> k" using client_not_line_port [OF board_client_name [OF c v]] by blast
  then have "vlan_ports k v = [(k, ''untagged''), (?opt, ''tagged'')]" using opt cn(1) cn' by (simp add: vlan_ports_def)
  with opt line id show ?thesis by blast
qed

text \<open>
  C9: what the command line lets be edited and validation lets through can be configured: the SONiC and the OF-DPA configuration of a
  reachable, validated configuration are computed without an error, the SONiC ports are the client
  interfaces and the line ports, and every connection has a VLAN with exactly its interface
  and its line port.
\<close>

theorem reachable_configures:
  assumes "cli_reachable c" "validateFinal c = Inr c'"
  shows "(\<exists>x. NewOFDPAConfigFromModel c' = Inr x) \<and>
    (\<exists>cfg. NewSONiCConfigFromModel c' = Inr cfg \<and>
      gkeys (sc_Ports cfg) = gkeys (Interface c) \<union> {k. is_line_port k} \<and>
      (\<forall>k v cn vid. (k, v) \<in> set (Interface c) \<longrightarrow> if_OpticalModuleConnection v = Some cn \<longrightarrow> omc_Id cn = Some vid \<longrightarrow>
         (\<exists>opt. is_line_port opt \<and> vlan_holds cfg vid [(k, ''untagged''), (opt, ''tagged'')])))"
proof -
  have c: "board_ok c" using reachable_board [OF assms(1)] .
  note val = validated_interfaces [OF assms(2)]
  obtain cfg x where cfg: "NewSONiCConfigFromModel c' = Inr cfg" "NewOFDPAConfigFromModel c' = Inr x"
    using board_validated [OF c assms(2)] by blast
  have keys: "gkeys (sc_Ports cfg) = gkeys (Interface c) \<union> {k. is_line_port k}"
    by (intro set_eqI) (simp add: gget_Some_key config_ports(1) [OF cfg(1)] val(1))
  have u: "ids_unique (Interface c')" "gomap_ok (Interface c')"
    using validated_ids_unique val(1,4) c by (simp_all add: board_ok_def board_interfaces_def)
  have "\<exists>opt. is_line_port opt \<and> vlan_holds cfg vid [(k, ''untagged''), (opt, ''tagged'')]"
    if v: "(k, v) \<in> set (Interface c)" "if_OpticalModuleConnection v = Some cn" "omc_Id cn = Some vid" for k v cn vid
  proof -
    have "connection_complete v" using val(3) v(1) by blast
    from board_connection [OF c v(1) this v(2,3)] obtain opt where opt: "is_line_port opt" "vlan_id v = Some vid"
        "vlan_ports k v = [(k, ''untagged''), (opt, ''tagged'')]" by blast
    with config_vlans [OF u(2,1) cfg(1) _ opt(2), of k] v(1) val(1) show ?thesis by auto
  qed
  with cfg keys show ?thesis by blast
qed

lemma default_interface: "(k, v) \<in> set (Interface (default_board is js)) \<Longrightarrow> if_OpticalModuleConnection v = None"
  by (auto simp: default_board_def)

lemma default_no_load: "connected n ch v = False" if "(k, v) \<in> set (Interface (default_board is js))"
  using default_interface [OF that] by (simp add: connected_def)

lemma no_connections_load:
  "\<forall>(k, v) \<in> set (Interface c). \<not> connected n ch v \<Longrightarrow> connected_mbps n ch c = 0 \<and> speeds_known n ch c"
  unfolding connected_mbps_def speeds_known_def by (auto simp: filter_empty_conv cong: map_cong)

lemma default_validates: "\<exists>c'. validateFinal (default_board [1..<17] [1..<9]) = Inr c'"
proof -
  let ?c = "default_board [1..<17] [1..<9]"
  have plain: "\<forall>(k, v) \<in> set (OpticalModule ?c). plain_module k v"
    using default_board_ok unfolding board_ok_def board_modules_def by blast
  have "connected_mbps n ch ?c = 0 \<and> speeds_known n ch ?c" for n ch
    by (rule no_connections_load) (use default_no_load in blast)
  then have "load_ok ?c k v ch" for k v ch by (simp add: load_ok_def)
  moreover have "\<forall>(k, v) \<in> set (Interface ?c). connection_complete v"
    using default_interface by (fastforce simp: connection_complete_def)
  moreover have "connection_ids (Interface (default_board is js)) = []" for "is" js
    by (induction "is") (simp_all add: default_board_def connection_id_def)
  moreover have "breakout_ok (default_port_entry i)" for i by (simp add: breakout_ok_def default_port_entry_def)
  then have "\<forall>(k, v) \<in> set (Port ?c). breakout_ok v" by (auto simp: default_board_def simp del: upt_Suc)
  ultimately show ?thesis unfolding validateFinal_iff [OF plain] by simp
qed

lemma reachable_configures_witness:
  "\<exists>c' cfg. validateFinal (default_board [1..<17] [1..<9]) = Inr c' \<and> NewSONiCConfigFromModel c' = Inr cfg \<and>
     eth_name 17 \<in> gkeys (sc_Ports cfg)"
proof -
  have r: "cli_reachable (default_board [1..<17] [1..<9])" by (rule cli_reachable.initial, rule default_configuration)
  obtain c' where c': "validateFinal (default_board [1..<17] [1..<9]) = Inr c'" using default_validates by blast
  have "is_line_port (eth_name 17)" by (auto simp: is_line_port_def)
  with reachable_configures [OF r c'] c' show ?thesis by blast
qed

subsection \<open>Running a command\<close>

context kubernetes
begin

lemma execute_edit_run:
  assumes f: "files s (in_git_dir H CONFIG_FILE) = Some x" and c: "cd_Unmarshal C x = Inr c"
    and run: "execute_edit H C cmd args s = (r, t)"
  shows "deployed t = deployed s \<and>
    (case res_bind (edit_config cmd args c) (\<lambda>c'. cd_EmitJSON C (TransponderS c')) of
       Inl e \<Rightarrow> (\<exists>e'. r = Inl e') \<and> files t = files s
     | Inr y \<Rightarrow> r = Inr () \<and> files t = (files s)(in_git_dir H CONFIG_FILE \<mapsto> y @ [newline]))"
proof (cases "command_args cmd args")
  case (Inl e)
  then have "edit_config cmd args c = Inl e" by (simp add: edit_config_def)
  moreover have "r = Inl e \<and> t = s"
    using run Inl by (simp add: execute_edit_def cobra_execute_def pseq_def pbind_def plift_def)
  ultimately show ?thesis by simp
next
  case (Inr u)
  obtain s1 where s1: "pwrap ''open: %v'' (ho_read H (in_git_dir H CONFIG_FILE)) s = (Inr x, s1)"
      "files s1 = files s" "deployed s1 = deployed s" using load_file [OF f] by blast
  have pre: "persistentPreRunE H C s = (Inr c, s1)" by (simp add: persistentPreRunE_def pbind_def plift_def s1(1) c)
  show ?thesis
  proof (cases "edit_config cmd args c")
    case (Inl e)
    then consider "command_pre cmd c = Inl e" | c1 where "command_pre cmd c = Inr c1" "command_run cmd args c1 = Inl e"
      using Inr by (cases "command_pre cmd c") (auto simp: edit_config_def)
    then have "r = Inl e \<and> t = s1"
    proof cases
      case 1
      with run Inr pre show ?thesis by (simp add: execute_edit_def cobra_execute_def pseq_def pbind_def plift_def)
    next
      case 2
      with run Inr pre show ?thesis by (simp add: execute_edit_def cobra_execute_def pseq_def pbind_def plift_def)
    qed
    with s1 Inl show ?thesis by simp
  next
    case (Inr c')
    then obtain c1 where c1: "command_pre cmd c = Inr c1" "command_run cmd args c1 = Inr c'"
      using \<open>command_args cmd args = Inr u\<close> by (auto simp: edit_config_def res_bind_Inr)
    have "persistentPostRunE H C c' s1 = (r, t)"
      using run c1 pre \<open>command_args cmd args = Inr u\<close>
      by (simp add: execute_edit_def cobra_execute_def pseq_def pbind_def plift_def)
    from persistentPostRunE_run [OF this] s1 Inr show ?thesis by (auto split: sum.splits)
  qed
qed

end

text \<open>
  C23: an edit command is atomic. Run on a stored configuration it either succeeds and the file holds exactly the edited
  configuration, or it fails and the files are as before; which of the two depends only on
  the edit and its encoding. It never touches what is deployed.
\<close>

theorem execute_edit_saves:
  assumes "kubernetes H declares files deployed"
    and "files s (in_git_dir H CONFIG_FILE) = Some x" "cd_Unmarshal C x = Inr c" "execute_edit H C cmd args s = (r, t)"
  shows "deployed t = deployed s \<and>
    (case res_bind (edit_config cmd args c) (\<lambda>c'. cd_EmitJSON C (TransponderS c')) of
       Inl e \<Rightarrow> (\<exists>e'. r = Inl e') \<and> files t = files s
     | Inr y \<Rightarrow> r = Inr () \<and> files t = (files s)(in_git_dir H CONFIG_FILE \<mapsto> y @ [newline]))"
  by (rule kubernetes.execute_edit_run [OF assms])

definition sample_codec :: codec where
  "sample_codec = \<lparr>cd_Unmarshal = (\<lambda>s. Inr zero_PacketTransponder),
     cd_EmitJSON = (\<lambda>g. case g of TransponderS c \<Rightarrow> Inr (if AllowOversubscription c = Some True then ''on'' else ''off'') | _ \<Rightarrow> Inr [])\<rparr>"

lemma execute_edit_saves_witness:
  "\<exists>t. execute_edit mem_cluster sample_codec AllowOversubscriptionCmd [''true'']
       \<lparr>mh_files = [(in_git_dir mem_cluster CONFIG_FILE, ''off'')], mh_deployed = []\<rparr> = (Inr (), t) \<and>
     map_of (mh_files t) (in_git_dir mem_cluster CONFIG_FILE) = Some (''on'' @ [newline])"
proof -
  let ?s = "\<lparr>mh_files = [(in_git_dir mem_cluster CONFIG_FILE, ''off'')], mh_deployed = []\<rparr>"
  obtain r t where run: "execute_edit mem_cluster sample_codec AllowOversubscriptionCmd [''true''] ?s = (r, t)" by fastforce
  have "res_bind (edit_config AllowOversubscriptionCmd [''true''] zero_PacketTransponder) (\<lambda>c'. cd_EmitJSON sample_codec (TransponderS c')) = Inr ''on''"
    by (simp add: edit_config_def allow_oversubscription_def sample_codec_def)
  note saved = execute_edit_saves [OF mk.kubernetes_axioms _ _ run, of "''off''" zero_PacketTransponder, unfolded this]
  have "r = Inr () \<and> map_of (mh_files t) (in_git_dir mem_cluster CONFIG_FILE) = Some (''on'' @ [newline])"
    using saved by (simp add: sample_codec_def)
  with run show ?thesis by blast
qed

text \<open>
  \<open>dump --verbose\<close> never prints a configuration that has a module: it completes the modules against the
  global \<open>current\<close>, which no step before it has set.
\<close>

lemma dump_verbose_panics:
  assumes "ho_read (en_host E) (in_git_dir (en_host E) CONFIG_FILE) s = (Inr x, t)"
    and "cd_Unmarshal (en_codec E) x = Inr c" "OpticalModule c \<noteq> []"
  shows "dump_cmd E True s = (Inl (Panic ''nil pointer dereference''), t)"
  using assms by (cases "OpticalModule c") (auto simp: dump_cmd_def pbind_def plift_def fillDefaultValues_def)

lemma dump_verbose_panics_witness:
  "\<forall>R G D. \<exists>t. dump_cmd \<lparr>en_redis = R, en_host = mem_cluster, en_git = G,
       en_codec = sample_codec\<lparr>cd_Unmarshal := (\<lambda>s. Inr (default_board [1] [1]))\<rparr>, en_diff = D, en_now = [], en_dry = True, en_virtual = True\<rparr>
     True \<lparr>mh_files = [(in_git_dir mem_cluster CONFIG_FILE, ''off'')], mh_deployed = []\<rparr> = (Inl (Panic ''nil pointer dereference''), t)"
proof (intro allI)
  let ?s = "\<lparr>mh_files = [(in_git_dir mem_cluster CONFIG_FILE, ''off'')], mh_deployed = []\<rparr>"
  fix R G D
  obtain t where "ho_read mem_cluster (in_git_dir mem_cluster CONFIG_FILE) ?s = (Inr ''off'', t)"
    using mk.fread [of ?s "in_git_dir mem_cluster CONFIG_FILE" "''off''"] by auto
  then show "\<exists>t. dump_cmd \<lparr>en_redis = R, en_host = mem_cluster, en_git = G,
       en_codec = sample_codec\<lparr>cd_Unmarshal := (\<lambda>s. Inr (default_board [1] [1]))\<rparr>, en_diff = D, en_now = [], en_dry = True, en_virtual = True\<rparr>
     True ?s = (Inl (Panic ''nil pointer dereference''), t)"
    by (intro exI [of _ t] dump_verbose_panics [of _ _ "''off''" _ "default_board [1] [1]"]) (simp_all add: default_board_def)
qed

end
