(* ===== verification/Node.thy ===== *)
theory Node
  imports Board
begin

section \<open>The node: the controller with its server and its host\<close>

text \<open>
  \<open>rebootSystem\<close> and the commands that end in it join the redis server and the host. A node is both on
  one state. What the pods have to do with the databases is stated once: commands to the server do not
  touch files or resources, file operations do not touch the databases, and a \<open>kubectl\<close> command
  keeps the databases as long as it leaves the redis pod alone; a redis pod that comes
  up where there was none starts with empty databases (its description mounts no volume for data).
\<close>

subsection \<open>What a program keeps\<close>

lemmas pod_file_names = REDIS_K8S_POD_CONFIG_NAME_def TRANSYNCD_K8S_POD_CONFIG_NAME_def OFDPA_K8S_POD_CONFIG_NAME_def
  SONIC_K8S_POD_CONFIG_NAME_def REDIS_POD_NAME_def TRANSYNCD_POD_NAME_def OFDPA_POD_NAME_def SONIC_POD_NAME_def
  SONIC_CONFIG_MAP_NAME_def OFDPA_CONFIG_MAP_NAME_def CONFIG_FILE_def

text \<open>A program keeps an observation of the state when no run of it, failed or not, changes it.\<close>

definition keeps :: "('s \<Rightarrow> 'x) \<Rightarrow> ('s, 'a) prog \<Rightarrow> bool" where
  "keeps q p \<longleftrightarrow> (\<forall>s r t. p s = (r, t) \<longrightarrow> q t = q s)"

named_theorems still \<open>programs that keep an observation\<close>

lemma keepsD: "keeps q p \<Longrightarrow> p s = (r, t) \<Longrightarrow> q t = q s"
  by (simp add: keeps_def)

lemma keeps_run: "keeps q p \<Longrightarrow> q (snd (p s)) = q s"
  by (cases "p s") (simp add: keeps_def)

lemma still_steps [still]: "keeps q (pret x)" "keeps q (pfail e)" "keeps q (plift w)"
  by (simp_all add: keeps_def pret_def pfail_def plift_def)

lemma still_pbind [still]: "keeps q p \<Longrightarrow> (\<And>x. keeps q (f x)) \<Longrightarrow> keeps q (pbind p f)"
  unfolding keeps_def pbind_def by (auto split: prod.splits sum.splits)

lemma still_pseq [still]: "keeps q p \<Longrightarrow> keeps q p' \<Longrightarrow> keeps q (pseq p p')"
  unfolding pseq_def by (intro still)

lemma still_ptry [still]: "keeps q p \<Longrightarrow> keeps q (ptry p)"
  unfolding keeps_def ptry_def by (auto split: prod.splits sum.splits if_splits)

lemma still_pfor [still]: "(\<And>x. keeps q (f x)) \<Longrightarrow> keeps q (pfor f xs)"
  by (induction xs) (auto intro: still)

lemma still_if [still]: "(b \<Longrightarrow> keeps q p) \<Longrightarrow> (\<not> b \<Longrightarrow> keeps q p') \<Longrightarrow> keeps q (if b then p else p')"
  by simp

text \<open>The programs of the database client keep what the commands to the server keep.\<close>

lemma still_client:
  assumes "\<And>db. keeps q (redis_ping R db)" shows "keeps q (NewSONiCDBClient R db)"
  unfolding NewSONiCDBClient_def by (intro still assms)

lemma still_ModEntry:
  assumes "\<And>m. keeps q (redis_hmset R db (entry_hash db table k) m)" "keeps q (redis_del R db (entry_hash db table k))"
  shows "keeps q (ModEntry R db table k e)"
  by (auto simp: ModEntry_def intro!: still assms split: option.split)

lemma still_SetEntry:
  assumes "\<And>h. keeps q (redis_hgetall R db h)" "\<And>h m. keeps q (redis_hmset R db h m)"
    and "\<And>h. keeps q (redis_del R db h)" "\<And>h f. keeps q (redis_hdel R db h f)"
  shows "keeps q (SetEntry R db table k e)"
proof -
  have "keeps q (GetEntry R db table ks)" for ks unfolding GetEntry_def by (intro still assms)
  then show ?thesis by (auto simp: SetEntry_def intro!: still still_ModEntry assms split: prod.split)
qed

lemma still_ConfigureTransport:
  assumes "\<And>db. keeps q (redis_ping R db)" "\<And>db h. keeps q (redis_hgetall R db h)" "\<And>db h m. keeps q (redis_hmset R db h m)"
    and "\<And>db h. keeps q (redis_del R db h)" "\<And>db h f. keeps q (redis_hdel R db h f)"
  shows "keeps q (ConfigureTransport R m)"
proof -
  have module: "keeps q (configure_module R c m k v)" for c k v
    by (auto simp: configure_module_def intro!: still still_SetEntry assms)
  have "keeps q (configure_loop R c m ms)" for c ms
    by (induction ms) (auto intro!: still module)
  then show ?thesis unfolding ConfigureTransport_def by (intro still still_client assms)
qed

lemma still_WriteToConfigDB:
  assumes "\<And>db. keeps q (redis_ping R db)" "\<And>db h. keeps q (redis_hgetall R db h)" "\<And>db h m. keeps q (redis_hmset R db h m)"
    and "\<And>db h. keeps q (redis_del R db h)" "\<And>db h f. keeps q (redis_hdel R db h f)"
  shows "keeps q (WriteToConfigDB R cfg)"
  by (auto simp: WriteToConfigDB_def set_ignoring_def intro!: still still_client still_SetEntry assms split: prod.split)

text \<open>The programs of the host keep what the operations on files and the commands keep.\<close>

lemma still_run_cmd: "keeps q (ho_kubectl H as) \<Longrightarrow> keeps q (run_cmd H as)"
  unfolding run_cmd_def by (intro still)

lemma still_deletePod:
  assumes "\<And>as. keeps q (ho_kubectl H as)" shows "keeps q (deletePod H n)"
  unfolding deletePod_def isPodRunning_def cmd_ok_def by (intro still still_run_cmd assms)

lemma still_pod_from_file:
  assumes "\<And>as. keeps q (ho_kubectl H as)" "keeps q (ho_create H (in_git_dir H file))" "\<And>x. keeps q (ho_write H (in_git_dir H file) x)"
  shows "keeps q (pod_from_file H file body)"
proof -
  have "keeps q (\<lambda>s. if ho_stat H (in_git_dir H file) s then pret () s
      else pseq (ho_create H (in_git_dir H file)) (ho_write H (in_git_dir H file) body) s)"
    using still_steps(1) [of q "()"] still_pseq [OF assms(2,3), of body] by (auto simp: keeps_def split: if_splits)
  then show ?thesis unfolding pod_from_file_def Let_def by (intro still still_run_cmd assms)
qed

lemma still_createConfigMap:
  assumes "\<And>as. keeps q (ho_kubectl H as)" "keeps q (ho_create H (in_git_dir H (name @ ''.yml'')))"
    and "\<And>x. keeps q (ho_write H (in_git_dir H (name @ ''.yml'')) x)"
  shows "keeps q (createConfigMap H name config)"
  unfolding createConfigMap_def isConfigMapExists_def cmd_ok_def Let_def by (intro still still_run_cmd assms)

lemma still_rebootSystem:
  assumes redis: "\<And>db. keeps q (redis_ping R db)" "\<And>db h. keeps q (redis_hgetall R db h)" "\<And>db h m. keeps q (redis_hmset R db h m)"
      "\<And>db h. keeps q (redis_del R db h)" "\<And>db h f. keeps q (redis_hdel R db h f)"
    and host: "\<And>as. keeps q (ho_kubectl H as)"
      "\<And>f. f \<noteq> CONFIG_FILE \<Longrightarrow> keeps q (ho_create H (in_git_dir H f))"
      "\<And>f x. f \<noteq> CONFIG_FILE \<Longrightarrow> keeps q (ho_write H (in_git_dir H f) x)"
  shows "keeps q (rebootSystem R H dry virtual m)"
  unfolding rebootSystem_def RestartRedis_def RestartTransyncd_def RestartOFDPA_def createOFDPAPod_def RestartSONiC_def createSONiCPod_def
  by (intro still still_ConfigureTransport still_WriteToConfigDB still_deletePod still_pod_from_file still_createConfigMap redis host)
    (simp_all add: pod_file_names)

subsection \<open>The interface\<close>

locale node = redis_total R view + kubernetes H declares files deployed
  for R :: "'s redis_ops" and view :: "'s redis_view" and H :: "'s host_ops"
    and declares :: "string \<Rightarrow> resource option" and files :: "'s \<Rightarrow> string \<rightharpoonup> string"
    and deployed :: "'s \<Rightarrow> resource \<rightharpoonup> string" +
  assumes redis_host: "keeps (\<lambda>s. (files s, deployed s)) (redis_ping R db)" "keeps (\<lambda>s. (files s, deployed s)) (redis_hgetall R db h)"
      "keeps (\<lambda>s. (files s, deployed s)) (redis_hmset R db h m)" "keeps (\<lambda>s. (files s, deployed s)) (redis_del R db h)"
      "keeps (\<lambda>s. (files s, deployed s)) (redis_hdel R db h f)"
    and host_view: "keeps view (ho_create H f)" "keeps view (ho_write H f x)" "keeps view (ho_read H f)"
    and write_other: "f' \<noteq> f \<Longrightarrow> keeps (\<lambda>s. files s f') (ho_write H f x)"
    and kubectl_files: "keeps files (ho_kubectl H as)"
    and kubectl_view: "ho_kubectl H as s = (q', t) \<Longrightarrow>
      deployed t (Pod REDIS_POD_NAME) = deployed s (Pod REDIS_POD_NAME) \<Longrightarrow> view t = view s"
    and redis_fresh: "ho_kubectl H as s = (q', t) \<Longrightarrow> deployed s (Pod REDIS_POD_NAME) = None \<Longrightarrow>
      deployed t (Pod REDIS_POD_NAME) \<noteq> None \<Longrightarrow> view t = (\<lambda>db h. Map.empty)"
begin

text \<open>Commands to the server leave the host alone, and a reboot does not touch the configuration file.\<close>

lemma reboot_config_file: "keeps (\<lambda>s. files s (in_git_dir H CONFIG_FILE)) (rebootSystem R H dry virtual m)"
proof (rule still_rebootSystem)
  let ?q = "\<lambda>s. files s (in_git_dir H CONFIG_FILE)"
  have part: "keeps ?q p" if "keeps (\<lambda>s. (files s, deployed s)) p" for p :: "('s, 'b) prog" using that by (simp add: keeps_def)
  show "keeps ?q (redis_ping R db)" "keeps ?q (redis_hgetall R db h)" "keeps ?q (redis_hmset R db h x)"
    "keeps ?q (redis_del R db h)" "keeps ?q (redis_hdel R db h f)" for db h x f by (rule part, rule redis_host)+
  show "keeps ?q (ho_kubectl H as)" for as using kubectl_files [of as] by (simp add: keeps_def)
  show "keeps ?q (ho_create H (in_git_dir H f))" if "f \<noteq> CONFIG_FILE" for f
    unfolding keeps_def using fcreate [of "in_git_dir H f"] that by (metis fun_upd_apply in_git_dir_inj prod.inject)
  show "keeps ?q (ho_write H (in_git_dir H f) x)" if "f \<noteq> CONFIG_FILE" for f x
    using write_other [of "in_git_dir H CONFIG_FILE"] that by simp
qed

subsection \<open>Commands to the host and the databases\<close>

lemma get_view:
  assumes "ho_kubectl H [''get'', x, n] s = (r, t)" "x = ''pod'' \<or> x = ''cm''"
  shows "view t = view s \<and> deployed t = deployed s"
proof -
  have "deployed t = deployed s" using assms get_pod [of n s] get_cm [of n s] by auto
  with kubectl_view [OF assms(1)] show ?thesis by simp
qed

lemma cmd_ok_runs: "cmd_ok H as s = (r, t) \<Longrightarrow> \<exists>q. ho_kubectl H as s = (q, t)"
  by (auto simp: cmd_ok_def run_cmd_def ptry_def pbind_def pret_def split: prod.splits sum.splits if_splits)

lemma isPodRunning_view: "isPodRunning H n s = (r, t) \<Longrightarrow> view t = view s"
  unfolding isPodRunning_def using cmd_ok_runs get_view by blast

lemma isConfigMapExists_view: "isConfigMapExists H n s = (r, t) \<Longrightarrow> view t = view s"
  unfolding isConfigMapExists_def using cmd_ok_runs get_view by blast

lemma run_cmd_runs: "run_cmd H as s = (r, t) \<Longrightarrow> \<exists>q. ho_kubectl H as s = (q, t)"
  by (auto simp: run_cmd_def pbind_def pret_def split: prod.splits sum.splits)

lemma run_cmd_view:
  "run_cmd H as s = (r, t) \<Longrightarrow> deployed t (Pod REDIS_POD_NAME) = deployed s (Pod REDIS_POD_NAME) \<Longrightarrow> view t = view s"
  "run_cmd H as s = (r, t) \<Longrightarrow> deployed s (Pod REDIS_POD_NAME) = None \<Longrightarrow> deployed t (Pod REDIS_POD_NAME) \<noteq> None \<Longrightarrow>
    view t = (\<lambda>db h. Map.empty)"
  by (metis run_cmd_runs kubectl_view, metis run_cmd_runs redis_fresh)

lemma deletePod_view:
  assumes "deletePod H n s = (Inr (), t)" "n \<noteq> REDIS_POD_NAME"
  shows "view t = view s"
proof -
  obtain b u where u: "isPodRunning H n s = (Inr b, u)" using isPodRunning_run by blast
  obtain t' where "deletePod H n s = (Inr (), t')" "deployed t' = (deployed s)(Pod n := None)" using deletePod_run by blast
  then have d: "deployed t (Pod REDIS_POD_NAME) = deployed s (Pod REDIS_POD_NAME)" using assms by simp
  have du: "deployed u = deployed s" using isPodRunning_run [of n s] u by auto
  have "view t = view u"
    using assms(1) u d du run_cmd_view(1) [of "[''delete'', ''pod'', n, ''--grace-period=0'', ''--force'']" u "Inr ()" t]
    by (cases b) (auto simp: deletePod_def prog_Inr)
  with isPodRunning_view [OF u] show ?thesis by simp
qed

text \<open>Both files are written before the one command that deploys.\<close>

lemma pod_from_file_steps:
  assumes "pod_from_file H file body s = (Inr (), t)"
  obtains u where "view u = view s" "deployed u = deployed s" "run_cmd H [''create'', ''-f'', in_git_dir H file] u = (Inr (), t)"
proof (cases "ho_stat H (in_git_dir H file) s")
  case True
  with assms that show ?thesis by (auto simp: pod_from_file_def Let_def prog_Inr)
next
  case False
  with assms obtain u v where u: "ho_create H (in_git_dir H file) s = (Inr (), u)"
      "ho_write H (in_git_dir H file) body u = (Inr (), v)" "run_cmd H [''create'', ''-f'', in_git_dir H file] v = (Inr (), t)"
    by (auto simp: pod_from_file_def Let_def prog_Inr)
  have "files u (in_git_dir H file) = Some []" "deployed u = deployed s"
    using fcreate [of "in_git_dir H file" s] u(1) by auto
  moreover from this have "deployed v = deployed u" using fwrite [of u "in_git_dir H file" "[]" body] u(2) by auto
  ultimately show ?thesis using that u keepsD [OF host_view(1) u(1)] keepsD [OF host_view(2) u(2)] by simp
qed

lemma createConfigMap_view:
  assumes "one_line name" "createConfigMap H name config s = (Inr (), t)"
  shows "view t = view s"
proof -
  let ?f = "in_git_dir H (name @ ''.yml'')" and ?x = "CONFIG_MAP_TEMPLATE name config"
  obtain u where u: "ho_create H ?f s = (Inr (), u)" "files u ?f = Some []" "deployed u = deployed s"
    using fcreate [of ?f s] by auto
  obtain v where v: "ho_write H ?f ?x u = (Inr (), v)" "deployed v = deployed u"
    using fwrite [OF u(2)] by blast
  obtain b w where w: "isConfigMapExists H name v = (Inr b, w)" "deployed w = deployed v"
    using isConfigMapExists_run by blast
  have run: "run_cmd H [if b then ''replace'' else ''create'', ''-f'', ?f] w = (Inr (), t)"
    using assms(2) u(1) v(1) w(1) by (simp add: createConfigMap_def Let_def pseq_def pbind_def ptry_def)
  obtain t' where "createConfigMap H name config s = (Inr (), t')"
      "deployed t' = (deployed s)(ConfigMap name \<mapsto> ?x)"
    using createConfigMap_run [OF assms(1)] by blast
  then have "deployed t (Pod REDIS_POD_NAME) = deployed w (Pod REDIS_POD_NAME)" using assms(2) u v w by simp
  from run_cmd_view(1) [OF run this] show ?thesis
    using isConfigMapExists_view [OF w(1)] keepsD [OF host_view(2) v(1)] keepsD [OF host_view(1) u(1)] by simp
qed

lemma restart_steps:
  assumes "pseq (deletePod H n) (pod_from_file H file body) s = (Inr (), t)"
    and "file_declares s file n" "declares body = Some (Pod n)"
  obtains u v where "deletePod H n s = (Inr (), u)" "view v = view u" "deployed v = (deployed s)(Pod n := None)"
    "run_cmd H [''create'', ''-f'', in_git_dir H file] v = (Inr (), t)"
    "deployed t = (deployed s)(Pod n \<mapsto> pod_source s file body)"
proof -
  obtain u where u: "deletePod H n s = (Inr (), u)" "deployed u = (deployed s)(Pod n := None)"
    using deletePod_run by blast
  have "pod_from_file H file body u = (Inr (), t)" using assms(1) u(1) by (simp add: pseq_def pbind_def)
  then obtain v where "view v = view u" "deployed v = deployed u" "run_cmd H [''create'', ''-f'', in_git_dir H file] v = (Inr (), t)"
    by (rule pod_from_file_steps)
  moreover have "deployed t = (deployed s)(Pod n \<mapsto> pod_source s file body)"
    using restart_run [OF pod_source_declares [OF assms(2,3)]] assms(1) by auto
  ultimately show ?thesis using that u by simp
qed

lemma restart_view:
  assumes "pseq (deletePod H n) (pod_from_file H file body) s = (Inr (), t)"
    and "file_declares s file n" "declares body = Some (Pod n)" "n \<noteq> REDIS_POD_NAME"
  shows "view t = view s"
  using assms(1-3)
proof (rule restart_steps)
  fix u v
  assume *: "deletePod H n s = (Inr (), u)" "view v = view u" "deployed v = (deployed s)(Pod n := None)"
    "run_cmd H [''create'', ''-f'', in_git_dir H file] v = (Inr (), t)"
    "deployed t = (deployed s)(Pod n \<mapsto> pod_source s file body)"
  then have "view t = view v" using assms(4) by (intro run_cmd_view(1)) simp_all
  with * deletePod_view [OF *(1) assms(4)] show "view t = view s" by simp
qed

lemma restart_fresh:
  assumes "pseq (deletePod H REDIS_POD_NAME) (pod_from_file H file body) s = (Inr (), t)"
    and "file_declares s file REDIS_POD_NAME" "declares body = Some (Pod REDIS_POD_NAME)"
  shows "view t = (\<lambda>db h. Map.empty)"
  using assms
proof (rule restart_steps)
  fix u v
  assume v: "deployed v = (deployed s)(Pod REDIS_POD_NAME := None)"
    and run: "run_cmd H [''create'', ''-f'', in_git_dir H file] v = (Inr (), t)"
    and t: "deployed t = (deployed s)(Pod REDIS_POD_NAME \<mapsto> pod_source s file body)"
  show "view t = (\<lambda>db h. Map.empty)" by (rule run_cmd_view(2) [OF run]) (simp_all add: v t)
qed

lemma restart_with_map_view:
  assumes "pseq (createConfigMap H name config) (pseq (deletePod H n) (pod_from_file H file body)) s = (Inr (), t)"
    and "one_line name" "name @ ''.yml'' \<noteq> file"
    and "file_declares s file n" "declares body = Some (Pod n)" "n \<noteq> REDIS_POD_NAME"
  shows "view t = view s"
proof -
  obtain u where u: "createConfigMap H name config s = (Inr (), u)"
      "files u = (files s)(in_git_dir H (name @ ''.yml'') \<mapsto> CONFIG_MAP_TEMPLATE name config)"
    using createConfigMap_run [OF assms(2)] by blast
  have "file_declares u file n" using assms(3,4) u(2) by (simp add: file_declares_def)
  moreover have "pseq (deletePod H n) (pod_from_file H file body) u = (Inr (), t)"
    using assms(1) u(1) by (simp add: pseq_def [of "createConfigMap H name config"] pbind_def)
  ultimately have "view t = view u" using assms(5,6) by (intro restart_view)
  with createConfigMap_view [OF assms(2) u(1)] show ?thesis by simp
qed

text \<open>The four restarts: the result, what is deployed, the other pod files and the databases.\<close>

definition pod_files_ok :: "'s \<Rightarrow> bool" where
  "pod_files_ok s \<longleftrightarrow> file_declares s REDIS_K8S_POD_CONFIG_NAME REDIS_POD_NAME \<and>
     file_declares s TRANSYNCD_K8S_POD_CONFIG_NAME TRANSYNCD_POD_NAME \<and>
     file_declares s OFDPA_K8S_POD_CONFIG_NAME OFDPA_POD_NAME \<and>
     file_declares s SONIC_K8S_POD_CONFIG_NAME SONIC_POD_NAME"

lemma RestartRedis_node:
  assumes "pod_files_ok s"
  shows "\<exists>t. RestartRedis H s = (Inr (), t) \<and> view t = (\<lambda>db h. Map.empty) \<and> pod_files_ok t \<and>
    deployed t = (deployed s)(Pod REDIS_POD_NAME \<mapsto> pod_source s REDIS_K8S_POD_CONFIG_NAME redis_pod_text)"
proof -
  have ok: "file_declares s REDIS_K8S_POD_CONFIG_NAME REDIS_POD_NAME" using assms by (simp add: pod_files_ok_def)
  from RestartRedis_run [OF ok] obtain t where t: "RestartRedis H s = (Inr (), t)"
    "files t = (files s)(in_git_dir H REDIS_K8S_POD_CONFIG_NAME \<mapsto> pod_source s REDIS_K8S_POD_CONFIG_NAME redis_pod_text)"
    "deployed t = (deployed s)(Pod REDIS_POD_NAME \<mapsto> pod_source s REDIS_K8S_POD_CONFIG_NAME redis_pod_text)" by blast
  have "pod_files_ok t"
    using assms t(2) pod_source_declares [OF ok declares_texts(3)]
    by (simp add: pod_files_ok_def file_declares_def pod_file_names)
  with t restart_fresh [OF t(1) [unfolded RestartRedis_def] ok declares_texts(3)] show ?thesis by blast
qed

lemma RestartTransyncd_node:
  assumes "pod_files_ok s"
  shows "\<exists>t. RestartTransyncd H virtual s = (Inr (), t) \<and> view t = view s \<and> pod_files_ok t \<and>
    deployed t = (deployed s)(Pod TRANSYNCD_POD_NAME \<mapsto> pod_source s TRANSYNCD_K8S_POD_CONFIG_NAME (transyncd_pod_text virtual))"
proof -
  have ok: "file_declares s TRANSYNCD_K8S_POD_CONFIG_NAME TRANSYNCD_POD_NAME" using assms by (simp add: pod_files_ok_def)
  from RestartTransyncd_run [OF ok] obtain t where t: "RestartTransyncd H virtual s = (Inr (), t)"
    "files t = (files s)(in_git_dir H TRANSYNCD_K8S_POD_CONFIG_NAME \<mapsto>
       pod_source s TRANSYNCD_K8S_POD_CONFIG_NAME (transyncd_pod_text virtual))"
    "deployed t = (deployed s)(Pod TRANSYNCD_POD_NAME \<mapsto> pod_source s TRANSYNCD_K8S_POD_CONFIG_NAME (transyncd_pod_text virtual))"
    by blast
  have "pod_files_ok t"
    using assms t(2) pod_source_declares [OF ok declares_texts(2)]
    by (simp add: pod_files_ok_def file_declares_def pod_file_names)
  moreover have "view t = view s"
    by (rule restart_view [OF t(1) [unfolded RestartTransyncd_def] ok declares_texts(2)]) (simp add: pod_file_names)
  ultimately show ?thesis using t by blast
qed

lemma declares_ofdpa: "declares ofdpa_pod_text = Some (Pod OFDPA_POD_NAME)"
  using ofdpa_pod declares_pod [OF name_lines(4)] unfolding OFDPA_POD_NAME_def by metis

lemma RestartOFDPA_node:
  assumes "pod_files_ok s"
  shows "\<exists>t. RestartOFDPA H config s = (Inr (), t) \<and> view t = view s \<and> pod_files_ok t \<and>
    deployed t = (deployed s)(ConfigMap OFDPA_CONFIG_MAP_NAME \<mapsto> CONFIG_MAP_TEMPLATE OFDPA_CONFIG_MAP_NAME [(''ofdpa.conf'', config)],
      Pod OFDPA_POD_NAME \<mapsto> pod_source s OFDPA_K8S_POD_CONFIG_NAME ofdpa_pod_text)"
proof -
  have ok: "file_declares s OFDPA_K8S_POD_CONFIG_NAME OFDPA_POD_NAME" using assms by (simp add: pod_files_ok_def)
  from RestartOFDPA_run [OF ok] obtain t where t: "RestartOFDPA H config s = (Inr (), t)"
    "files t = (files s)(in_git_dir H (OFDPA_CONFIG_MAP_NAME @ ''.yml'') \<mapsto> CONFIG_MAP_TEMPLATE OFDPA_CONFIG_MAP_NAME [(''ofdpa.conf'', config)],
      in_git_dir H OFDPA_K8S_POD_CONFIG_NAME \<mapsto> pod_source s OFDPA_K8S_POD_CONFIG_NAME ofdpa_pod_text)"
    "deployed t = (deployed s)(ConfigMap OFDPA_CONFIG_MAP_NAME \<mapsto> CONFIG_MAP_TEMPLATE OFDPA_CONFIG_MAP_NAME [(''ofdpa.conf'', config)],
      Pod OFDPA_POD_NAME \<mapsto> pod_source s OFDPA_K8S_POD_CONFIG_NAME ofdpa_pod_text)" by blast
  have "pod_files_ok t"
    using assms t(2) pod_source_declares [OF ok declares_ofdpa]
    by (simp add: pod_files_ok_def file_declares_def pod_file_names)
  moreover have "view t = view s"
    by (rule restart_with_map_view [OF t(1) [unfolded RestartOFDPA_def createOFDPAPod_def] _ _ ok declares_ofdpa])
      (simp_all add: pod_file_names name_lines)
  ultimately show ?thesis using t by blast
qed

lemma RestartSONiC_node:
  assumes "pod_files_ok s"
  shows "\<exists>t. RestartSONiC H config virtual s = (Inr (), t) \<and> view t = view s \<and> pod_files_ok t \<and>
    deployed t = (deployed s)(ConfigMap SONIC_CONFIG_MAP_NAME \<mapsto> CONFIG_MAP_TEMPLATE SONIC_CONFIG_MAP_NAME [(''config_db.json'', config)],
      Pod SONIC_POD_NAME \<mapsto> pod_source s SONIC_K8S_POD_CONFIG_NAME (sonic_pod_text virtual))"
proof -
  have ok: "file_declares s SONIC_K8S_POD_CONFIG_NAME SONIC_POD_NAME" using assms by (simp add: pod_files_ok_def)
  from RestartSONiC_run [OF ok] obtain t where t: "RestartSONiC H config virtual s = (Inr (), t)"
    "files t = (files s)(in_git_dir H (SONIC_CONFIG_MAP_NAME @ ''.yml'') \<mapsto> CONFIG_MAP_TEMPLATE SONIC_CONFIG_MAP_NAME [(''config_db.json'', config)],
      in_git_dir H SONIC_K8S_POD_CONFIG_NAME \<mapsto> pod_source s SONIC_K8S_POD_CONFIG_NAME (sonic_pod_text virtual))"
    "deployed t = (deployed s)(ConfigMap SONIC_CONFIG_MAP_NAME \<mapsto> CONFIG_MAP_TEMPLATE SONIC_CONFIG_MAP_NAME [(''config_db.json'', config)],
      Pod SONIC_POD_NAME \<mapsto> pod_source s SONIC_K8S_POD_CONFIG_NAME (sonic_pod_text virtual))" by blast
  have "pod_files_ok t"
    using assms t(2) pod_source_declares [OF ok declares_texts(1)]
    by (simp add: pod_files_ok_def file_declares_def pod_file_names)
  moreover have "view t = view s"
    by (rule restart_with_map_view [OF t(1) [unfolded RestartSONiC_def createSONiCPod_def] _ _ ok declares_texts(1)])
      (simp_all add: pod_file_names name_lines)
  ultimately show ?thesis using t by blast
qed

lemma redis_keeps_host:
  assumes "keeps (\<lambda>s. (files s, deployed s)) p" "p s = (r, t)"
  shows "deployed t = deployed s" "pod_files_ok s \<Longrightarrow> pod_files_ok t"
proof -
  have "files t = files s" "deployed t = deployed s" using keepsD [OF assms] by simp_all
  then show "deployed t = deployed s" "pod_files_ok s \<Longrightarrow> pod_files_ok t" by (simp_all add: pod_files_ok_def file_declares_def)
qed

lemmas configure_keeps_host = redis_keeps_host [OF still_ConfigureTransport [OF redis_host]]
lemmas write_keeps_host = redis_keeps_host [OF still_WriteToConfigDB [OF redis_host]]

end

subsection \<open>The reboot\<close>

lemma NewSONiCConfigFromModel_modules [simp]: "NewSONiCConfigFromModel (m\<lparr>OpticalModule := x\<rparr>) = NewSONiCConfigFromModel m"
  by (simp add: NewSONiCConfigFromModel_def)

lemma NewOFDPAConfigFromModel_modules [simp]: "NewOFDPAConfigFromModel (m\<lparr>OpticalModule := x\<rparr>) = NewOFDPAConfigFromModel m"
  by (simp add: NewOFDPAConfigFromModel_def)

lemma opt_name_prefix: "HasPrefix (opt_name i) ''Opt''"
  unfolding opt_name_def by (rule HasPrefix_append)

lemma opt_name_index: "i \<in> {1..8} \<Longrightarrow> index_of_module (opt_name i) = Inr (int i)"
  by (simp add: index_of_module_def opt_name_def slice_from_def Atoi_itoa_nat)

lemma for_map_set: "for_map f m = Inr m' \<Longrightarrow> (k, v') \<in> set m' \<Longrightarrow> \<exists>v. (k, v) \<in> set m \<and> f k v = Inr v'"
proof (induction m arbitrary: m')
  case (Cons x m)
  obtain k0 v0 where "x = (k0, v0)" by (cases x)
  with Cons show ?case by (fastforce simp: res_bind_Inr)
qed simp

lemma reachable_modules:
  assumes "board_ok c" "validateFinal c = Inr c'"
  shows "gomap_ok (OpticalModule c')" and
    "(k, v) \<in> set (OpticalModule c') \<Longrightarrow>
      HasPrefix k ''Opt'' \<and> (\<exists>i. index_of_module k = Inr i) \<and> (\<exists>v'. FillTransportDefaultConfig v c' = Inr v')"
proof -
  obtain oms where c': "c' = c\<lparr>OpticalModule := oms\<rparr>" "for_map (check_module c) (OpticalModule c) = Inr oms"
    using validateFinal_Inr [OF assms(2)] by metis
  have m: "gomap_ok (OpticalModule c)" "gkeys (OpticalModule c) = opt_name ` {1..8}"
    using assms(1) by (simp_all add: board_ok_def board_modules_def)
  have keys: "map fst oms = map fst (OpticalModule c)" using for_map_keys [OF c'(2)] .
  then show "gomap_ok (OpticalModule c')" using m(1) c'(1) by (simp add: gomap_ok_def)
  assume kv: "(k, v) \<in> set (OpticalModule c')"
  then obtain v0 where v0: "(k, v0) \<in> set (OpticalModule c)" "check_module c k v0 = Inr v" using for_map_set [OF c'(2)] c'(1) by auto
  then have "k \<in> opt_name ` {1..8}" unfolding m(2) [symmetric] by force
  then obtain i where i: "k = opt_name i" "i \<in> {1..8}" by blast
  have "FillTransportDefaultConfig v c = Inr v" using Fill_idempotent [OF check_module_Inr(1) [OF v0(2)]] .
  then have "FillTransportDefaultConfig v c' = Inr v" using c'(1) by simp
  with i opt_name_index [OF i(2)] opt_name_prefix
  show "HasPrefix k ''Opt'' \<and> (\<exists>i. index_of_module k = Inr i) \<and> (\<exists>v'. FillTransportDefaultConfig v c' = Inr v')"
    by blast
qed

lemma client_plain: "board_ok c \<Longrightarrow> plain_names c"
proof -
  assume c: "board_ok c"
  have "CHR '','' \<notin> set k" if "client_name k" for k
    using that by (auto simp: client_name_def eth_sub_name_def itoa_no_comma)
  then show ?thesis using board_client_name [OF c] by (auto simp: plain_names_def)
qed

text \<open>
  What a reboot is to achieve: every module has its completed configuration in the transport
  database, the tables of the configuration database are those of the SONiC configuration, the config maps hold the
  configurations computed from the model, and the pods run.
\<close>

definition config_stored :: "(int \<Rightarrow> string \<Rightarrow> string \<rightharpoonup> string) \<Rightarrow> SONiCConfig \<Rightarrow> bool" where
  "config_stored V cfg \<longleftrightarrow>
     (\<forall>k. cfg_entry V DEVICE_METADATA_TABLE k =
       (case gget (sc_DeviceMetadata cfg) k of None \<Rightarrow> Map.empty | Some d \<Rightarrow> stored_view (DeviceMetadata_ToMap d))) \<and>
     (\<forall>k. cfg_entry V PORT_TABLE k =
       (case gget (sc_Ports cfg) k of None \<Rightarrow> Map.empty | Some p \<Rightarrow> stored_view (Port_ToMap p))) \<and>
     (\<forall>k. cfg_entry V VLAN_TABLE k =
       (case gget (sc_Vlans cfg) k of None \<Rightarrow> Map.empty | Some v \<Rightarrow> stored_view (Vlan_ToMap v))) \<and>
     (\<forall>k. cfg_entry V VLAN_MEMBER_TABLE k =
       (case gget (sc_VlanMembers cfg) k of None \<Rightarrow> Map.empty | Some v \<Rightarrow> stored_view (VlanMember_ToMap v)))"

definition modules_stored :: "PacketTransponder \<Rightarrow> (int \<Rightarrow> string \<Rightarrow> string \<rightharpoonup> string) \<Rightarrow> bool" where
  "modules_stored m V \<longleftrightarrow> (\<forall>(k, v) \<in> set (OpticalModule m). \<exists>e. module_entry m k v = Inr e \<and>
     V TRANSPORT_CONFIG_DB (transport_hash k) = gget (encode_entry e))"

definition pods_up :: "bool \<Rightarrow> (resource \<rightharpoonup> string) \<Rightarrow> bool" where
  "pods_up virtual D \<longleftrightarrow> D (Pod REDIS_POD_NAME) \<noteq> None \<and> D (Pod TRANSYNCD_POD_NAME) \<noteq> None \<and> D (Pod SONIC_POD_NAME) \<noteq> None \<and>
     (virtual \<or> D (Pod OFDPA_POD_NAME) \<noteq> None)"

definition brought_up ::
    "bool \<Rightarrow> PacketTransponder \<Rightarrow> (int \<Rightarrow> string \<Rightarrow> string \<rightharpoonup> string) \<Rightarrow> (resource \<rightharpoonup> string) \<Rightarrow> bool" where
  "brought_up virtual m V D \<longleftrightarrow> modules_stored m V \<and> pods_up virtual D \<and>
     (\<exists>cfg. NewSONiCConfigFromModel m = Inr cfg \<and> config_stored V cfg \<and>
        D (ConfigMap SONIC_CONFIG_MAP_NAME) = Some (CONFIG_MAP_TEMPLATE SONIC_CONFIG_MAP_NAME [(''config_db.json'', json_config cfg)])) \<and>
     (virtual \<or> (\<exists>x. NewOFDPAConfigFromModel m = Inr x \<and>
        D (ConfigMap OFDPA_CONFIG_MAP_NAME) = Some (CONFIG_MAP_TEMPLATE OFDPA_CONFIG_MAP_NAME [(''ofdpa.conf'', x)])))"

context node begin

text \<open>Redis and the modules: the first two steps.\<close>

lemma reboot_transport:
  assumes c: "board_ok c" "validateFinal c = Inr c'" and ok: "pod_files_ok s"
  shows "\<exists>t oms u. RestartRedis H s = (Inr (), t) \<and> ConfigureTransport R c' t = (Inr (c'\<lparr>OpticalModule := oms\<rparr>), u) \<and>
    pod_files_ok u \<and> deployed u (Pod REDIS_POD_NAME) \<noteq> None \<and> modules_stored c' (view u) \<and> (\<forall>h. view u CONFIG_DB h = Map.empty)"
proof -
  obtain t where t: "RestartRedis H s = (Inr (), t)" "view t = (\<lambda>db h. Map.empty)" "pod_files_ok t"
      "deployed t (Pod REDIS_POD_NAME) \<noteq> None" using RestartRedis_node [OF ok] by force
  have old: "\<forall>k \<in> gkeys (OpticalModule c'). scalar_hash (view t TRANSPORT_CONFIG_DB (transport_hash k))" by (simp add: t(2))
  note m = reachable_modules [OF c]
  obtain m' u where u: "ConfigureTransport R c' t = (Inr m', u)"
    using ConfigureTransport_iff [OF redis_total_axioms m(1) old] m(2) by blast
  from ConfigureTransport_view [OF redis_reliable_axioms m(1) old u] obtain oms where
    oms: "m' = c'\<lparr>OpticalModule := oms\<rparr>" "configured (view t) (view u) c' (OpticalModule c') oms" by blast
  have "modules_stored c' (view u)" using oms(2) by (fastforce simp: configured_def modules_stored_def)
  moreover have "\<forall>h. view u CONFIG_DB h = Map.empty"
    using oms(2) t(2) by (simp add: configured_def CONFIG_DB_def TRANSPORT_CONFIG_DB_def)
  moreover have "pod_files_ok u" "deployed u = deployed t"
    using configure_keeps_host [OF u] t(3) by blast+
  ultimately show ?thesis using t(1,4) u oms(1) by auto
qed

text \<open>The configuration of SONiC: the last two steps.\<close>

lemma reboot_sonic:
  assumes cfg: "sonic_config_ok cfg" "\<forall>h. view s CONFIG_DB h = Map.empty" and ok: "pod_files_ok s"
  shows "\<exists>t u. WriteToConfigDB R cfg s = (Inr (), t) \<and> RestartSONiC H (json_config cfg) virtual t = (Inr (), u) \<and>
    pod_files_ok u \<and> config_stored (view u) cfg \<and> (\<forall>db h. db \<noteq> CONFIG_DB \<longrightarrow> view u db h = view s db h) \<and>
    (\<exists>x. deployed u = (deployed s)(ConfigMap SONIC_CONFIG_MAP_NAME \<mapsto>
        CONFIG_MAP_TEMPLATE SONIC_CONFIG_MAP_NAME [(''config_db.json'', json_config cfg)], Pod SONIC_POD_NAME \<mapsto> x))"
proof -
  obtain t where t: "WriteToConfigDB R cfg s = (Inr (), t)" "config_stored (view t) cfg"
      "\<forall>db h. db \<noteq> CONFIG_DB \<longrightarrow> view t db h = view s db h"
    using config_tables [OF redis_total_axioms cfg] unfolding config_stored_def by blast
  have "pod_files_ok t" "deployed t = deployed s"
    using write_keeps_host [OF t(1)] ok by blast+
  with RestartSONiC_node [OF this(1), of "json_config cfg" virtual] t show ?thesis by metis
qed

lemma reboot_run:
  assumes c: "board_ok c" "validateFinal c = Inr c'" and ok: "pod_files_ok s"
  shows "\<exists>t. rebootSystem R H False virtual c' s = (Inr (), t) \<and> brought_up virtual c' (view t) (deployed t) \<and> pod_files_ok t"
proof -
  obtain t1 oms t2 where t: "RestartRedis H s = (Inr (), t1)" "ConfigureTransport R c' t1 = (Inr (c'\<lparr>OpticalModule := oms\<rparr>), t2)"
      "pod_files_ok t2" "deployed t2 (Pod REDIS_POD_NAME) \<noteq> None" "modules_stored c' (view t2)" "\<forall>h. view t2 CONFIG_DB h = Map.empty"
    using reboot_transport [OF assms] by blast
  obtain cfg x where cfg: "NewSONiCConfigFromModel c' = Inr cfg" and x: "NewOFDPAConfigFromModel c' = Inr x"
    using board_validated [OF c] by blast
  have "plain_names c'" using client_plain [OF c(1)] validated_interfaces(1) [OF c(2)] by (simp add: plain_names_def)
  note cok = NewSONiCConfigFromModel_ok [OF cfg this]
  obtain t3 where t3: "RestartTransyncd H virtual t2 = (Inr (), t3)" "view t3 = view t2" "pod_files_ok t3"
      "deployed t3 = (deployed t2)(Pod TRANSYNCD_POD_NAME \<mapsto> pod_source t2 TRANSYNCD_K8S_POD_CONFIG_NAME (transyncd_pod_text virtual))"
    using RestartTransyncd_node [OF t(3)] by blast
  let ?ofdpa = "if virtual then pret () else pbind (plift (NewOFDPAConfigFromModel (c'\<lparr>OpticalModule := oms\<rparr>))) (RestartOFDPA H)"
  obtain t4 where t4: "?ofdpa t3 = (Inr (), t4)" "view t4 = view t2" "pod_files_ok t4"
      "deployed t4 (Pod REDIS_POD_NAME) \<noteq> None" "deployed t4 (Pod TRANSYNCD_POD_NAME) \<noteq> None"
      "virtual \<or> deployed t4 (Pod OFDPA_POD_NAME) \<noteq> None \<and> deployed t4 (ConfigMap OFDPA_CONFIG_MAP_NAME) =
         Some (CONFIG_MAP_TEMPLATE OFDPA_CONFIG_MAP_NAME [(''ofdpa.conf'', x)])"
  proof (cases virtual)
    case True
    with t3 t(4) that [of t3] show ?thesis by (auto simp: pret_def)
  next
    case False
    from RestartOFDPA_node [OF t3(3), of x] that t3(2,4) t(4) False x show ?thesis
      by (auto simp: plift_def pbind_def)
  qed
  have "\<forall>h. view t4 CONFIG_DB h = Map.empty" using t(6) t4(2) by simp
  from reboot_sonic [OF cok this t4(3), of virtual] obtain t5 t6 y where
    t5: "WriteToConfigDB R cfg t4 = (Inr (), t5)" and t6: "RestartSONiC H (json_config cfg) virtual t5 = (Inr (), t6)"
      "pod_files_ok t6" "config_stored (view t6) cfg" "\<forall>db h. db \<noteq> CONFIG_DB \<longrightarrow> view t6 db h = view t4 db h"
      "deployed t6 = (deployed t4)(ConfigMap SONIC_CONFIG_MAP_NAME \<mapsto>
        CONFIG_MAP_TEMPLATE SONIC_CONFIG_MAP_NAME [(''config_db.json'', json_config cfg)], Pod SONIC_POD_NAME \<mapsto> y)" by blast
  have run: "rebootSystem R H False virtual c' s = (Inr (), t6)"
    unfolding rebootSystem_def using t(1,2) t3(1) t4(1) t5 t6(1) cfg by (simp add: pseq_def pbind_def plift_def)
  have "modules_stored c' (view t6)"
    using t(5) t6(4) t4(2) by (simp add: modules_stored_def CONFIG_DB_def TRANSPORT_CONFIG_DB_def)
  moreover have "pods_up virtual (deployed t6)" using t4(4-6) t6(5) by (auto simp: pods_up_def pod_file_names)
  ultimately have "brought_up virtual c' (view t6) (deployed t6)"
    using cfg x t6(3,5) t4(6) by (auto simp: brought_up_def pod_file_names)
  with run t6(2) show ?thesis by blast
qed

end

lemma stored_connected:
  assumes c: "board_ok c" "validateFinal c = Inr c'" and up: "brought_up virtual c' V D"
    and v: "(k, v) \<in> set (Interface c)" "if_OpticalModuleConnection v = Some cn" "omc_Id cn = Some vid"
  shows "\<exists>opt. OptEthernetName (omc_OpticalModule cn) = Inr opt \<and> is_line_port opt \<and> vlan_connected V vid k opt"
proof -
  note val = validated_interfaces [OF c(2)]
  have "connection_complete v" using val(3) v(1) by blast
  from board_connection [OF c(1) v(1) this v(2,3)] obtain opt where opt: "OptEthernetName (omc_OpticalModule cn) = Inr opt"
      "is_line_port opt" "vlan_id v = Some vid" "vlan_ports k v = [(k, ''untagged''), (opt, ''tagged'')]" by blast
  obtain cfg where cfg: "NewSONiCConfigFromModel c' = Inr cfg" "config_stored V cfg" using up by (auto simp: brought_up_def)
  have u: "ids_unique (Interface c')" "gomap_ok (Interface c')"
    using validated_ids_unique val(1,4) c by (simp_all add: board_ok_def board_interfaces_def)
  have "vlan_holds cfg vid [(k, ''untagged''), (opt, ''tagged'')]"
    using config_vlans [OF u(2,1) cfg(1) _ opt(3), of k] v(1) val(1) opt(4) by simp
  moreover have "opt \<noteq> k" using opt(2) client_not_line_port [OF board_client_name [OF c(1) v(1)]] by blast
  ultimately have "vlan_connected V vid k opt"
    using cfg(2) by (intro vlan_connectedI) (auto simp: config_stored_def)
  with opt show ?thesis by blast
qed

subsection \<open>A node in memory\<close>

text \<open>
  The server in memory beside the cluster in memory; the databases are gone when the redis pod is
  replaced. The log and the index are those of a repository of one file.
\<close>

record mem_node =
  nd_db :: mem_db
  nd_host :: mem_host
  nd_log :: "string list option"
  nd_staged :: "string option"

definition on_db :: "(mem_db, 'a) prog \<Rightarrow> (mem_node, 'a) prog" where
  "on_db p = (\<lambda>s. case p (nd_db s) of (r, d) \<Rightarrow> (r, s\<lparr>nd_db := d\<rparr>))"

definition redis_pod_of :: "mem_host \<Rightarrow> string option" where
  "redis_pod_of h = map_of (mh_deployed h) (Pod REDIS_POD_NAME)"

definition on_host :: "(mem_host, 'a) prog \<Rightarrow> (mem_node, 'a) prog" where
  "on_host p = (\<lambda>s. case p (nd_host s) of (r, h) \<Rightarrow>
     (r, s\<lparr>nd_host := h, nd_db := if redis_pod_of h = redis_pod_of (nd_host s) then nd_db s else []\<rparr>))"

definition node_redis :: "mem_node redis_ops" where
  "node_redis =
     \<lparr>redis_ping = \<lambda>db. on_db (redis_ping mem_redis db),
      redis_hgetall = \<lambda>db h. on_db (redis_hgetall mem_redis db h),
      redis_hmset = \<lambda>db h m. on_db (redis_hmset mem_redis db h m),
      redis_del = \<lambda>db h. on_db (redis_del mem_redis db h),
      redis_hdel = \<lambda>db h f. on_db (redis_hdel mem_redis db h f),
      redis_keys = \<lambda>db p. on_db (redis_keys mem_redis db p),
      redis_publish = \<lambda>db ch m. on_db (redis_publish mem_redis db ch m)\<rparr>"

definition node_cluster :: "mem_node host_ops" where
  "node_cluster =
     \<lparr>ho_git_dir = ho_git_dir mem_cluster,
      ho_stat = (\<lambda>f s. ho_stat mem_cluster f (nd_host s)),
      ho_create = (\<lambda>f. on_host (ho_create mem_cluster f)),
      ho_write = (\<lambda>f x. on_host (ho_write mem_cluster f x)),
      ho_read = (\<lambda>f. on_host (ho_read mem_cluster f)),
      ho_readdir = (\<lambda>d. on_host (ho_readdir mem_cluster d)),
      ho_remove_all = (\<lambda>f. on_host (ho_remove_all mem_cluster f)),
      ho_kubectl = (\<lambda>as. on_host (ho_kubectl mem_cluster as))\<rparr>"

lemma on_db_iff: "on_db p s = (r, t) \<longleftrightarrow> (\<exists>d. p (nd_db s) = (r, d) \<and> t = s\<lparr>nd_db := d\<rparr>)"
  by (auto simp: on_db_def split: prod.splits)

lemma on_host_run: "p (nd_host s) = (r, h) \<Longrightarrow> \<exists>t. on_host p s = (r, t) \<and> nd_host t = h"
  by (auto simp: on_host_def)

lemma on_host_frame:
  assumes "on_host p s = (r, t)"
  shows "map_of (mh_deployed (nd_host t)) (Pod REDIS_POD_NAME) = map_of (mh_deployed (nd_host s)) (Pod REDIS_POD_NAME) \<Longrightarrow> nd_db t = nd_db s"
    and "map_of (mh_deployed (nd_host t)) (Pod REDIS_POD_NAME) \<noteq> map_of (mh_deployed (nd_host s)) (Pod REDIS_POD_NAME) \<Longrightarrow> nd_db t = []"
    and "p (nd_host s) = (r, nd_host t)"
  using assms by (auto simp: on_host_def redis_pod_of_def split: prod.splits if_splits)

lemma on_host_quiet: "on_host p s = (r, t) \<Longrightarrow> mh_deployed (snd (p (nd_host s))) = mh_deployed (nd_host s) \<Longrightarrow> nd_db t = nd_db s"
  by (auto simp: on_host_def redis_pod_of_def split: prod.splits)

lemma on_host_files: "on_host p s = (r, t) \<Longrightarrow> mh_files (nd_host t) = mh_files (snd (p (nd_host s)))"
  by (auto simp: on_host_def split: prod.splits)

lemma mem_kubectl_files: "mh_files (snd (ho_kubectl mem_cluster as h)) = mh_files h"
  by (auto simp: mem_cluster_def mem_kubectl_def Let_def split: list.split option.split)

lemma node_redis_total: "redis_total node_redis (\<lambda>s. mem_view (nd_db s))"
  by unfold_locales (auto simp: node_redis_def on_db_iff mem_redis_simps gget_dedup gomap_ok_dedup mem_view_def [symmetric]
      delete_conv' fun_eq_iff)

lemma node_kubernetes: "kubernetes node_cluster resource_of (\<lambda>s. gget (mh_files (nd_host s))) (\<lambda>s. map_of (mh_deployed (nd_host s)))"
proof
  show "\<And>n rest. one_line n \<Longrightarrow> resource_of (unlines (pod_head n @ rest)) = Some (Pod n)" by (rule resource_of_pod)
  show "\<And>n rest. one_line n \<Longrightarrow> resource_of (unlines ([''apiVersion: v1'', ''kind: ConfigMap''] @ rest @
      [''metadata:'', ''  name: '' @ n])) = Some (ConfigMap n)" by (rule resource_of_map)
  fix f n :: string and x y and s :: mem_node and r
  let ?k = "ho_kubectl node_cluster"
  note defs = node_cluster_def
  show "ho_stat node_cluster f s \<longleftrightarrow> gget (mh_files (nd_host s)) f \<noteq> None" using mk.fstat by (simp add: defs)
  show "\<exists>t. ho_create node_cluster f s = (Inr (), t) \<and> gget (mh_files (nd_host t)) = (gget (mh_files (nd_host s)))(f \<mapsto> []) \<and>
      map_of (mh_deployed (nd_host t)) = map_of (mh_deployed (nd_host s))"
    using mk.fcreate [of f "nd_host s"] on_host_run [of "ho_create mem_cluster f" s] by (fastforce simp: defs)
  show "\<exists>t. ho_write node_cluster f y s = (Inr (), t) \<and> gget (mh_files (nd_host t)) = (gget (mh_files (nd_host s)))(f \<mapsto> x @ y) \<and>
      map_of (mh_deployed (nd_host t)) = map_of (mh_deployed (nd_host s))" if "gget (mh_files (nd_host s)) f = Some x"
    using mk.fwrite [OF that, of y] on_host_run [of "ho_write mem_cluster f y" s] by (fastforce simp: defs)
  show "\<exists>t. ho_read node_cluster f s = (Inr x, t) \<and> gget (mh_files (nd_host t)) = gget (mh_files (nd_host s)) \<and>
      map_of (mh_deployed (nd_host t)) = map_of (mh_deployed (nd_host s))" if "gget (mh_files (nd_host s)) f = Some x"
    using mk.fread [OF that] on_host_run [of "ho_read mem_cluster f" s] by (fastforce simp: defs)
  note kube = on_host_run [of "ho_kubectl mem_cluster as" s for as]
  show "\<exists>r t. ?k [''get'', ''pod'', n] s = (r, t) \<and> gget (mh_files (nd_host t)) = gget (mh_files (nd_host s)) \<and>
      map_of (mh_deployed (nd_host t)) = map_of (mh_deployed (nd_host s)) \<and> \<not> aborts r \<and>
      (map_of (mh_deployed (nd_host s)) (Pod n) \<noteq> None \<longleftrightarrow> (\<exists>x. r = Inr x))"
    using mk.get_pod [of n "nd_host s"] kube [of "[''get'', ''pod'', n]"] by (simp add: defs) metis
  show "\<exists>r t. ?k [''get'', ''cm'', n] s = (r, t) \<and> gget (mh_files (nd_host t)) = gget (mh_files (nd_host s)) \<and>
      map_of (mh_deployed (nd_host t)) = map_of (mh_deployed (nd_host s)) \<and> \<not> aborts r \<and>
      (map_of (mh_deployed (nd_host s)) (ConfigMap n) \<noteq> None \<longleftrightarrow> (\<exists>x. r = Inr x))"
    using mk.get_cm [of n "nd_host s"] kube [of "[''get'', ''cm'', n]"] by (simp add: defs) metis
  show "\<exists>x t. ?k [''delete'', ''pod'', n, ''--grace-period=0'', ''--force''] s = (Inr x, t) \<and>
      gget (mh_files (nd_host t)) = gget (mh_files (nd_host s)) \<and>
      map_of (mh_deployed (nd_host t)) = (map_of (mh_deployed (nd_host s)))(Pod n := None)"
    if "map_of (mh_deployed (nd_host s)) (Pod n) \<noteq> None"
    using mk.undeploy [OF that] kube [of "[''delete'', ''pod'', n, ''--grace-period=0'', ''--force'']"] by (simp add: defs) metis
  show "\<exists>y t. ?k [''create'', ''-f'', f] s = (Inr y, t) \<and> gget (mh_files (nd_host t)) = gget (mh_files (nd_host s)) \<and>
      map_of (mh_deployed (nd_host t)) = (map_of (mh_deployed (nd_host s)))(r \<mapsto> x)"
    if "gget (mh_files (nd_host s)) f = Some x" "resource_of x = Some r" "map_of (mh_deployed (nd_host s)) r = None"
    using mk.deploy [OF that] kube [of "[''create'', ''-f'', f]"] by (simp add: defs) metis
  show "\<exists>y t. ?k [''replace'', ''-f'', f] s = (Inr y, t) \<and> gget (mh_files (nd_host t)) = gget (mh_files (nd_host s)) \<and>
      map_of (mh_deployed (nd_host t)) = (map_of (mh_deployed (nd_host s)))(r \<mapsto> x)"
    if "gget (mh_files (nd_host s)) f = Some x" "resource_of x = Some r" "map_of (mh_deployed (nd_host s)) r \<noteq> None"
    using mk.redeploy [OF that] kube [of "[''replace'', ''-f'', f]"] by (simp add: defs) metis
qed

interpretation mn: node node_redis "\<lambda>s. mem_view (nd_db s)" node_cluster resource_of "\<lambda>s. gget (mh_files (nd_host s))"
    "\<lambda>s. map_of (mh_deployed (nd_host s))"
proof (intro node.intro node_redis_total node_kubernetes node_axioms.intro)
  let ?host = "\<lambda>s :: mem_node. (gget (mh_files (nd_host s)), map_of (mh_deployed (nd_host s)))"
  note defs = node_redis_def on_db_iff keeps_def
  fix f f' x as m db h and s t :: mem_node and r :: "unit res" and q' :: "string res"
  show "keeps ?host (redis_ping node_redis db)" by (auto simp: defs)
  show "keeps ?host (redis_hgetall node_redis db h)" by (auto simp: defs)
  show "keeps ?host (redis_hmset node_redis db h m)" by (auto simp: defs)
  show "keeps ?host (redis_del node_redis db h)" by (auto simp: defs)
  show "keeps ?host (redis_hdel node_redis db h f)" by (auto simp: defs)
  show "keeps (\<lambda>s. mem_view (nd_db s)) (ho_create node_cluster f)"
    unfolding keeps_def using on_host_quiet [of "ho_create mem_cluster f"] by (simp add: node_cluster_def mem_cluster_def)
  show "keeps (\<lambda>s. mem_view (nd_db s)) (ho_write node_cluster f x)"
    unfolding keeps_def using on_host_quiet [of "ho_write mem_cluster f x"] by (simp add: node_cluster_def mem_cluster_def)
  show "keeps (\<lambda>s. mem_view (nd_db s)) (ho_read node_cluster f)"
    unfolding keeps_def using on_host_quiet [of "ho_read mem_cluster f"] by (simp add: node_cluster_def mem_cluster_def)
  show "keeps (\<lambda>s. gget (mh_files (nd_host s)) f') (ho_write node_cluster f x)" if "f' \<noteq> f"
    unfolding keeps_def using on_host_files [of "ho_write mem_cluster f x"] that by (simp add: node_cluster_def mem_cluster_def)
  show "keeps (\<lambda>s. gget (mh_files (nd_host s))) (ho_kubectl node_cluster as)"
    unfolding keeps_def using on_host_files [of "ho_kubectl mem_cluster as"] by (simp add: node_cluster_def mem_kubectl_files)
  note frame = on_host_frame [of _ s _ t]
  show "ho_kubectl node_cluster as s = (q', t) \<Longrightarrow>
      map_of (mh_deployed (nd_host t)) (Pod REDIS_POD_NAME) = map_of (mh_deployed (nd_host s)) (Pod REDIS_POD_NAME) \<Longrightarrow>
      mem_view (nd_db t) = mem_view (nd_db s)"
    using frame(1) [of "ho_kubectl mem_cluster as" q'] by (simp add: node_cluster_def)
  show "ho_kubectl node_cluster as s = (q', t) \<Longrightarrow> map_of (mh_deployed (nd_host s)) (Pod REDIS_POD_NAME) = None \<Longrightarrow>
      map_of (mh_deployed (nd_host t)) (Pod REDIS_POD_NAME) \<noteq> None \<Longrightarrow> mem_view (nd_db t) = (\<lambda>db h. Map.empty)"
    using frame(2) [of "ho_kubectl mem_cluster as" q'] by (simp add: node_cluster_def fun_eq_iff)
qed

text \<open>
  C1: a reboot brings the system up. On a node whose server and host carry out their commands, and whose pod files, if they are there,
  declare their pods, rebooting with a configuration that the command line can reach and validation accepts succeeds from every
  state: the modules and the SONiC tables are in the databases, the config maps hold the computed configurations, the pods run, and
  every connection has its VLAN between the interface and the line port of its module.
\<close>

theorem reboot_brings_up:
  assumes N: "node R view H declares files deployed"
    and c: "cli_reachable c" "validateFinal c = Inr c'"
    and pods: "\<forall>(file, n) \<in> {(REDIS_K8S_POD_CONFIG_NAME, REDIS_POD_NAME), (TRANSYNCD_K8S_POD_CONFIG_NAME, TRANSYNCD_POD_NAME),
        (OFDPA_K8S_POD_CONFIG_NAME, OFDPA_POD_NAME), (SONIC_K8S_POD_CONFIG_NAME, SONIC_POD_NAME)}.
      \<forall>x. files s (in_git_dir H file) = Some x \<longrightarrow> declares x = Some (Pod n)"
  shows "\<exists>t. rebootSystem R H False virtual c' s = (Inr (), t) \<and> brought_up virtual c' (view t) (deployed t) \<and>
    (\<forall>k v cn vid. (k, v) \<in> set (Interface c) \<longrightarrow> if_OpticalModuleConnection v = Some cn \<longrightarrow> omc_Id cn = Some vid \<longrightarrow>
       (\<exists>opt. OptEthernetName (omc_OpticalModule cn) = Inr opt \<and> is_line_port opt \<and> vlan_connected (view t) vid k opt))"
proof -
  note b = reachable_board [OF c(1)]
  have "node.pod_files_ok H declares files s"
    using pods by (simp add: node.pod_files_ok_def [OF N] kubernetes.file_declares_def [OF node.axioms(2) [OF N]])
  from node.reboot_run [OF N b c(2) this] obtain t where t: "rebootSystem R H False virtual c' s = (Inr (), t)"
      "brought_up virtual c' (view t) (deployed t)" by blast
  with stored_connected [OF b c(2) t(2)] show ?thesis by blast
qed

definition fresh_node :: mem_node where
  "fresh_node = \<lparr>nd_db = [], nd_host = \<lparr>mh_files = [], mh_deployed = []\<rparr>, nd_log = None, nd_staged = None\<rparr>"

lemma reboot_brings_up_witness:
  "\<exists>c t. validateFinal (default_board [1..<17] [1..<9]) = Inr c \<and>
     rebootSystem node_redis node_cluster False False c fresh_node = (Inr (), t) \<and>
     map_of (mh_deployed (nd_host t)) (Pod ''ofdpa'') \<noteq> None"
proof -
  have c: "cli_reachable (default_board [1..<17] [1..<9])" by (rule cli_reachable.initial, rule default_configuration)
  obtain c' where c': "validateFinal (default_board [1..<17] [1..<9]) = Inr c'" using default_validates by blast
  from reboot_brings_up [OF mn.node_axioms c c', of fresh_node False] c' show ?thesis
    by (auto simp: fresh_node_def brought_up_def pods_up_def OFDPA_POD_NAME_def)
qed

end
