(* ===== verification/Lifecycle.thy ===== *)
theory Lifecycle
  imports Node
begin

section \<open>The life of a configuration: init, commit and rollback\<close>

text \<open>
  The commands that keep the configurations in the repository and bring the node in line with them. What the
  controller relies on of go-git is the interface \<open>controller\<close>: the log is the list of commits from the head
  back, \<open>Add\<close> stages the configuration file, \<open>Commit\<close> puts a commit with the staged content or, with
  \<open>All\<close>, the content of the working tree on top of the log, and a commit keeps its content. The repository lives
  in a directory below the git directory (\<open>.git\<close>): its operations leave the files beside it, the
  databases and the deployed resources alone, and nobody else touches the log.
\<close>

subsection \<open>The interface\<close>

definition surface ::
    "'s redis_view \<Rightarrow> 's host_ops \<Rightarrow> ('s \<Rightarrow> string \<rightharpoonup> string) \<Rightarrow> ('s \<Rightarrow> resource \<rightharpoonup> string) \<Rightarrow> 's \<Rightarrow>
     (int \<Rightarrow> string \<Rightarrow> string \<rightharpoonup> string) \<times> (resource \<rightharpoonup> string) \<times> (string \<rightharpoonup> string)" where
  "surface view H files deployed s =
     (view s, deployed s, \<lambda>n. if CHR ''/'' \<in> set n then None else files s (in_git_dir H n))"

lemma pwrap_Inr: "pwrap f p s = (Inr x, t) \<longleftrightarrow> p s = (Inr x, t)"
  by (auto simp: pwrap_def wrap_err_def split: prod.splits sum.splits if_splits)

locale controller = node R view H declares files deployed
  for R :: "'s redis_ops" and view :: "'s redis_view" and H :: "'s host_ops"
    and declares :: "string \<Rightarrow> resource option" and files :: "'s \<Rightarrow> string \<rightharpoonup> string"
    and deployed :: "'s \<Rightarrow> resource \<rightharpoonup> string" +
  fixes G :: "('s, 'c) git_ops" and hist :: "'s \<Rightarrow> 'c list option" and staged :: "'s \<Rightarrow> string option" and content :: "'c \<Rightarrow> string"
  assumes git_surface: "keeps (surface view H files deployed) (git_init G d)" "keeps (surface view H files deployed) (git_open G d)"
      "keeps (surface view H files deployed) (git_worktree G)" "keeps (surface view H files deployed) (git_add G f)"
      "keeps (surface view H files deployed) (git_commit G m b)" "keeps (surface view H files deployed) (git_log G)"
      "keeps (surface view H files deployed) (git_file G c f)"
    and redis_log: "keeps (\<lambda>s. (hist s, staged s)) (redis_ping R db)" "keeps (\<lambda>s. (hist s, staged s)) (redis_hgetall R db h)"
      "keeps (\<lambda>s. (hist s, staged s)) (redis_hmset R db h fs)" "keeps (\<lambda>s. (hist s, staged s)) (redis_del R db h)"
      "keeps (\<lambda>s. (hist s, staged s)) (redis_hdel R db h f)"
    and host_log: "keeps (\<lambda>s. (hist s, staged s)) (ho_create H f)" "keeps (\<lambda>s. (hist s, staged s)) (ho_write H f x)"
      "keeps (\<lambda>s. (hist s, staged s)) (ho_read H f)" "keeps (\<lambda>s. (hist s, staged s)) (ho_kubectl H as)"
    and init: "hist s = None \<Longrightarrow> \<exists>t. git_init G (ho_git_dir H) s = (Inr (), t) \<and> hist t = Some []"
    and opened: "hist s = Some cs \<Longrightarrow> \<exists>t. git_open G (ho_git_dir H) s = (Inr (), t) \<and> hist t = Some cs"
    and worktree: "hist s = Some cs \<Longrightarrow> \<exists>t. git_worktree G s = (Inr (), t) \<and> hist t = Some cs"
    and add: "hist s = Some cs \<Longrightarrow> files s (in_git_dir H CONFIG_FILE) = Some x \<Longrightarrow>
      \<exists>t. git_add G CONFIG_FILE s = (Inr (), t) \<and> hist t = Some cs \<and> staged t = Some x"
    and commit_staged: "hist s = Some cs \<Longrightarrow> staged s = Some x \<Longrightarrow>
      \<exists>c t. git_commit G m False s = (Inr (), t) \<and> hist t = Some (c # cs) \<and> content c = x"
    and commit_all: "hist s = Some cs \<Longrightarrow> cs \<noteq> [] \<Longrightarrow> files s (in_git_dir H CONFIG_FILE) = Some x \<Longrightarrow>
      \<exists>c t. git_commit G m True s = (Inr (), t) \<and> hist t = Some (c # cs) \<and> content c = x"
    and git_logged: "hist s = Some cs \<Longrightarrow> cs \<noteq> [] \<Longrightarrow> \<exists>t. git_log G s = (Inr cs, t) \<and> hist t = Some cs"
    and stored: "hist s = Some cs \<Longrightarrow> c \<in> set cs \<Longrightarrow> \<exists>t. git_file G c CONFIG_FILE s = (Inr (content c), t) \<and> hist t = Some cs"
begin

subsection \<open>What the steps keep\<close>

lemma surface_file:
  assumes "surface view H files deployed t = surface view H files deployed s"
  shows "view t = view s" "deployed t = deployed s" "CHR ''/'' \<notin> set n \<Longrightarrow> files t (in_git_dir H n) = files s (in_git_dir H n)"
  using assms by (auto simp: surface_def dest: fun_cong [of _ _ n])

text \<open>The state as the commands see it: the databases, the resources, the configuration file and the pod files.\<close>

definition sees :: "'s \<Rightarrow> 's \<Rightarrow> bool" where
  "sees s t \<longleftrightarrow> deployed t = deployed s \<and> files t (in_git_dir H CONFIG_FILE) = files s (in_git_dir H CONFIG_FILE) \<and>
     (pod_files_ok s \<longrightarrow> pod_files_ok t)"

lemma surface_sees: "surface view H files deployed t = surface view H files deployed s \<Longrightarrow> sees s t"
  using surface_file [of t s] by (simp add: sees_def pod_files_ok_def file_declares_def pod_file_names)

lemma sees_trans: "sees s t \<Longrightarrow> sees t u \<Longrightarrow> sees s u"
  by (simp add: sees_def)

lemma git_sees: "keeps (surface view H files deployed) p \<Longrightarrow> p s = (r, t) \<Longrightarrow> sees s t"
  using surface_sees keepsD by metis

text \<open>A repository with the log \<open>cs\<close>, the configuration file \<open>x\<close> and sound pod files.\<close>

definition repo :: "'s \<Rightarrow> 'c list \<Rightarrow> string \<Rightarrow> bool" where
  "repo s cs x \<longleftrightarrow> hist s = Some cs \<and> files s (in_git_dir H CONFIG_FILE) = Some x \<and> pod_files_ok s"

lemma repo_sees: "repo s cs x \<Longrightarrow> sees s t \<Longrightarrow> hist t = Some cs' \<Longrightarrow> repo t cs' x"
  by (simp add: repo_def sees_def)

lemma repo_open: "repo s cs x \<Longrightarrow> \<exists>t. git_open G (ho_git_dir H) s = (Inr (), t) \<and> repo t cs x"
  using opened [of s cs] git_sees [OF git_surface(2)] repo_sees [of s cs x] by (metis repo_def)

lemma repo_worktree: "repo s cs x \<Longrightarrow> \<exists>t. git_worktree G s = (Inr (), t) \<and> repo t cs x"
  using worktree [of s cs] git_sees [OF git_surface(3)] repo_sees [of s cs x] by (metis repo_def)

lemma repo_log: "repo s cs x \<Longrightarrow> cs \<noteq> [] \<Longrightarrow> \<exists>t. git_log G s = (Inr cs, t) \<and> repo t cs x"
  using git_logged [of s cs] git_sees [OF git_surface(6)] repo_sees [of s cs x] by (metis repo_def)

lemma repo_stored: "repo s cs x \<Longrightarrow> c \<in> set cs \<Longrightarrow> \<exists>t. git_file G c CONFIG_FILE s = (Inr (content c), t) \<and> repo t cs x"
  using stored [of s cs c] git_sees [OF git_surface(7)] repo_sees [of s cs x] by (metis repo_def)

lemma repo_commit: "repo s cs x \<Longrightarrow> cs \<noteq> [] \<Longrightarrow>
    \<exists>c t. git_commit G m True s = (Inr (), t) \<and> repo t (c # cs) x \<and> content c = x"
  using commit_all [of s cs x m] git_sees [OF git_surface(5)] repo_sees [of s cs x] by (metis repo_def)

lemma repo_first_commit:
  assumes "repo s [] x"
  shows "\<exists>t u c. git_add G CONFIG_FILE s = (Inr (), t) \<and> git_commit G m False t = (Inr (), u) \<and> repo u [c] x \<and> content c = x"
proof -
  obtain t where t: "git_add G CONFIG_FILE s = (Inr (), t)" "hist t = Some []" "staged t = Some x"
    using add [of s "[]" x] assms by (auto simp: repo_def)
  have "repo t [] x" using repo_sees [OF assms git_sees [OF git_surface(4) t(1)] t(2)] .
  moreover obtain c u where u: "git_commit G m False t = (Inr (), u)" "hist u = Some [c]" "content c = x"
    using commit_staged [OF t(2,3)] by blast
  ultimately have "repo u [c] x" using repo_sees git_sees [OF git_surface(5) u(1)] by blast
  with t(1) u show ?thesis by blast
qed

lemma repo_init:
  assumes "hist s = None" "pod_files_ok s"
  shows "\<exists>t. git_init G (ho_git_dir H) s = (Inr (), t) \<and> hist t = Some [] \<and> pod_files_ok t"
  using init [OF assms(1)] git_sees [OF git_surface(1)] assms(2) by (metis sees_def)

lemma keeps_log: "keeps (\<lambda>s. (hist s, staged s)) p \<Longrightarrow> p s = (r, t) \<Longrightarrow> hist t = hist s"
  using keepsD by fastforce

lemma repo_load:
  assumes "repo s cs x" "cd_Unmarshal C x = Inr c"
  shows "\<exists>t. persistentPreRunE H C s = (Inr c, t) \<and> repo t cs x"
proof -
  obtain t where t: "ho_read H (in_git_dir H CONFIG_FILE) s = (Inr x, t)" "files t = files s" "deployed t = deployed s"
    using fread [of s "in_git_dir H CONFIG_FILE" x] assms(1) by (auto simp: repo_def)
  have "persistentPreRunE H C s = (Inr c, t)"
    using t(1) assms(2) by (simp add: persistentPreRunE_def pwrap_def wrap_err_def pbind_def plift_def)
  moreover have "repo t cs x" using keeps_log [OF host_log(3) t(1)] assms(1) t(2) by (simp add: repo_def pod_files_ok_def file_declares_def)
  ultimately show ?thesis by blast
qed

lemma repo_save:
  assumes "hist s = Some cs" "pod_files_ok s"
  shows "\<exists>t u. ho_create H (in_git_dir H CONFIG_FILE) s = (Inr (), t) \<and>
    write_line H (in_git_dir H CONFIG_FILE) x t = (Inr (), u) \<and> repo u cs (x @ [newline])"
proof -
  let ?f = "in_git_dir H CONFIG_FILE"
  obtain t where t: "ho_create H ?f s = (Inr (), t)" using fcreate by blast
  obtain u where u: "pseq (pwrap ''%v'' (ho_create H ?f)) (write_line H ?f x) s = (Inr (), u)"
      "files u = (files s)(?f \<mapsto> x @ [newline])" using save_file by blast
  have w: "write_line H ?f x t = (Inr (), u)" using u(1) t by (simp add: pseq_def pbind_def pwrap_def wrap_err_def)
  have "keeps (\<lambda>s. (hist s, staged s)) (write_line H ?f x)" unfolding write_line_def by (intro still host_log)
  with w have "hist u = hist t" by (metis keeps_log)
  moreover have "hist t = hist s" using keeps_log [OF host_log(1) t] .
  moreover have "pod_files_ok u" using assms(2) u(2) by (simp add: pod_files_ok_def file_declares_def pod_file_names)
  ultimately show ?thesis using t w u(2) assms(1) by (auto simp: repo_def)
qed

lemma repo_reboot:
  assumes c: "board_ok c" "validateFinal c = Inr c'" and s: "repo s cs x"
  shows "\<exists>t. rebootSystem R H False virtual c' s = (Inr (), t) \<and> brought_up virtual c' (view t) (deployed t) \<and> repo t cs x"
proof -
  from s have "pod_files_ok s" by (simp add: repo_def)
  from reboot_run [OF c this] obtain t where t: "rebootSystem R H False virtual c' s = (Inr (), t)"
    "brought_up virtual c' (view t) (deployed t)" "pod_files_ok t" by blast
  have "keeps (\<lambda>s. (hist s, staged s)) (rebootSystem R H False virtual c')"
    by (rule still_rebootSystem) (rule redis_log host_log)+
  from keeps_log [OF this t(1)] keepsD [OF reboot_config_file t(1)] t s show ?thesis by (auto simp: repo_def)
qed

text \<open>An environment of the commands whose parts are this controller.\<close>

definition runs_here :: "('s, 'c) env \<Rightarrow> bool" where
  "runs_here E \<longleftrightarrow> en_redis E = R \<and> en_host E = H \<and> en_git E = G \<and> \<not> en_dry E"

lemma reboot_with_here: "runs_here E \<Longrightarrow> reboot_with E = rebootSystem R H False (en_virtual E)"
  by (simp add: reboot_with_def runs_here_def)

lemma initConfig_run:
  assumes E: "runs_here E" and s: "hist s = None" "pod_files_ok s"
    and c: "defaultConfiguration = Inr c" "cd_EmitJSON (en_codec E) (TransponderS c) = Inr j"
  shows "\<exists>t ch. initConfig E False s = (Inr (), t) \<and> repo t [ch] (j @ [newline]) \<and> content ch = j @ [newline]"
proof -
  have en: "en_host E = H" "en_git E = G" using E by (simp_all add: runs_here_def)
  obtain s1 where s1: "git_init G (ho_git_dir H) s = (Inr (), s1)" "hist s1 = Some []" "pod_files_ok s1"
    using repo_init [OF s] by blast
  obtain s2 s3 where s3: "ho_create H (in_git_dir H CONFIG_FILE) s1 = (Inr (), s2)"
      "write_line H (in_git_dir H CONFIG_FILE) j s2 = (Inr (), s3)" "repo s3 [] (j @ [newline])"
    using repo_save [OF s1(2,3)] by blast
  obtain s4 where s4: "git_worktree G s3 = (Inr (), s4)" "repo s4 [] (j @ [newline])" using repo_worktree [OF s3(3)] by blast
  obtain s5 s6 ch where s6: "git_add G CONFIG_FILE s4 = (Inr (), s5)" "git_commit G ''initial commit'' False s5 = (Inr (), s6)"
      "repo s6 [ch] (j @ [newline])" "content ch = j @ [newline]" using repo_first_commit [OF s4(2)] by blast
  have "init_repo E False s = (Inr (), s1)" using s1(1) by (simp add: init_repo_def en Let_def pbind_def ptry_def pret_def)
  then have "initConfig E False s = (Inr (), s6)"
    using s3 s4 s6 c by (simp add: initConfig_def en Let_def prog_Inr pwrap_Inr) blast
  with s6 show ?thesis by blast
qed

lemma init_run:
  assumes E: "runs_here E" and s: "hist s = None" "pod_files_ok s"
    and c: "defaultConfiguration = Inr c" "cd_EmitJSON (en_codec E) (TransponderS c) = Inr j"
    and read: "cd_Unmarshal (en_codec E) (j @ [newline]) = Inr c" and valid: "validateFinal c = Inr c'"
  shows "\<exists>t ch. init_cmd E False s = (Inr (), t) \<and> brought_up (en_virtual E) c' (view t) (deployed t) \<and>
    repo t [ch] (j @ [newline]) \<and> content ch = j @ [newline]"
proof -
  have en: "en_host E = H" using E by (simp add: runs_here_def)
  obtain s1 ch where s1: "initConfig E False s = (Inr (), s1)" "repo s1 [ch] (j @ [newline])" "content ch = j @ [newline]"
    using initConfig_run [OF E s c] by blast
  obtain s2 where s2: "persistentPreRunE H (en_codec E) s1 = (Inr c, s2)" "repo s2 [ch] (j @ [newline])"
    using repo_load [OF s1(2) read] by blast
  have "board_ok c" using reachable_board [OF cli_reachable.initial [OF c(1)]] .
  from repo_reboot [OF this valid s2(2), of "en_virtual E"] s1 s2(1) valid show ?thesis
    by (simp add: init_cmd_def en prog_Inr reboot_with_here [OF E]) blast
qed

lemma getPacketTransport_run:
  assumes "runs_here E" "repo s cs x" "c \<in> set cs" "cd_Unmarshal (en_codec E) (content c) = Inr t"
  shows "\<exists>u. getPacketTransport E c s = (Inr t, u) \<and> repo u cs x"
  using repo_stored [OF assms(2,3)] assms(1,4) by (auto simp: getPacketTransport_def runs_here_def pbind_def plift_def)

text \<open>A commit that reboots: the working tree becomes the head, and the node is brought up with \<open>current\<close>.\<close>

lemma commit_run:
  assumes E: "runs_here E" and s: "repo s (c0 # cs) x" and c: "board_ok c" "validateFinal c = Inr c'"
    and read: "cd_Unmarshal (en_codec E) x = Inr t0" "cd_Unmarshal (en_codec E) (content c0) = Inr t1"
  shows "\<exists>t ch. commit E msg True c s = (Inr (), t) \<and> brought_up (en_virtual E) c' (view t) (deployed t) \<and>
    repo t (ch # c0 # cs) x \<and> content ch = x"
proof -
  have en: "en_host E = H" "en_git E = G" "\<not> en_dry E" using E by (simp_all add: runs_here_def)
  obtain s1 where s1: "git_open G (ho_git_dir H) s = (Inr (), s1)" "repo s1 (c0 # cs) x" using repo_open [OF s] by blast
  obtain s2 where s2: "git_worktree G s1 = (Inr (), s2)" "repo s2 (c0 # cs) x" using repo_worktree [OF s1(2)] by blast
  let ?m = "if msg = [] then en_now E else msg"
  obtain s3 ch where s3: "git_commit G ?m True s2 = (Inr (), s3)" "repo s3 (ch # c0 # cs) x" "content ch = x"
    using repo_commit [OF s2(2)] by blast
  obtain s4 where s4: "git_log G s3 = (Inr (ch # c0 # cs), s4)" "repo s4 (ch # c0 # cs) x" using repo_log [OF s3(2)] by blast
  obtain s5 where s5: "getPacketTransport E ch s4 = (Inr t0, s5)" "repo s5 (ch # c0 # cs) x"
    using getPacketTransport_run [OF E s4(2)] s3(3) read(1) by force
  obtain s6 where s6: "getPacketTransport E c0 s5 = (Inr t1, s6)" "repo s6 (ch # c0 # cs) x"
    using getPacketTransport_run [OF E s5(2) _ read(2)] by force
  obtain t where t: "rebootSystem R H False (en_virtual E) c' s6 = (Inr (), t)" "brought_up (en_virtual E) c' (view t) (deployed t)"
      "repo t (ch # c0 # cs) x"
    using repo_reboot [OF c s6(2), of "en_virtual E"] by blast
  have "commit E msg True c s = (Inr (), t)"
    using s1(1) s2(1) s3(1) s4(1) s5(1) s6(1) t(1) c(2) en(3)
    by (simp add: commit_def en(1,2) Let_def prog_Inr nth_commit_def reboot_with_here [OF E])
  with t s3(3) show ?thesis by blast
qed

lemma rollback_run:
  assumes E: "runs_here E" and s: "hist s = Some (c0 # cs)" "pod_files_ok s" "files s (in_git_dir H CONFIG_FILE) = Some y"
    and n: "n < length cs" "cd_Unmarshal (en_codec E) (content (cs ! n)) = Inr c"
    and c: "board_ok c" "validateFinal c = Inr c'" "cd_EmitJSON (en_codec E) (TransponderS c) = Inr j"
    and read: "cd_Unmarshal (en_codec E) (j @ [newline]) = Inr t0" "cd_Unmarshal (en_codec E) (content c0) = Inr t1"
  shows "\<exists>t ch. rollback_cmd E (int n) msg True [] s = (Inr (), t) \<and> brought_up (en_virtual E) c' (view t) (deployed t) \<and>
    repo t (ch # c0 # cs) (j @ [newline]) \<and> content ch = j @ [newline]"
proof -
  have en: "en_host E = H" "en_git E = G" using E by (simp_all add: runs_here_def)
  have s0: "repo s (c0 # cs) y" using s by (simp add: repo_def)
  obtain s1 where s1: "git_open G (ho_git_dir H) s = (Inr (), s1)" "repo s1 (c0 # cs) y" using repo_open [OF s0] by blast
  obtain s2 where s2: "git_log G s1 = (Inr (c0 # cs), s2)" "repo s2 (c0 # cs) y" using repo_log [OF s1(2)] by blast
  have "cs ! n \<in> set (c0 # cs)" using n(1) by simp
  from getPacketTransport_run [OF E s2(2) this n(2)] obtain s3 where
    s3: "getPacketTransport E (cs ! n) s2 = (Inr c, s3)" "repo s3 (c0 # cs) y" by blast
  then have l3: "hist s3 = Some (c0 # cs)" "pod_files_ok s3" by (simp_all add: repo_def)
  obtain s4 s5 where s5: "ho_create H (in_git_dir H CONFIG_FILE) s3 = (Inr (), s4)"
      "write_line H (in_git_dir H CONFIG_FILE) j s4 = (Inr (), s5)" "repo s5 (c0 # cs) (j @ [newline])"
    using repo_save [OF l3] by blast
  have save: "persistentPostRunE H (en_codec E) c s3 = (Inr (), s5)"
    using s5(1,2) c(3) by (simp add: persistentPostRunE_def pbind_def pseq_def plift_def pwrap_def wrap_err_def)
  have "rollback_target (c0 # cs) (int n) = Inr (cs ! n)"
    using n(1) by (simp add: rollback_target_def nth_commit_def nat_add_distrib)
  then have run: "rollback_cmd E (int n) msg True [] s = (Inr (), t)"
    if "commit E (if msg = [] then ''rollback('' @ itoa (int n) @ '') '' @ en_now E else msg) True c s5 = (Inr (), t)" for t
    using s1(1) s2(1) s3(1) save that by (simp add: rollback_cmd_def no_args_def en prog_Inr)
  with commit_run [OF E s5(3) c(1,2) read] show ?thesis by blast
qed

lemma load_keeps:
  assumes "files s (in_git_dir H CONFIG_FILE) = Some x"
  shows "\<exists>t. persistentPreRunE H C s = (cd_Unmarshal C x, t) \<and> files t = files s \<and> deployed t = deployed s \<and> view t = view s \<and> hist t = hist s"
proof -
  obtain t where t: "ho_read H (in_git_dir H CONFIG_FILE) s = (Inr x, t)" "files t = files s" "deployed t = deployed s"
    using fread [OF assms] by blast
  then have "persistentPreRunE H C s = (cd_Unmarshal C x, t)"
    by (simp add: persistentPreRunE_def pwrap_def wrap_err_def pbind_def plift_def)
  with t keeps_log [OF host_log(3) t(1)] keepsD [OF host_view(3) t(1)] show ?thesis by blast
qed

end

subsection \<open>A repository in memory\<close>

text \<open>A commit is the content of its file.\<close>

definition no_repository :: "'a res" where
  "no_repository = Inl (Ext ''repository does not exist'')"

definition mem_git :: "(mem_node, string) git_ops" where
  "mem_git =
     \<lparr>git_init = (\<lambda>d s. case nd_log s of None \<Rightarrow> (Inr (), s\<lparr>nd_log := Some []\<rparr>) | Some cs \<Rightarrow> (Inl (Ext ''repository already exists''), s)),
      git_open = (\<lambda>d s. (case nd_log s of None \<Rightarrow> no_repository | Some cs \<Rightarrow> Inr (), s)),
      git_worktree = (\<lambda>s. (case nd_log s of None \<Rightarrow> no_repository | Some cs \<Rightarrow> Inr (), s)),
      git_add = (\<lambda>f s. case gget (mh_files (nd_host s)) (in_git_dir node_cluster f) of
         None \<Rightarrow> (Inl (Ext ''entry not found''), s) | Some x \<Rightarrow> (Inr (), s\<lparr>nd_staged := Some x\<rparr>)),
      git_commit = (\<lambda>m whole s.
         case (nd_log s, if whole then gget (mh_files (nd_host s)) (in_git_dir node_cluster CONFIG_FILE) else nd_staged s) of
           (Some cs, Some x) \<Rightarrow> (Inr (), s\<lparr>nd_log := Some (x # cs)\<rparr>) | _ \<Rightarrow> (no_repository, s)),
      git_log = (\<lambda>s. (case nd_log s of None \<Rightarrow> no_repository | Some cs \<Rightarrow> if cs = [] then Inl (Ext ''reference not found'') else Inr cs, s)),
      git_file = (\<lambda>c f s. (Inr c, s))\<rparr>"

lemma mem_node_log:
  "on_db p s = (r, t) \<Longrightarrow> nd_log t = nd_log s" "on_db p s = (r, t) \<Longrightarrow> nd_staged t = nd_staged s"
  "on_host q s = (r', t) \<Longrightarrow> nd_log t = nd_log s" "on_host q s = (r', t) \<Longrightarrow> nd_staged t = nd_staged s"
  by (auto simp: on_db_def on_host_def split: prod.splits)

interpretation mc: controller node_redis "\<lambda>s. mem_view (nd_db s)" node_cluster resource_of "\<lambda>s. gget (mh_files (nd_host s))"
    "\<lambda>s. map_of (mh_deployed (nd_host s))" mem_git nd_log nd_staged "\<lambda>c. c"
  by (intro controller.intro mn.node_axioms, unfold_locales)
    (auto simp: keeps_def surface_def mem_git_def no_repository_def split: option.splits if_splits prod.splits
      simp: node_redis_def node_cluster_def mem_node_log)

subsection \<open>Properties of init and rollback\<close>

abbreviation pod_files_sound ::
    "'s host_ops \<Rightarrow> (string \<Rightarrow> resource option) \<Rightarrow> ('s \<Rightarrow> string \<rightharpoonup> string) \<Rightarrow> 's \<Rightarrow> bool" where
  "pod_files_sound H declares files s \<equiv>
     (\<forall>(file, n) \<in> {(REDIS_K8S_POD_CONFIG_NAME, REDIS_POD_NAME), (TRANSYNCD_K8S_POD_CONFIG_NAME, TRANSYNCD_POD_NAME),
        (OFDPA_K8S_POD_CONFIG_NAME, OFDPA_POD_NAME), (SONIC_K8S_POD_CONFIG_NAME, SONIC_POD_NAME)}.
      \<forall>x. files s (in_git_dir H file) = Some x \<longrightarrow> declares x = Some (Pod n))"

lemma pod_files_sound_ok: "node R view H declares files deployed \<Longrightarrow> pod_files_sound H declares files s \<Longrightarrow> node.pod_files_ok H declares files s"
  by (simp add: node.pod_files_ok_def kubernetes.file_declares_def [OF node.axioms(2)])

text \<open>
  C4: \<open>init\<close> brings a bare machine up. Where there is no repository, and encoding the default configuration
  and decoding the file gives it back, \<open>init\<close> succeeds: the default configuration is the
  file, the only commit and what the node runs.
\<close>

theorem init_brings_up:
  assumes K: "controller (en_redis E) view (en_host E) declares files deployed (en_git E) hist staged content" and dry: "\<not> en_dry E"
    and s: "hist s = None" "pod_files_sound (en_host E) declares files s"
    and codec: "defaultConfiguration = Inr c" "cd_EmitJSON (en_codec E) (TransponderS c) = Inr j"
      "cd_Unmarshal (en_codec E) (j @ [newline]) = Inr c"
  shows "\<exists>c' t ch. init_cmd E False s = (Inr (), t) \<and> validateFinal c = Inr c' \<and>
    brought_up (en_virtual E) c' (view t) (deployed t) \<and> hist t = Some [ch] \<and> content ch = j @ [newline] \<and>
    files t (in_git_dir (en_host E) CONFIG_FILE) = Some (j @ [newline])"
proof -
  have "c = default_board [1..<17] [1..<9]" using codec(1) default_configuration by (metis sum.inject(2))
  then obtain c' where c': "validateFinal c = Inr c'" using default_validates by blast
  have "controller.runs_here (en_redis E) (en_host E) (en_git E) E" using dry by (simp add: controller.runs_here_def [OF K])
  from controller.init_run [OF K this s(1) pod_files_sound_ok [OF controller.axioms(1) [OF K] s(2)] codec c', unfolded controller.repo_def [OF K]] c' show ?thesis by blast
qed

text \<open>
  C5: \<open>rollback -r -n k\<close> restores. With a log of more than \<open>k + 1\<close> commits whose needed contents can be decoded, and an older
  configuration that the command line can reach and validation accepts, rolling back succeeds: the older
  configuration is the file again, it is a new commit on top of the untouched log, and the node runs it.
\<close>

theorem rollback_restores:
  assumes K: "controller (en_redis E) view (en_host E) declares files deployed (en_git E) hist staged content" and dry: "\<not> en_dry E"
    and s: "hist s = Some (c0 # cs)" "pod_files_sound (en_host E) declares files s"
      "files s (in_git_dir (en_host E) CONFIG_FILE) = Some x"
    and n: "n < length cs" "cd_Unmarshal (en_codec E) (content (cs ! n)) = Inr c"
    and c: "cli_reachable c" "validateFinal c = Inr c'"
    and codec: "cd_EmitJSON (en_codec E) (TransponderS c) = Inr j" "cd_Unmarshal (en_codec E) (j @ [newline]) = Inr c"
      "cd_Unmarshal (en_codec E) (content c0) = Inr d"
  shows "\<exists>t ch. rollback_cmd E (int n) msg True [] s = (Inr (), t) \<and> brought_up (en_virtual E) c' (view t) (deployed t) \<and>
    hist t = Some (ch # c0 # cs) \<and> content ch = j @ [newline] \<and> files t (in_git_dir (en_host E) CONFIG_FILE) = Some (j @ [newline])"
proof -
  have "controller.runs_here (en_redis E) (en_host E) (en_git E) E" using dry by (simp add: controller.runs_here_def [OF K])
  from controller.rollback_run [OF K this s(1) pod_files_sound_ok [OF controller.axioms(1) [OF K] s(2)] s(3) n reachable_board [OF c(1)] c(2) codec, of msg]
  show ?thesis by (auto simp: controller.repo_def [OF K])
qed

text \<open>
  C7: validation guards the hardware and the history. When the stored configuration cannot be decoded or validation
  rejects it, \<open>commit\<close> (with or without a reboot) and \<open>reboot\<close> fail with that error, and files, databases, resources
  and log are as before.
\<close>

theorem invalid_never_committed:
  assumes K: "controller (en_redis E) view (en_host E) declares files deployed (en_git E) hist staged content"
    and x: "files s (in_git_dir (en_host E) CONFIG_FILE) = Some x" "res_bind (cd_Unmarshal (en_codec E) x) validateFinal = Inl e"
  shows "\<exists>t. commit_cmd E msg reboot [] s = (Inl e, t) \<and> reboot_cmd E [] s = (Inl e, t) \<and>
    files t = files s \<and> deployed t = deployed s \<and> view t = view s \<and> hist t = hist s"
proof -
  obtain t where t: "persistentPreRunE (en_host E) (en_codec E) s = (cd_Unmarshal (en_codec E) x, t)"
      "files t = files s" "deployed t = deployed s" "view t = view s" "hist t = hist s"
    using controller.load_keeps [OF K x(1)] by blast
  have "commit_cmd E msg reboot [] s = (Inl e, t)" "reboot_cmd E [] s = (Inl e, t)"
    using t(1) x(2) by (cases "cd_Unmarshal (en_codec E) x";
      simp add: commit_cmd_def reboot_cmd_def commit_def no_args_def Let_def pbind_def pseq_def plift_def)+
  with t show ?thesis by blast
qed

definition board_codec :: codec where
  "board_codec = \<lparr>cd_Unmarshal = (\<lambda>s. Inr (default_board [1..<17] [1..<9])), cd_EmitJSON = (\<lambda>g. Inr ''{}'')\<rparr>"

definition mem_env :: "(mem_node, string) env" where
  "mem_env = \<lparr>en_redis = node_redis, en_host = node_cluster, en_git = mem_git, en_codec = board_codec,
     en_diff = (\<lambda>a b. Inr \<lparr>nt_Update = [], nt_Delete = []\<rparr>), en_now = ''now'', en_dry = False, en_virtual = True\<rparr>"

lemma init_brings_up_witness:
  "\<exists>t. init_cmd mem_env False fresh_node = (Inr (), t) \<and> nd_log t = Some [''{}'' @ [newline]]"
  using init_brings_up [of mem_env "\<lambda>s. mem_view (nd_db s)" resource_of "\<lambda>s. gget (mh_files (nd_host s))"
      "\<lambda>s. map_of (mh_deployed (nd_host s))" nd_log nd_staged "\<lambda>c. c" fresh_node "default_board [1..<17] [1..<9]" "''{}''"]
    mc.controller_axioms default_configuration
  by (auto simp: mem_env_def board_codec_def fresh_node_def)

lemma rollback_restores_witness:
  "\<exists>t. rollback_cmd mem_env 0 ''undo'' True []
       (fresh_node\<lparr>nd_log := Some [''b'', ''a''], nd_host := \<lparr>mh_files = [(in_git_dir node_cluster CONFIG_FILE, ''b'')], mh_deployed = []\<rparr>\<rparr>) = (Inr (), t) \<and>
     nd_log t = Some [''{}'' @ [newline], ''b'', ''a'']"
proof -
  let ?s = "fresh_node\<lparr>nd_log := Some [''b'', ''a''], nd_host := \<lparr>mh_files = [(in_git_dir node_cluster CONFIG_FILE, ''b'')], mh_deployed = []\<rparr>\<rparr>"
  have c: "cli_reachable (default_board [1..<17] [1..<9])" by (rule cli_reachable.initial, rule default_configuration)
  obtain c' where c': "validateFinal (default_board [1..<17] [1..<9]) = Inr c'" using default_validates by blast
  have p: "pod_files_sound node_cluster resource_of (\<lambda>s. gget (mh_files (nd_host s))) ?s" by (simp add: pod_file_names)
  show ?thesis
    using rollback_restores [of mem_env "\<lambda>s. mem_view (nd_db s)" resource_of "\<lambda>s. gget (mh_files (nd_host s))"
      "\<lambda>s. map_of (mh_deployed (nd_host s))" nd_log nd_staged "\<lambda>c. c" ?s "''b''" "[''a'']" "''b''" 0 _ c' "''{}''" _ "''undo''"]
    mc.controller_axioms c c' p
    by (auto simp: mem_env_def board_codec_def)
qed

definition broken_codec :: codec where
  "broken_codec = \<lparr>cd_Unmarshal = (\<lambda>s. Inr (zero_PacketTransponder\<lparr>Port := [(''Port1'', zero_Port)]\<rparr>)), cd_EmitJSON = (\<lambda>g. Inr [])\<rparr>"

lemma invalid_never_committed_witness:
  "\<exists>t. commit_cmd (mem_env\<lparr>en_codec := broken_codec\<rparr>) ''m'' False []
      (fresh_node\<lparr>nd_host := \<lparr>mh_files = [(in_git_dir node_cluster CONFIG_FILE, ''x'')], mh_deployed = []\<rparr>\<rparr>) =
      (Inl (Panic ''nil pointer dereference''), t)"
  using invalid_never_committed [of "mem_env\<lparr>en_codec := broken_codec\<rparr>" "\<lambda>s. mem_view (nd_db s)" resource_of
      "\<lambda>s. gget (mh_files (nd_host s))" "\<lambda>s. map_of (mh_deployed (nd_host s))" nd_log nd_staged "\<lambda>c. c"
      "fresh_node\<lparr>nd_host := \<lparr>mh_files = [(in_git_dir node_cluster CONFIG_FILE, ''x'')], mh_deployed = []\<rparr>\<rparr>" "''x''"
      "Panic ''nil pointer dereference''" "''m''" False]
    mc.controller_axioms
  by (auto simp: mem_env_def broken_codec_def validateFinal_def validate_def zero_PacketTransponder_def zero_Port_def check_port_def)

end
