(* ===== verification/History.thy ===== *)
theory History
  imports Lifecycle "HOL-Library.Sublist"
begin

section \<open>Sessions: the commands one after the other\<close>

text \<open>
  What a user does to a machine is a sequence of commands, and between them others may write files (a
  gNMI client through the server, an editor). Every command may fail, and so may git, redis and
  \<open>kubectl\<close> at any point. Of the services the interface \<open>archive\<close> states what also holds when
  they fail: a git operation that fails leaves the log as it is, a commit puts one commit on top of it, whose configuration is
  the working tree or what is staged; files keep what is written to them. The invariant of a session, proved with
  triples for programs that end with a value or an error: every commit holds a configuration that
  can be decoded and is valid, and the log only grows.
\<close>

subsection \<open>Commands and sessions\<close>

datatype command =
    InitCmd bool
  | DumpCmd bool
  | ShowCmd show_command "string list"
  | EditCmd edit_command "string list"
  | CommitCmd string bool "string list"
  | RollbackCmd int string bool "string list"
  | RebootCmd "string list"
  | StopCmd
  | StatusCmd

text \<open>The commands of the root command; \<open>diff\<close>, which only reads, runs git beside the repository and is left out.\<close>

fun run_command :: "('s, 'c) env \<Rightarrow> command \<Rightarrow> ('s, unit) prog" where
  "run_command E (InitCmd force) = init_cmd E force"
| "run_command E (DumpCmd verbose) = dump_cmd E verbose"
| "run_command E (ShowCmd cmd args) = execute_show (en_redis E) (en_host E) (en_codec E) (en_dry E) cmd args"
| "run_command E (EditCmd cmd args) = execute_edit (en_host E) (en_codec E) cmd args"
| "run_command E (CommitCmd message reboot args) = commit_cmd E message reboot args"
| "run_command E (RollbackCmd number message reboot args) = rollback_cmd E number message reboot args"
| "run_command E (RebootCmd args) = reboot_cmd E args"
| "run_command E StopCmd = stop_cmd (en_host E)"
| "run_command E StatusCmd = status_cmd (en_host E)"

text \<open>\<open>other t u\<close>: what others do to the machine between two commands takes it from \<open>t\<close> to \<open>u\<close>.\<close>

inductive session :: "('s, 'c) env \<Rightarrow> ('s \<Rightarrow> 's \<Rightarrow> bool) \<Rightarrow> 's \<Rightarrow> command list \<Rightarrow> 's \<Rightarrow> bool"
  for E :: "('s, 'c) env" and other :: "'s \<Rightarrow> 's \<Rightarrow> bool" and s :: 's where
  start: "session E other s [] s"
| command: "session E other s cmds t \<Longrightarrow> run_command E cmd t = (r, u) \<Longrightarrow> session E other s (cmds @ [cmd]) u"
| others: "session E other s cmds t \<Longrightarrow> other t u \<Longrightarrow> session E other s cmds u"

definition log_of :: "'c list option \<Rightarrow> 'c list" where
  "log_of h = (case h of None \<Rightarrow> [] | Some cs \<Rightarrow> cs)"

lemma log_of_simps [simp]: "log_of None = []" "log_of (Some cs) = cs"
  by (simp_all add: log_of_def)

subsection \<open>Triples\<close>

text \<open>From a state with \<open>A\<close>, a run that returns \<open>x\<close> ends with \<open>Q x\<close> and one that fails with \<open>X\<close>.\<close>

definition triple :: "('s \<Rightarrow> bool) \<Rightarrow> ('s, 'a) prog \<Rightarrow> ('a \<Rightarrow> 's \<Rightarrow> bool) \<Rightarrow> ('s \<Rightarrow> bool) \<Rightarrow> bool" where
  "triple A p Q X \<longleftrightarrow> (\<forall>s r t. A s \<longrightarrow> p s = (r, t) \<longrightarrow> (case r of Inl e \<Rightarrow> X t | Inr x \<Rightarrow> Q x t))"

lemma tripleD: "triple A p (\<lambda>x. Q) Q \<Longrightarrow> A s \<Longrightarrow> p s = (r, t) \<Longrightarrow> Q t"
  unfolding triple_def by (cases r) fastforce+

lemma triple_weaken:
  "triple A' p Q' X' \<Longrightarrow> (\<And>s. A s \<Longrightarrow> A' s) \<Longrightarrow> (\<And>x s. Q' x s \<Longrightarrow> Q x s) \<Longrightarrow> (\<And>s. X' s \<Longrightarrow> X s) \<Longrightarrow> triple A p Q X"
  unfolding triple_def by (fastforce split: sum.splits)

lemma triple_pbind: "triple A p B X \<Longrightarrow> (\<And>x. triple (B x) (f x) Q X) \<Longrightarrow> triple A (pbind p f) Q X"
  unfolding triple_def pbind_def by (fastforce split: prod.splits sum.splits)

lemma triple_pseq: "triple A p (\<lambda>x. B) X \<Longrightarrow> triple B q Q X \<Longrightarrow> triple A (pseq p q) Q X"
  unfolding pseq_def by (rule triple_pbind)

lemma triple_plift: "(\<And>s. A s \<Longrightarrow> X s) \<Longrightarrow> triple A (plift w) (\<lambda>x s. A s \<and> w = Inr x) X"
  by (simp add: triple_def plift_def split: sum.split)

lemma triple_pwrap: "triple A p Q X \<Longrightarrow> triple A (pwrap f p) Q X"
  unfolding triple_def pwrap_def wrap_err_def by (fastforce split: prod.splits sum.splits if_splits)

lemma triple_ptry: "triple A p (\<lambda>x. Q (Inr x)) Y \<Longrightarrow> (\<And>e s. Y s \<Longrightarrow> Q (Inl e) s \<and> X s) \<Longrightarrow> triple A (ptry p) Q X"
  unfolding triple_def ptry_def by (fastforce split: prod.splits sum.splits if_splits)

lemma triple_pret: "(\<And>s. A s \<Longrightarrow> Q x s) \<Longrightarrow> triple A (pret x) Q X"
  by (simp add: triple_def pret_def)

lemma triple_pfail: "(\<And>s. A s \<Longrightarrow> X s) \<Longrightarrow> triple A (pfail e) Q X"
  by (simp add: triple_def pfail_def)

lemma triple_keeps: "keeps q p \<Longrightarrow> (\<And>s t. A s \<Longrightarrow> q t = q s \<Longrightarrow> A t) \<Longrightarrow> (\<And>s. A s \<Longrightarrow> X s) \<Longrightarrow> triple A p (\<lambda>x. A) X"
  unfolding triple_def keeps_def by (fastforce split: sum.splits)

lemma triple_pfor: "(\<And>x. triple A (f x) (\<lambda>x. A) A) \<Longrightarrow> triple A (pfor f xs) (\<lambda>x. A) A"
  by (induction xs) (auto intro: triple_pseq triple_pret)

lemma triple_if: "(b \<Longrightarrow> triple A p Q X) \<Longrightarrow> (\<not> b \<Longrightarrow> triple A p' Q X) \<Longrightarrow> triple A (if b then p else p') Q X"
  by simp

text \<open>Facts that do not depend on the state.\<close>

lemma triple_fact: "(F \<Longrightarrow> triple A p Q X) \<Longrightarrow> triple (\<lambda>s. A s \<and> F) p Q X"
  by (auto simp: triple_def)

subsection \<open>What the handlers keep\<close>

lemma still_pwrap [still]: "keeps q p \<Longrightarrow> keeps q (pwrap f p)"
  unfolding keeps_def pwrap_def by (auto split: prod.splits)

lemma still_handleDiff:
  assumes "\<And>db. keeps q (redis_ping R db)" "\<And>db h. keeps q (redis_hgetall R db h)" "\<And>db h m. keeps q (redis_hmset R db h m)"
    and "\<And>db h. keeps q (redis_del R db h)" "\<And>db h f. keeps q (redis_hdel R db h f)"
  shows "keeps q (handleDiff R new old diff)"
proof -
  have get: "keeps q (GetEntry R db tab ks)" for db tab ks unfolding GetEntry_def by (intro still assms)
  have modify: "keeps q (ModEntry R db tab k e)" for db tab k e by (intro still_ModEntry assms)
  have put: "keeps q (SetEntry R db tab k e)" for db tab k e by (intro still_SetEntry assms)
  have "keeps q (HandleOptDiff R k ts)" for k ts
    unfolding HandleOptDiff_def by (intro still still_client modify assms)
  moreover have "keeps q (get_old_vlan R db old k)" for db k
    by (auto simp: get_old_vlan_def intro!: still get split: option.split)
  moreover have "keeps q (delete_old_vlan R db ov)" for db ov
    by (auto simp: delete_old_vlan_def intro!: still modify split: option.split)
  moreover have "keeps q (apply_connection R db ov cn k fl)" for db ov cn k fl
    unfolding apply_connection_def attach_ether_def attach_opt_def shrink_old_vlan_def Let_def
    by (intro still get modify put)
  ultimately have "keeps q (HandleOptDiff R k ts)" "keeps q (HandleInterfaceDiff R new old k ts)" for k ts
    unfolding HandleInterfaceDiff_def Let_def by (auto intro!: still still_client assms split: option.split)
  then show ?thesis unfolding handleDiff_def by (auto intro!: still split: sum.split prod.split)
qed

lemma still_show_run:
  assumes "\<And>db. keeps q (redis_ping R db)" "\<And>db h. keeps q (redis_hgetall R db h)"
  shows "keeps q (show_run R C dry cmd c)"
proof -
  have get: "keeps q (GetEntry R db tab ks)" for db tab ks unfolding GetEntry_def by (intro still assms)
  have "keeps q (FillInterfaceState R name i)" for name i
    by (auto simp: FillInterfaceState_def intro!: still still_client get assms split: option.split)
  moreover have "keeps q (FillTransportState R name m)" for name m
    by (auto simp: FillTransportState_def intro!: still still_client get assms split: option.split)
  ultimately show ?thesis
    by (cases cmd) (simp_all add: interface_state_def module_state_def still)
qed

text \<open>What is shown is what is saved, and what the command found or, for an interface, could have found.\<close>

lemma show_run_same: "show_run R C dry cmd c s = (Inr c', t) \<Longrightarrow> show_saves cmd \<Longrightarrow> c' = c"
  by (cases cmd) (auto simp: prog_Inr res_bind_Inr show_ports_def show_port_def show_interfaces_def show_interface_def
    show_module_def module_state_def)

lemma gput_twice: "gput k w (gput k v m) = gput k w m"
  by (induction m) auto

lemma show_pre_edit:
  assumes "show_pre cmd c = Inr c'"
  shows "c' = c \<or> (\<exists>name. edit_config (InterfaceCmd IfDescription name) [] c = Inr c')"
proof -
  have "edit_config (InterfaceCmd IfDescription name) [] c = Inr c'" if "interface_pre name c = Inr c'" for name
    using that by (auto simp: edit_config_def any_args_def interface_pre_def interface_description_def edit_interface_def deref_def
      gput_twice Let_def split: option.splits)
  then show ?thesis using assms
    by (cases cmd) (auto simp: port_pre_def module_exists_def split: option.splits)
qed

subsection \<open>The interface\<close>

locale archive =
  fixes R :: "'s redis_ops" and H :: "'s host_ops" and G :: "('s, 'c) git_ops" and files :: "'s \<Rightarrow> string \<rightharpoonup> string"
    and hist :: "'s \<Rightarrow> 'c list option" and staged :: "'s \<Rightarrow> string option" and content :: "'c \<Rightarrow> string option"
  assumes redis_keeps: "keeps (\<lambda>s. (hist s, files s)) (redis_ping R db)" "keeps (\<lambda>s. (hist s, files s)) (redis_hgetall R db h)"
      "keeps (\<lambda>s. (hist s, files s)) (redis_hmset R db h fs)" "keeps (\<lambda>s. (hist s, files s)) (redis_del R db h)"
      "keeps (\<lambda>s. (hist s, files s)) (redis_hdel R db h f)"
    and host_keeps: "keeps (\<lambda>s. (hist s, files s)) (ho_kubectl H as)" "keeps (\<lambda>s. (hist s, files s)) (ho_read H f)"
      "keeps (\<lambda>s. (hist s, files s)) (ho_readdir H d)" "keeps hist (ho_create H f)" "keeps hist (ho_write H f x)"
    and file_keeps: "f' \<noteq> f \<Longrightarrow> keeps (\<lambda>s. files s f') (ho_create H f)" "f' \<noteq> f \<Longrightarrow> keeps (\<lambda>s. files s f') (ho_write H f x)"
    and created: "ho_create H f s = (r, t) \<Longrightarrow> files t f = (case r of Inl e \<Rightarrow> files s f | Inr u \<Rightarrow> Some [])"
    and written: "files s f = Some x \<Longrightarrow> ho_write H f y s = (r, t) \<Longrightarrow> \<not> aborts r \<and> files t f = Some (x @ y)"
    and was_read: "ho_read H f s = (Inr x, t) \<Longrightarrow> files s f = Some x"
    and removed: "ho_remove_all H f s = (r, t) \<Longrightarrow> (hist t = hist s \<or> hist t = None) \<and> files t f' \<in> {files s f', None}"
    and git_keeps: "keeps (\<lambda>s. (hist s, files s)) (git_open G d)" "keeps (\<lambda>s. (hist s, files s)) (git_worktree G)"
      "keeps (\<lambda>s. (hist s, files s)) (git_add G f)" "keeps (\<lambda>s. (hist s, files s)) (git_log G)"
      "keeps (\<lambda>s. (hist s, files s)) (git_file G c f)" "keeps files (git_init G d)" "keeps files (git_commit G m whole)"
    and inited: "git_init G d s = (r, t) \<Longrightarrow> hist t = hist s \<or> hist s = None \<and> hist t = Some []"
    and added: "git_add G CONFIG_FILE s = (Inr (), t) \<Longrightarrow> staged t = files s (in_git_dir H CONFIG_FILE)"
    and committed: "git_commit G m whole s = (r, t) \<Longrightarrow> hist t = hist s \<or>
      (\<exists>c cs. hist s = Some cs \<and> hist t = Some (c # cs) \<and>
        content c \<in> {None, if whole then files s (in_git_dir H CONFIG_FILE) else staged s})"
    and log_read: "git_log G s = (Inr cs, t) \<Longrightarrow> hist s = Some cs"
    and file_read: "hist s = Some cs \<Longrightarrow> c \<in> set cs \<Longrightarrow> git_file G c CONFIG_FILE s = (Inr x, t) \<Longrightarrow> content c = Some x"
begin

text \<open>What the triples look at: the log and the configuration file.\<close>

definition sight :: "'s \<Rightarrow> 'c list \<times> string option" where
  "sight s = (log_of (hist s), files s (in_git_dir H CONFIG_FILE))"

lemma keeps_sight: "keeps (\<lambda>s. (hist s, files s)) p \<Longrightarrow> keeps sight p"
  by (simp add: keeps_def sight_def)

lemmas redis_sight = redis_keeps [THEN keeps_sight]
lemmas host_sight = host_keeps(1-3) [THEN keeps_sight]
lemmas git_sight = git_keeps(1-5) [THEN keeps_sight]

lemma other_file_sight:
  assumes "f \<noteq> CONFIG_FILE"
  shows "keeps sight (ho_create H (in_git_dir H f))" "keeps sight (ho_write H (in_git_dir H f) x)"
proof -
  have "in_git_dir H CONFIG_FILE \<noteq> in_git_dir H f" using assms in_git_dir_inj by metis
  with file_keeps(1) [OF this] file_keeps(2) [OF this] host_keeps(4,5) show
    "keeps sight (ho_create H (in_git_dir H f))" "keeps sight (ho_write H (in_git_dir H f) x)"
    unfolding keeps_def sight_def by simp_all
qed

lemma reboot_sight: "keeps sight (rebootSystem R H dry virtual m)"
  by (rule still_rebootSystem) (simp_all add: redis_sight host_sight other_file_sight)

lemma handleDiff_sight: "keeps sight (handleDiff R new old diff)"
  by (rule still_handleDiff) (rule redis_sight)+

definition here :: "('s, 'c) env \<Rightarrow> bool" where
  "here E \<longleftrightarrow> en_redis E = R \<and> en_host E = H \<and> en_git E = G"

subsection \<open>The invariant\<close>

text \<open>
  \<open>P\<close> is what is known of every configuration that gets into the file (nothing, or that the command line can
  reach it). The log extends \<open>L\<close>, its commits hold valid configurations with \<open>P\<close>, and so does the
  file, as far as it can be decoded.
\<close>

definition sound :: "codec \<Rightarrow> (PacketTransponder \<Rightarrow> bool) \<Rightarrow> 'c \<Rightarrow> bool" where
  "sound C P ch \<longleftrightarrow> (\<forall>x. content ch = Some x \<longrightarrow> (\<exists>c c'. cd_Unmarshal C x = Inr c \<and> P c \<and> validateFinal c = Inr c'))"

definition inv :: "codec \<Rightarrow> (PacketTransponder \<Rightarrow> bool) \<Rightarrow> 'c list \<Rightarrow> 's \<Rightarrow> bool" where
  "inv C P L s \<longleftrightarrow> suffix L (fst (sight s)) \<and> (\<forall>ch \<in> set (fst (sight s)). sound C P ch) \<and>
     (\<forall>x c. snd (sight s) = Some x \<longrightarrow> cd_Unmarshal C x = Inr c \<longrightarrow> P c)"

text \<open>The configuration file holds \<open>c\<close>.\<close>

definition holds :: "codec \<Rightarrow> PacketTransponder \<Rightarrow> 's \<Rightarrow> bool" where
  "holds C c s \<longleftrightarrow> (\<exists>x. snd (sight s) = Some x \<and> cd_Unmarshal C x = Inr c)"

lemma inv_sight: "inv C P L s \<Longrightarrow> sight t = sight s \<Longrightarrow> inv C P L t"
  by (simp add: inv_def)

lemma holds_sight: "holds C c s \<Longrightarrow> sight t = sight s \<Longrightarrow> holds C c t"
  by (simp add: holds_def)

lemma keeps_inv: "keeps sight p \<Longrightarrow> triple (inv C P L) p (\<lambda>x. inv C P L) (inv C P L)"
  by (erule triple_keeps) (auto intro: inv_sight)

lemma keeps_inv_holds:
  "keeps sight p \<Longrightarrow> triple (\<lambda>s. inv C P L s \<and> holds C c s \<and> A) p (\<lambda>x s. inv C P L s \<and> holds C c s \<and> A) (inv C P L)"
  by (erule triple_keeps) (auto intro: inv_sight holds_sight)

lemma commit_adds:
  "triple (\<lambda>s. inv C P L s \<and> holds C c s \<and> validateFinal c = Inr c' \<and> (whole \<or> staged s = snd (sight s)))
     (git_commit G m whole) (\<lambda>x. inv C P L) (inv C P L)"
proof (unfold triple_def, intro allI impI)
  fix s r t
  assume s: "inv C P L s \<and> holds C c s \<and> validateFinal c = Inr c' \<and> (whole \<or> staged s = snd (sight s))"
    and run: "git_commit G m whole s = (r, t)"
  obtain x where x: "files s (in_git_dir H CONFIG_FILE) = Some x" "cd_Unmarshal C x = Inr c" "P c"
    using s by (auto simp: holds_def sight_def inv_def)
  have f: "files t = files s" using keepsD [OF git_keeps(7) run] .
  from committed [OF run] have "inv C P L t"
  proof
    assume "hist t = hist s"
    with f s show ?thesis by (auto intro: inv_sight simp: sight_def)
  next
    assume "\<exists>c cs. hist s = Some cs \<and> hist t = Some (c # cs) \<and>
      content c \<in> {None, if whole then files s (in_git_dir H CONFIG_FILE) else staged s}"
    then obtain ch cs where ch: "hist s = Some cs" "hist t = Some (ch # cs)" "content ch \<in> {None, Some x}"
      using x(1) s by (auto simp: sight_def split: if_splits)
    have "sound C P ch" using ch(3) x s by (auto simp: sound_def)
    with ch f s show ?thesis by (auto simp: inv_def sight_def suffix_Cons)
  qed
  then show "case r of Inl e \<Rightarrow> inv C P L t | Inr y \<Rightarrow> inv C P L t" by (simp split: sum.split)
qed

subsection \<open>The commands keep the invariant\<close>

lemma load_holds: "triple (inv C P L) (persistentPreRunE H C) (\<lambda>c s. inv C P L s \<and> holds C c s) (inv C P L)"
proof (unfold triple_def, intro allI impI)
  fix s r t assume s: "inv C P L s" and run: "persistentPreRunE H C s = (r, t)"
  have "keeps sight (persistentPreRunE H C)" unfolding persistentPreRunE_def by (intro still host_sight)
  then have t: "sight t = sight s" using run by (rule keepsD)
  with s have i: "inv C P L t" by (simp add: inv_sight)
  show "case r of Inl e \<Rightarrow> inv C P L t | Inr c \<Rightarrow> inv C P L t \<and> holds C c t"
  proof (cases r)
    case (Inr c)
    with run obtain x where "ho_read H (in_git_dir H CONFIG_FILE) s = (Inr x, t)" "cd_Unmarshal C x = Inr c"
      by (auto simp: persistentPreRunE_def prog_Inr pwrap_Inr)
    with was_read [OF this(1)] have "holds C c s" by (simp add: holds_def sight_def)
    with t i Inr show ?thesis by (simp add: holds_sight)
  qed (simp add: i)
qed

text \<open>Saving: the file ends up with the encoded configuration, which is read back.\<close>

definition faithful :: "codec \<Rightarrow> (PacketTransponder \<Rightarrow> bool) \<Rightarrow> bool" where
  "faithful C P \<longleftrightarrow> (\<forall>c j. P c \<longrightarrow> cd_EmitJSON C (TransponderS c) = Inr j \<longrightarrow> cd_Unmarshal C (j @ [newline]) = Inr c)"

lemma write_line_file:
  assumes "files s f = Some x" "write_line H f y s = (r, t)"
  shows "r = Inr () \<and> hist t = hist s \<and> files t f = Some (x @ y @ [newline])"
proof -
  obtain r1 u where u: "ho_write H f y s = (r1, u)" by fastforce
  obtain r2 v where v: "ho_write H f [newline] u = (r2, v)" by fastforce
  note 1 = written [OF assms(1) u]
  with written [OF _ v] have 2: "\<not> aborts r2 \<and> files v f = Some ((x @ y) @ [newline])" by blast
  with 1 u v have "write_line H f y s = (Inr (), v)"
    by (auto simp: write_line_def prog_Inr)
  with 2 assms(2) keepsD [OF host_keeps(5) u] keepsD [OF host_keeps(5) v] show ?thesis by simp
qed

definition pending :: "codec \<Rightarrow> (PacketTransponder \<Rightarrow> bool) \<Rightarrow> 'c list \<Rightarrow> string \<Rightarrow> 's \<Rightarrow> bool" where
  "pending C P L x s \<longleftrightarrow> suffix L (fst (sight s)) \<and> (\<forall>ch \<in> set (fst (sight s)). sound C P ch) \<and> snd (sight s) = Some x"

lemma inv_pending: "inv C P L s \<Longrightarrow> sight t = (fst (sight s), Some x) \<Longrightarrow> pending C P L x t"
  by (simp add: inv_def pending_def)

lemma pending_inv: "pending C P L x s \<Longrightarrow> cd_Unmarshal C x = Inr c \<Longrightarrow> P c \<Longrightarrow> inv C P L s \<and> holds C c s"
  by (simp add: inv_def pending_def holds_def)

lemma create_pending: "triple (inv C P L) (ho_create H (in_git_dir H CONFIG_FILE)) (\<lambda>x. pending C P L []) (inv C P L)"
proof (unfold triple_def, intro allI impI)
  fix s r t assume s: "inv C P L s" and run: "ho_create H (in_git_dir H CONFIG_FILE) s = (r, t)"
  have h: "hist t = hist s" using keepsD [OF host_keeps(4) run] .
  show "case r of Inl e \<Rightarrow> inv C P L t | Inr x \<Rightarrow> pending C P L [] t"
  proof (cases r)
    case (Inl e)
    then have "sight t = sight s" using h created [OF run] by (simp add: sight_def)
    with Inl s show ?thesis by (simp add: inv_sight)
  next
    case (Inr u)
    then have "sight t = (fst (sight s), Some [])" using h created [OF run] by (simp add: sight_def)
    from Inr inv_pending [OF s this] show ?thesis by simp
  qed
qed

lemma write_pending: "triple (pending C P L []) (write_line H (in_git_dir H CONFIG_FILE) j) (\<lambda>x. pending C P L (j @ [newline])) X"
proof (unfold triple_def, intro allI impI)
  fix s r t assume s: "pending C P L [] s" and run: "write_line H (in_git_dir H CONFIG_FILE) j s = (r, t)"
  then have "files s (in_git_dir H CONFIG_FILE) = Some []" by (simp add: pending_def sight_def)
  from write_line_file [OF this run] s show "case r of Inl e \<Rightarrow> X t | Inr x \<Rightarrow> pending C P L (j @ [newline]) t"
    by (simp add: pending_def sight_def)
qed

lemma save_text:
  assumes "cd_Unmarshal C (j @ [newline]) = Inr c" "P c"
  shows "triple (inv C P L) (pseq (pwrap f (ho_create H (in_git_dir H CONFIG_FILE))) (write_line H (in_git_dir H CONFIG_FILE) j))
    (\<lambda>x s. inv C P L s \<and> holds C c s) (inv C P L)"
  by (rule triple_pseq [OF triple_pwrap [OF create_pending] triple_weaken [OF write_pending]])
    (use pending_inv [where P = P, OF _ assms] in blast)+

lemma save_holds:
  assumes "faithful C P" "\<And>j. cd_EmitJSON C (TransponderS c) = Inr j \<Longrightarrow> P c"
  shows "triple (inv C P L) (persistentPostRunE H C c) (\<lambda>x s. inv C P L s \<and> holds C c s) (inv C P L)"
  unfolding persistentPostRunE_def
proof (rule triple_pbind [OF triple_plift])
  fix j
  show "triple (\<lambda>s. inv C P L s \<and> wrap_err ''%v'' (cd_EmitJSON C (TransponderS c)) = Inr j)
      (pseq (pwrap ''%v'' (ho_create H (in_git_dir H CONFIG_FILE))) (write_line H (in_git_dir H CONFIG_FILE) j))
      (\<lambda>x s. inv C P L s \<and> holds C c s) (inv C P L)"
  proof (rule triple_fact)
    assume "wrap_err ''%v'' (cd_EmitJSON C (TransponderS c)) = Inr j"
    then have j: "cd_EmitJSON C (TransponderS c) = Inr j" by (auto simp: wrap_err_def split: sum.splits if_splits)
    with assms have "cd_Unmarshal C (j @ [newline]) = Inr c" by (auto simp: faithful_def)
    from save_text [where P = P, OF this assms(2) [OF j]]
    show "triple (inv C P L) (pseq (pwrap ''%v'' (ho_create H (in_git_dir H CONFIG_FILE))) (write_line H (in_git_dir H CONFIG_FILE) j))
      (\<lambda>x s. inv C P L s \<and> holds C c s) (inv C P L)" .
  qed
qed simp

text \<open>A commit of the configuration that the file holds.\<close>

lemma commit_keeps:
  assumes E: "here E"
  shows "triple (\<lambda>s. inv C P L s \<and> holds C c s) (commit E msg reboot c) (\<lambda>x. inv C P L) (inv C P L)"
proof -
  have en: "en_redis E = R" "en_host E = H" "en_git E = G" using E by (simp_all add: here_def)
  have get: "keeps sight (getPacketTransport E ch)" for ch
    unfolding getPacketTransport_def en by (intro still git_sight)
  have tail: "keeps sight (if en_dry E then pret () else
       pbind (git_log G) (\<lambda>cs. pbind (plift (nth_commit cs 0)) (\<lambda>head. pbind (getPacketTransport E head) (\<lambda>t.
       pbind (plift (nth_commit cs 1)) (\<lambda>next. pbind (getPacketTransport E next) (\<lambda>s.
         if reboot then reboot_with E c'
         else pbind (plift (en_diff E s t)) (\<lambda>diff. pbind (handleDiff (en_redis E) t s diff) (\<lambda>(reboot, err).
               if reboot then reboot_with E c' else case err of None \<Rightarrow> pret () | Some e \<Rightarrow> pfail e))))))))" for c'
    unfolding reboot_with_def en
    by (auto intro!: still git_sight get reboot_sight handleDiff_sight split: option.split prod.split)
  show ?thesis
    unfolding commit_def Let_def en
  proof (rule triple_pbind [OF triple_plift], goal_cases)
    case (2 c')
    let ?A = "\<lambda>s. inv C P L s \<and> holds C c s \<and> validateFinal c = Inr c'"
    have "triple ?A (git_open G (ho_git_dir H)) (\<lambda>x. ?A) (inv C P L)" "triple ?A (git_worktree G) (\<lambda>x. ?A) (inv C P L)"
      by (rule keeps_inv_holds, rule git_sight)+
    from triple_pseq [OF this(1) triple_pseq [OF this(2) triple_pseq [OF commit_adds [where whole = True, simplified] keeps_inv [OF tail [of c'], unfolded en]]]]
    show ?case unfolding conj_assoc .
  qed simp
qed

lemma commit_cmd_keeps:
  assumes "here E" "en_codec E = C"
  shows "triple (inv C P L) (commit_cmd E msg reboot args) (\<lambda>x. inv C P L) (inv C P L)"
proof -
  have "en_host E = H" using assms by (simp add: here_def)
  then show ?thesis unfolding commit_cmd_def assms(2)
    by (simp only:) (rule triple_pbind [OF load_holds], rule triple_if, rule triple_pfail, simp, rule commit_keeps [OF assms(1)])
qed

lemma reboot_tail: "here E \<Longrightarrow> keeps sight (reboot_with E c)"
  unfolding reboot_with_def here_def by (simp add: reboot_sight)

lemma load_sight: "keeps sight (persistentPreRunE H C)"
  unfolding persistentPreRunE_def by (intro still host_sight)

lemma reboot_cmd_keeps:
  assumes "here E" shows "triple (inv C P L) (reboot_cmd E args) (\<lambda>x. inv C P L) (inv C P L)"
  using assms load_sight reboot_tail [OF assms] unfolding reboot_cmd_def here_def by (auto intro!: keeps_inv still)

lemma log_inv: "triple (inv C P L) (git_log G) (\<lambda>cs s. inv C P L s \<and> hist s = Some cs) (inv C P L)"
proof (unfold triple_def, intro allI impI)
  fix s r t assume s: "inv C P L s" and run: "git_log G s = (r, t)"
  have "inv C P L t" using inv_sight [OF s keepsD [OF git_sight(4) run]] .
  then show "case r of Inl e \<Rightarrow> inv C P L t | Inr cs \<Rightarrow> inv C P L t \<and> hist t = Some cs"
    using keepsD [OF git_keeps(4) run] log_read [of s _ t] run by (cases r) simp_all
qed

lemma target_inv:
  assumes E: "here E" "en_codec E = C"
  shows "triple (\<lambda>s. (inv C P L s \<and> hist s = Some cs) \<and> rollback_target cs n = Inr ch) (getPacketTransport E ch)
    (\<lambda>c s. inv C P L s \<and> P c) (inv C P L)"
proof (rule triple_fact, unfold triple_def, intro allI impI)
  fix s r t assume ch: "rollback_target cs n = Inr ch" and s: "inv C P L s \<and> hist s = Some cs" and run: "getPacketTransport E ch s = (r, t)"
  have in_log: "ch \<in> set cs" using ch by (auto simp: rollback_target_def nth_commit_def split: if_splits)
  have "keeps sight (getPacketTransport E ch)"
    using E git_sight(5) [of ch CONFIG_FILE] by (simp add: getPacketTransport_def here_def still)
  with s run have t: "inv C P L t" using inv_sight keepsD by metis
  show "case r of Inl e \<Rightarrow> inv C P L t | Inr c \<Rightarrow> inv C P L t \<and> P c"
  proof (cases r)
    case (Inr c)
    then obtain x where x: "git_file G ch CONFIG_FILE s = (Inr x, t)" "cd_Unmarshal C x = Inr c"
      using run E by (auto simp: getPacketTransport_def here_def prog_Inr)
    have "sound C P ch" "content ch = Some x" using file_read [of s cs ch x t] s in_log x(1) by (simp_all add: inv_def sight_def)
    with x(2) have "P c" by (auto simp: sound_def)
    with t Inr show ?thesis by simp
  qed (simp add: t)
qed

lemma rollback_cmd_keeps:
  assumes E: "here E" "en_codec E = C" and P: "faithful C P"
  shows "triple (inv C P L) (rollback_cmd E n msg reboot args) (\<lambda>x. inv C P L) (inv C P L)"
proof -
  have en: "en_host E = H" "en_git E = G" using E by (simp_all add: here_def)
  have save: "triple (\<lambda>s. inv C P L s \<and> P c) (persistentPostRunE H C c) (\<lambda>x s. inv C P L s \<and> holds C c s) (inv C P L)" for c
    by (rule triple_fact, rule save_holds [OF P])
  have "triple (inv C P L) (plift (no_args args)) (\<lambda>x. inv C P L) (inv C P L)" by (intro keeps_inv still)
  then show ?thesis unfolding rollback_cmd_def en E(2)
    by (rule triple_pseq [OF _ triple_pseq [OF keeps_inv [OF git_sight(1)] triple_pbind [OF log_inv
      triple_pbind [OF triple_plift triple_pbind [OF target_inv [OF E] triple_pseq [OF save commit_keeps [OF E(1)]]]]]]]) simp
qed

text \<open>Cobra's phases: \<open>Q\<close> is what the first two establish of \<open>current\<close>, \<open>W\<close> what \<open>RunE\<close> does.\<close>

lemma cobra_keeps:
  assumes pre: "\<And>c c'. valid = Inr () \<Longrightarrow> P c \<Longrightarrow> pre c = Inr c' \<Longrightarrow> Q c'"
    and run: "\<And>c. Q c \<Longrightarrow> triple (inv C P L) (run c) (\<lambda>c s. inv C P L s \<and> W c) (inv C P L)"
    and post: "\<And>c. W c \<Longrightarrow> triple (inv C P L) (post c) (\<lambda>x. inv C P L) (inv C P L)"
  shows "triple (inv C P L) (cobra_execute valid (pbind (persistentPreRunE H C) (\<lambda>c. plift (pre c))) run post)
    (\<lambda>x. inv C P L) (inv C P L)"
proof -
  have P0: "inv C P L s \<Longrightarrow> holds C c s \<Longrightarrow> P c" for c s by (auto simp: inv_def holds_def)
  have valid: "triple (inv C P L) (plift valid) (\<lambda>x s. inv C P L s \<and> valid = Inr ()) (inv C P L)"
    by (rule triple_weaken [OF triple_plift]) auto
  have pre: "triple (\<lambda>s. inv C P L s \<and> valid = Inr ()) (pbind (persistentPreRunE H C) (\<lambda>c. plift (pre c)))
      (\<lambda>c s. inv C P L s \<and> Q c) (inv C P L)"
  proof (rule triple_fact, rule triple_pbind [OF load_holds])
    fix c
    assume "valid = Inr ()"
    with P0 pre show "triple (\<lambda>s. inv C P L s \<and> holds C c s) (plift (pre c)) (\<lambda>c s. inv C P L s \<and> Q c) (inv C P L)"
      by (intro triple_weaken [OF triple_plift [where A = "\<lambda>s. inv C P L s \<and> holds C c s" and X = "inv C P L"]]) auto
  qed
  have run: "triple (\<lambda>s. inv C P L s \<and> Q c) (run c) (\<lambda>c s. inv C P L s \<and> W c) (inv C P L)"
    and post: "triple (\<lambda>s. inv C P L s \<and> W c) (post c) (\<lambda>x. inv C P L) (inv C P L)" for c
    by (rule triple_fact, erule run post)+
  show ?thesis unfolding cobra_execute_def by (rule triple_pseq [OF valid triple_pbind [OF pre triple_pbind [OF run post]]])
qed

text \<open>What gets into the file: the default configuration and what editing makes of it, as far as it can be encoded.\<close>

definition kept :: "codec \<Rightarrow> (PacketTransponder \<Rightarrow> bool) \<Rightarrow> bool" where
  "kept C P \<longleftrightarrow> (\<forall>c j. defaultConfiguration = Inr c \<longrightarrow> cd_EmitJSON C (TransponderS c) = Inr j \<longrightarrow> P c) \<and>
     (\<forall>c cmd args c' j. P c \<longrightarrow> edit_config cmd args c = Inr c' \<longrightarrow> cd_EmitJSON C (TransponderS c') = Inr j \<longrightarrow> P c')"

definition encoded :: "codec \<Rightarrow> (PacketTransponder \<Rightarrow> bool) \<Rightarrow> PacketTransponder \<Rightarrow> bool" where
  "encoded C P c \<longleftrightarrow> (\<forall>j. cd_EmitJSON C (TransponderS c) = Inr j \<longrightarrow> P c)"

lemma save_keeps:
  assumes "faithful C P" "encoded C P c"
  shows "triple (inv C P L) (persistentPostRunE H C c) (\<lambda>x. inv C P L) (inv C P L)"
  by (rule triple_weaken [OF save_holds [OF assms(1)]]) (use assms(2) in \<open>auto simp: encoded_def\<close>)

lemma edit_keeps:
  assumes P: "faithful C P" "kept C P"
  shows "triple (inv C P L) (execute_edit H C cmd args) (\<lambda>x. inv C P L) (inv C P L)"
  unfolding execute_edit_def
proof (rule cobra_keeps)
  let ?Q = "\<lambda>c1. command_args cmd args = Inr () \<and> (\<exists>c. P c \<and> command_pre cmd c = Inr c1)"
  show "?Q c'" if "command_args cmd args = Inr ()" "P c" "command_pre cmd c = Inr c'" for c c' using that by blast
  show "triple (inv C P L) (plift (command_run cmd args c)) (\<lambda>c s. inv C P L s \<and> encoded C P c) (inv C P L)" if "?Q c" for c
  proof -
    have "command_run cmd args c = Inr c2 \<Longrightarrow> encoded C P c2" for c2
      using P(2) that by (fastforce simp: encoded_def kept_def edit_config_def res_bind_Inr)
    then show ?thesis by (intro triple_weaken [OF triple_plift [where A = "inv C P L" and X = "inv C P L"]]) auto
  qed
qed (rule save_keeps [OF P(1)])

lemma show_keeps:
  assumes P: "faithful C P" "kept C P"
  shows "triple (inv C P L) (execute_show R H C dry cmd args) (\<lambda>x. inv C P L) (inv C P L)"
  unfolding execute_show_def
proof (rule cobra_keeps)
  show "encoded C P c'" if "P c" "show_pre cmd c = Inr c'" for c c'
    using show_pre_edit [OF that(2)] P(2) that(1) by (auto simp: encoded_def kept_def)
  show "triple (inv C P L) (show_run R C dry cmd c) (\<lambda>c s. inv C P L s \<and> (show_saves cmd \<longrightarrow> encoded C P c)) (inv C P L)"
    if c: "encoded C P c" for c
  proof (unfold triple_def, intro allI impI)
    fix s r t assume s: "inv C P L s" and run: "show_run R C dry cmd c s = (r, t)"
    have "keeps sight (show_run R C dry cmd c)" by (rule still_show_run) (rule redis_sight)+
    with s run have t: "inv C P L t" using inv_sight keepsD by metis
    show "case r of Inl e \<Rightarrow> inv C P L t | Inr c' \<Rightarrow> inv C P L t \<and> (show_saves cmd \<longrightarrow> encoded C P c')"
      using t c show_run_same [of R C dry cmd c s _ t] run by (cases r) auto
  qed
  show "triple (inv C P L) ((if show_saves cmd then persistentPostRunE H C else (\<lambda>c. pret ())) c) (\<lambda>x. inv C P L) (inv C P L)"
    if "show_saves cmd \<longrightarrow> encoded C P c" for c
    using that save_keeps [OF P(1)] by (simp add: triple_pret)
qed

lemma other_commands_sight:
  "here E \<Longrightarrow> keeps sight (dump_cmd E v)" "keeps sight (stop_cmd H)" "keeps sight (status_cmd H)"
proof -
  show "keeps sight (dump_cmd E v)" if "here E"
  proof -
    have "en_host E = H" using that by (simp add: here_def)
    then show ?thesis unfolding dump_cmd_def by (simp only:) (intro still host_sight)
  qed
  show "keeps sight (stop_cmd H)" unfolding stop_cmd_def by (intro still still_deletePod host_sight)
  show "keeps sight (status_cmd H)" unfolding status_cmd_def by (intro still_run_cmd host_sight)
qed

subsection \<open>init\<close>

lemma git_init_inv: "triple (inv C P L) (git_init G d) (\<lambda>x. inv C P L) (inv C P L)"
proof -
  have "keeps sight (git_init G d)"
    unfolding keeps_def
  proof (intro allI impI)
    fix s r t assume run: "git_init G d s = (r, t)"
    from inited [OF run] keepsD [OF git_keeps(6) run] show "sight t = sight s" by (auto simp: sight_def)
  qed
  then show ?thesis by (rule keeps_inv)
qed

text \<open>With \<open>force\<close> the repository may be removed: the log starts again.\<close>

definition restarted :: "codec \<Rightarrow> (PacketTransponder \<Rightarrow> bool) \<Rightarrow> 'c list \<Rightarrow> 's \<Rightarrow> bool" where
  "restarted C P L s \<longleftrightarrow> inv C P L s \<or> inv C P [] s"

lemma triple_restarted:
  assumes "\<And>L. triple (inv C P L) p (\<lambda>x. inv C P L) (inv C P L)"
  shows "triple (restarted C P L) p (\<lambda>x. restarted C P L) (restarted C P L)"
  using assms [of L] assms [of "[]"] unfolding triple_def restarted_def by (fastforce split: sum.splits)

lemma remove_restarted: "triple (restarted C P L) (ho_remove_all H f) (\<lambda>x. restarted C P L) (restarted C P L)"
proof -
  have "restarted C P L t" if s: "restarted C P L s" and run: "ho_remove_all H f s = (r, t)" for s r t
  proof -
    from s obtain M where M: "inv C P M s" "M = L \<or> M = []" by (auto simp: restarted_def)
    note gone = removed [OF run, of "in_git_dir H CONFIG_FILE"]
    with M(1) have "\<forall>x c. snd (sight t) = Some x \<longrightarrow> cd_Unmarshal C x = Inr c \<longrightarrow> P c" by (auto simp: inv_def sight_def)
    moreover have "fst (sight t) = fst (sight s) \<or> fst (sight t) = []" using gone by (auto simp: sight_def)
    ultimately have "inv C P M t \<or> inv C P [] t" using M(1) by (auto simp: inv_def)
    with M(2) show ?thesis by (auto simp: restarted_def)
  qed
  then show ?thesis by (simp add: triple_def split: sum.split)
qed

lemma init_repo_keeps:
  assumes "here E"
  shows "triple (inv C P L) (init_repo E False) (\<lambda>x. inv C P L) (inv C P L)"
    "triple (restarted C P L) (init_repo E force) (\<lambda>x. restarted C P L) (restarted C P L)"
proof -
  have en: "en_host E = H" "en_git E = G" using assms by (simp_all add: here_def)
  have "triple (inv C P L) (ptry (git_init G d)) (\<lambda>x. inv C P L) (inv C P L)" for d L
    by (rule triple_ptry [OF git_init_inv]) simp
  note attempt = this triple_restarted [OF this]
  show "triple (inv C P L) (init_repo E False) (\<lambda>x. inv C P L) (inv C P L)"
    unfolding init_repo_def Let_def en by (rule triple_pbind [OF attempt(1)]) (simp add: triple_pret triple_pfail split: sum.split)
  have "keeps sight (ho_readdir H d)" for d by (rule host_sight)
  then have "triple (restarted C P L) (RemoveContents H d) (\<lambda>x. restarted C P L) (restarted C P L)" for d
    unfolding RemoveContents_def
    by (intro triple_pbind [OF triple_restarted [OF keeps_inv]] triple_pfor remove_restarted) auto
  then show "triple (restarted C P L) (init_repo E force) (\<lambda>x. restarted C P L) (restarted C P L)"
    unfolding init_repo_def Let_def en using triple_pseq [OF _ triple_restarted [OF git_init_inv]]
    by (intro triple_pbind [OF attempt(2)]) (simp add: triple_pret triple_pfail split: sum.split)
qed

lemma first_commit:
  "triple (\<lambda>s. inv C P L s \<and> holds C c s \<and> validateFinal c = Inr c') (pseq (pwrap f (git_add G CONFIG_FILE)) (git_commit G m False))
     (\<lambda>x. inv C P L) (inv C P L)"
proof (rule triple_pseq [OF _ commit_adds [where whole = False and c = c and c' = c', simplified]], rule triple_pwrap,
    unfold triple_def, intro allI impI)
  fix s r t assume s: "inv C P L s \<and> holds C c s \<and> validateFinal c = Inr c'" and run: "git_add G CONFIG_FILE s = (r, t)"
  have t: "sight t = sight s" using keepsD [OF git_sight(3) run] .
  have i: "inv C P L t" "holds C c t" using s t inv_sight holds_sight by blast+
  show "case r of Inl e \<Rightarrow> inv C P L t | Inr x \<Rightarrow> inv C P L t \<and> holds C c t \<and> validateFinal c = Inr c' \<and> staged t = snd (sight t)"
  proof (cases r)
    case (Inr u)
    with added [of s t] run have "staged t = snd (sight s)" by (simp add: sight_def)
    with Inr t i s show ?thesis by simp
  qed (simp add: i)
qed

lemma init_keeps:
  assumes E: "here E" "en_codec E = C" and P: "faithful C P" "\<And>c j. defaultConfiguration = Inr c \<Longrightarrow> cd_EmitJSON C (TransponderS c) = Inr j \<Longrightarrow> P c"
  shows "triple (inv C P L) (init_cmd E False) (\<lambda>x. inv C P L) (inv C P L)"
    "triple (restarted C P L) (init_cmd E force) (\<lambda>x. restarted C P L) (restarted C P L)"
proof -
  have en: "en_host E = H" "en_git E = G" using E by (simp_all add: here_def)
  let ?f = "in_git_dir H CONFIG_FILE"
  have store: "triple (inv C P L) (pseq (ho_create H ?f) (pseq (write_line H ?f j) (pseq (git_worktree G)
      (pseq (pwrap ''git-add: %v'' (git_add G CONFIG_FILE)) (git_commit G ''initial commit'' False))))) (\<lambda>x. inv C P L) (inv C P L)"
    if j: "defaultConfiguration = Inr c" "cd_EmitJSON C (TransponderS c) = Inr j" for L c j
  proof -
    have c: "P c" using P(2) [OF j] .
    then have "cd_Unmarshal C (j @ [newline]) = Inr c" using P(1) j(2) by (auto simp: faithful_def)
    note saved = pending_inv [where P = P, OF _ this c]
    obtain c' where c': "validateFinal c = Inr c'" using default_validates j(1) default_configuration by (metis sum.inject(2))
    let ?A = "\<lambda>s. inv C P L s \<and> holds C c s \<and> validateFinal c = Inr c'"
    have "triple (pending C P L []) (write_line H ?f j) (\<lambda>x. ?A) (inv C P L)"
      by (rule triple_weaken [OF write_pending [where X = "inv C P L"]]) (use saved c' in blast)+
    moreover have "triple ?A (git_worktree G) (\<lambda>x. ?A) (inv C P L)" by (rule keeps_inv_holds, rule git_sight)
    ultimately show ?thesis by (rule triple_pseq [OF create_pending triple_pseq [OF _ triple_pseq [OF _ first_commit]]])
  qed
  have tail: "keeps sight (pbind (persistentPreRunE H C) (\<lambda>current. pbind (plift (validateFinal current)) (reboot_with E)))"
    by (intro still load_sight reboot_tail E(1))
  have cmd: "triple A (init_cmd E fc) (\<lambda>x. A) A" if repo: "triple A (init_repo E fc) (\<lambda>x. A) A"
    and up: "\<And>p :: ('s, unit) prog. (\<And>L. triple (inv C P L) p (\<lambda>x. inv C P L) (inv C P L)) \<Longrightarrow> triple A p (\<lambda>x. A) A" for A fc
  proof -
    have "triple A (initConfig E fc) (\<lambda>x. A) A"
      unfolding initConfig_def Let_def en E(2)
    proof (rule triple_pbind [OF triple_plift], goal_cases)
      case (2 c)
      show ?case
      proof (rule triple_fact, rule triple_pbind [OF triple_plift], goal_cases)
        case (2 j)
        then show ?case by (intro triple_fact triple_pseq [OF repo up] store)
      qed simp
    qed simp
    then show ?thesis unfolding init_cmd_def en E(2) by (rule triple_pseq) (intro up keeps_inv tail)
  qed
  show "triple (inv C P L) (init_cmd E False) (\<lambda>x. inv C P L) (inv C P L)"
    by (rule cmd [OF init_repo_keeps(1) [OF E(1)]])
  show "triple (restarted C P L) (init_cmd E force) (\<lambda>x. restarted C P L) (restarted C P L)"
    by (rule cmd [OF init_repo_keeps(2) [OF E(1)] triple_restarted])
qed

text \<open>The invariant of a session.\<close>

lemma command_keeps:
  assumes E: "here E" "en_codec E = C" and P: "faithful C P" "kept C P" and run: "run_command E cmd s = (r, t)"
  shows "inv C P L s \<Longrightarrow> cmd \<noteq> InitCmd True \<Longrightarrow> inv C P L t" "restarted C P L s \<Longrightarrow> restarted C P L t"
proof -
  have en: "en_redis E = R" "en_host E = H" using E by (simp_all add: here_def)
  have default: "defaultConfiguration = Inr c \<Longrightarrow> cd_EmitJSON C (TransponderS c) = Inr j \<Longrightarrow> P c" for c j using P(2) by (auto simp: kept_def)
  have others: "cmd \<noteq> InitCmd True \<Longrightarrow> triple (inv C P L) (run_command E cmd) (\<lambda>x. inv C P L) (inv C P L)" for L
    by (cases cmd) (simp_all add: en E(2) edit_keeps [OF P] show_keeps [OF P] keeps_inv [OF other_commands_sight(1) [OF E(1)]]
      keeps_inv [OF other_commands_sight(2)] keeps_inv [OF other_commands_sight(3)] init_keeps(1) [OF E P(1) default] reboot_cmd_keeps [OF E(1)] commit_cmd_keeps [OF E]
      rollback_cmd_keeps [OF E P(1)])
  then show "inv C P L s \<Longrightarrow> cmd \<noteq> InitCmd True \<Longrightarrow> inv C P L t" using run tripleD by metis
  have "triple (restarted C P L) (run_command E cmd) (\<lambda>x. restarted C P L) (restarted C P L)"
  proof (cases "cmd = InitCmd True")
    case True
    then show ?thesis using init_keeps(2) [OF E P(1) default] by simp
  next
    case False
    then show ?thesis by (intro triple_restarted others)
  qed
  then show "restarted C P L s \<Longrightarrow> restarted C P L t" using run tripleD by metis
qed

lemma session_keeps:
  assumes E: "here E" "en_codec E = C" and P: "faithful C P" "kept C P"
    and others: "\<And>t u L. other t u \<Longrightarrow> inv C P L t \<Longrightarrow> inv C P L u"
    and run: "session E other s cmds t" and s: "inv C P L s"
  shows "restarted C P L t \<and> (InitCmd True \<notin> set cmds \<longrightarrow> inv C P L t)"
  using run
proof induction
  case start
  with s show ?case by (simp add: restarted_def)
next
  case (command cmds t cmd r u)
  with command_keeps [OF E P command.hyps(2), of L] show ?case by auto
next
  case (others cmds t u)
  with assms(5) [OF others.hyps(2)] show ?case by (auto simp: restarted_def)
qed

end

subsection \<open>The repository in memory\<close>

lemma on_host_result: "on_host p s = (r, t) \<Longrightarrow> r = fst (p (nd_host s)) \<and> nd_host t = snd (p (nd_host s))"
  by (auto simp: on_host_def split: prod.splits)

lemma mem_cluster_ops:
  "ho_create mem_cluster f h = (Inr (), h\<lparr>mh_files := gput f [] (mh_files h)\<rparr>)"
  "ho_write mem_cluster f x h = (Inr (), h\<lparr>mh_files := gput f ((case gget (mh_files h) f of None \<Rightarrow> [] | Some y \<Rightarrow> y) @ x) (mh_files h)\<rparr>)"
  "ho_read mem_cluster f h = (case gget (mh_files h) f of None \<Rightarrow> Inl (Ext ''no such file'') | Some x \<Rightarrow> Inr x, h)"
  "snd (ho_readdir mem_cluster d h) = h" "ho_remove_all mem_cluster f h = (Inr (), h\<lparr>mh_files := gdel f (mh_files h)\<rparr>)"
  by (simp_all add: mem_cluster_def)

interpretation ma: archive node_redis node_cluster mem_git "\<lambda>s. gget (mh_files (nd_host s))" nd_log nd_staged Some
proof (unfold_locales, unfold keeps_def, safe)
qed (auto simp: mem_git_def no_repository_def node_redis_def node_cluster_def on_db_iff mem_node_log mem_kubectl_files mem_cluster_ops
  split: option.splits if_splits prod.splits dest!: on_host_result)

subsection \<open>Properties of sessions\<close>

definition valid_text :: "codec \<Rightarrow> string \<Rightarrow> bool" where
  "valid_text C x \<longleftrightarrow> (\<exists>c c'. cd_Unmarshal C x = Inr c \<and> validateFinal c = Inr c')"



text \<open>A codec that reads back what it encodes, which is the default configuration only.\<close>

definition default_codec :: codec where
  "default_codec =
     \<lparr>cd_Unmarshal = (\<lambda>x. if x = ''{}'' @ [newline] then Inr (default_board [1..<17] [1..<9]) else Inl (Ext ''invalid'')),
      cd_EmitJSON = (\<lambda>g. if g = TransponderS (default_board [1..<17] [1..<9]) then Inr ''{}'' else Inl (Ext ''invalid''))\<rparr>"

definition default_env :: "(mem_node, string) env" where
  "default_env = mem_env\<lparr>en_codec := default_codec\<rparr>"

lemma default_env_sel [simp]:
  "en_redis default_env = node_redis" "en_host default_env = node_cluster" "en_git default_env = mem_git"
  "en_codec default_env = default_codec" "en_dry default_env = False" "en_virtual default_env = True"
  by (simp_all add: default_env_def mem_env_def)

lemma default_codec_faithful: "cd_EmitJSON default_codec (TransponderS c) = Inr j \<Longrightarrow> cd_Unmarshal default_codec (j @ [newline]) = Inr c"
  by (auto simp: default_codec_def split: if_splits)

lemma default_life:
  "\<exists>s t x. init_cmd default_env False fresh_node = (Inr (), s) \<and> commit_cmd default_env ''again'' True [] s = (Inr (), t) \<and>
     nd_log s = Some [x] \<and> mc.repo t [x, x] x"
proof -
  let ?c = "default_board [1..<17] [1..<9]" and ?x = "''{}'' @ [newline]"
  have runs: "mc.runs_here default_env" by (simp add: mc.runs_here_def)
  obtain c' where c': "validateFinal ?c = Inr c'" using default_validates by blast
  have b: "board_ok ?c" using reachable_board [OF cli_reachable.initial [OF default_configuration]] .
  have bare: "nd_log fresh_node = None" "mn.pod_files_ok fresh_node"
    by (simp_all add: fresh_node_def mn.pod_files_ok_def mk.file_declares_def mn.file_declares_def)
  have codec: "cd_EmitJSON default_codec (TransponderS ?c) = Inr ''{}''" "cd_Unmarshal default_codec ?x = Inr ?c"
    by (simp_all add: default_codec_def)
  from mc.init_run [OF runs bare default_configuration _ _ c', of "''{}''"] codec obtain s where
    s: "init_cmd default_env False fresh_node = (Inr (), s)" "mc.repo s [?x] ?x" by auto
  obtain s1 where s1: "persistentPreRunE node_cluster default_codec s = (Inr ?c, s1)" "mc.repo s1 [?x] ?x"
    using mc.repo_load [OF s(2) codec(2)] by blast
  from mc.commit_run [OF runs s1(2) b c', of ?c ?c "''again''"] codec(2) obtain t where
    "commit default_env ''again'' True ?c s1 = (Inr (), t)" "mc.repo t [?x, ?x] ?x" by auto
  with s s1(1) show ?thesis by (auto simp: commit_cmd_def pbind_def mc.repo_def)
qed



end
