(* ===== verification/Dispatch.thy ===== *)
theory Dispatch
  imports Commit
begin

section \<open>Sorting the difference of two commits\<close>

text \<open>
  \<open>handleDiff\<close> sorts the leaves of a \<open>ygot.Diff\<close> by the object they belong to before it calls
  the handlers. The specification is a filter: the tasks of an object are the leaves under it, the updates first, in
  the order of the difference.
\<close>

definition of_object :: "string \<Rightarrow> string \<Rightarrow> PathElem list \<Rightarrow> bool" where
  "of_object kind name p \<longleftrightarrow> (\<exists>e n rest. p = e # n # rest \<and> pe_Name e = kind \<and> elem_name_key n = name)"

definition leaf_task :: "DiffType \<Rightarrow> PathElem list \<times> TypedValue option \<Rightarrow> DiffTask" where
  "leaf_task ty ev = \<lparr>dt_Type = ty, dt_Path = drop 2 (fst ev), dt_Value = snd ev\<rparr>"

definition object_tasks :: "string \<Rightarrow> string \<Rightarrow> Notification \<Rightarrow> DiffTask list" where
  "object_tasks kind name diff =
     map (leaf_task DiffModified) (filter (\<lambda>ev. of_object kind name (fst ev)) (nt_Update diff)) @
     map (\<lambda>p. leaf_task DiffDeleted (p, None)) (filter (of_object kind name) (nt_Delete diff))"

definition tasks_of :: "DiffTask list gomap \<Rightarrow> string \<Rightarrow> DiffTask list" where
  "tasks_of m name = (case gget m name of None \<Rightarrow> [] | Some ts \<Rightarrow> ts)"

definition task_map_ok :: "DiffTask list gomap \<Rightarrow> bool" where
  "task_map_ok m \<longleftrightarrow> gomap_ok m \<and> (\<forall>name ts. gget m name = Some ts \<longrightarrow> ts \<noteq> [])"

lemma tasks_of_append: "tasks_of (append_task n t m) name = tasks_of m name @ (if name = n then [t] else [])"
  by (simp add: tasks_of_def append_task_def split: option.split)

lemma task_map_ok_append: "task_map_ok m \<Longrightarrow> task_map_ok (append_task n t m)"
  by (auto simp: task_map_ok_def append_task_def)

lemma task_map_ok_entry: "task_map_ok m \<Longrightarrow> gget m name = (if tasks_of m name = [] then None else Some (tasks_of m name))"
  by (auto simp: task_map_ok_def tasks_of_def split: option.split)

text \<open>The three maps together, by the first element of the path.\<close>

definition kind_map :: "string \<Rightarrow> diff_tasks \<Rightarrow> DiffTask list gomap" where
  "kind_map kind d =
     (if kind = ''optical-modules'' then optDiffTask d else if kind = ''interfaces'' then intfDiffTask d else portDiffTask d)"

definition object_kinds :: "string set" where
  "object_kinds = {''optical-modules'', ''interfaces'', ''ports''}"

lemma add_task_iff: "(\<exists>d'. add_task ty ev d = Inr d') \<longleftrightarrow> 2 \<le> length (fst ev)"
  by (auto simp: add_task_def Let_def split: list.split)

lemma object_kinds_distinct:
  "''optical-modules'' \<noteq> ''interfaces''" "''optical-modules'' \<noteq> ''ports''" "''interfaces'' \<noteq> ''ports''"
  by simp_all

lemma pick_map:
  assumes "a \<noteq> b" "a \<noteq> c" "b \<noteq> c" "k = a \<or> k = b \<or> k = c"
  shows "(if k = a then optDiffTask (if x = a then d\<lparr>optDiffTask := u (optDiffTask d)\<rparr> else if x = b then d\<lparr>intfDiffTask := u (intfDiffTask d)\<rparr>
        else if x = c then d\<lparr>portDiffTask := u (portDiffTask d)\<rparr> else d)
      else if k = b then intfDiffTask (if x = a then d\<lparr>optDiffTask := u (optDiffTask d)\<rparr> else if x = b then d\<lparr>intfDiffTask := u (intfDiffTask d)\<rparr>
        else if x = c then d\<lparr>portDiffTask := u (portDiffTask d)\<rparr> else d)
      else portDiffTask (if x = a then d\<lparr>optDiffTask := u (optDiffTask d)\<rparr> else if x = b then d\<lparr>intfDiffTask := u (intfDiffTask d)\<rparr>
        else if x = c then d\<lparr>portDiffTask := u (portDiffTask d)\<rparr> else d)) =
    (if x = k then u (if k = a then optDiffTask d else if k = b then intfDiffTask d else portDiffTask d)
     else (if k = a then optDiffTask d else if k = b then intfDiffTask d else portDiffTask d))"
  using assms by auto

text \<open>One leaf goes into the map of its kind, under the name of its object.\<close>

lemma add_task_map:
  assumes "add_task ty ev d = Inr d'" "kind \<in> object_kinds"
  shows "\<exists>e n rest. fst ev = e # n # rest \<and> kind_map kind d' =
    (if pe_Name e = kind then append_task (elem_name_key n) (leaf_task ty ev) (kind_map kind d) else kind_map kind d)"
proof -
  obtain e n rest where p: "fst ev = e # n # rest"
    using assms(1) add_task_iff [of ty ev d] by (cases "fst ev"; cases "tl (fst ev)") auto
  let ?upd = "append_task (elem_name_key n) \<lparr>dt_Type = ty, dt_Path = rest, dt_Value = snd ev\<rparr>"
  have t: "leaf_task ty ev = \<lparr>dt_Type = ty, dt_Path = rest, dt_Value = snd ev\<rparr>" by (simp add: leaf_task_def p)
  have "add_task ty ev d = Inr (if pe_Name e = ''optical-modules'' then d\<lparr>optDiffTask := ?upd (optDiffTask d)\<rparr>
      else if pe_Name e = ''interfaces'' then d\<lparr>intfDiffTask := ?upd (intfDiffTask d)\<rparr>
      else if pe_Name e = ''ports'' then d\<lparr>portDiffTask := ?upd (portDiffTask d)\<rparr> else d)"
    by (simp only: add_task_def p list.case Let_def if_distrib [of Inr])
  then have d': "d' = (if pe_Name e = ''optical-modules'' then d\<lparr>optDiffTask := ?upd (optDiffTask d)\<rparr>
      else if pe_Name e = ''interfaces'' then d\<lparr>intfDiffTask := ?upd (intfDiffTask d)\<rparr>
      else if pe_Name e = ''ports'' then d\<lparr>portDiffTask := ?upd (portDiffTask d)\<rparr> else d)"
    unfolding assms(1) by (rule sum.inject(2) [THEN iffD1])
  have "kind_map kind d' =
      (if pe_Name e = kind then append_task (elem_name_key n) (leaf_task ty ev) (kind_map kind d) else kind_map kind d)"
    using assms(2) unfolding object_kinds_def insert_iff empty_iff d' t kind_map_def
    by (intro pick_map object_kinds_distinct) blast
  with p show ?thesis by blast
qed

lemma add_task_tasks:
  assumes "add_task ty ev d = Inr d'" "kind \<in> object_kinds"
  shows "tasks_of (kind_map kind d') name =
      tasks_of (kind_map kind d) name @ (if of_object kind name (fst ev) then [leaf_task ty ev] else [])"
    and "task_map_ok (kind_map kind d) \<Longrightarrow> task_map_ok (kind_map kind d')"
proof -
  from add_task_map [OF assms] obtain e n rest where p: "fst ev = e # n # rest" "kind_map kind d' =
    (if pe_Name e = kind then append_task (elem_name_key n) (leaf_task ty ev) (kind_map kind d) else kind_map kind d)" by blast
  show "tasks_of (kind_map kind d') name =
      tasks_of (kind_map kind d) name @ (if of_object kind name (fst ev) then [leaf_task ty ev] else [])"
    unfolding p of_object_def by (auto simp: tasks_of_append)
  show "task_map_ok (kind_map kind d) \<Longrightarrow> task_map_ok (kind_map kind d')"
    unfolding p(2) by (simp add: task_map_ok_append)
qed

lemma add_tasks_tasks:
  assumes "for_res (\<lambda>x. add_task ty (f x)) xs d = Inr d'" "kind \<in> object_kinds"
  shows "tasks_of (kind_map kind d') name = tasks_of (kind_map kind d) name @
      map (\<lambda>x. leaf_task ty (f x)) (filter (\<lambda>x. of_object kind name (fst (f x))) xs)"
    and "task_map_ok (kind_map kind d) \<Longrightarrow> task_map_ok (kind_map kind d')"
proof -
  have "tasks_of (kind_map kind d') name = tasks_of (kind_map kind d) name @
      map (\<lambda>x. leaf_task ty (f x)) (filter (\<lambda>x. of_object kind name (fst (f x))) xs) \<and>
      (task_map_ok (kind_map kind d) \<longrightarrow> task_map_ok (kind_map kind d'))"
    using assms(1)
  proof (induction xs arbitrary: d)
    case (Cons x xs)
    then obtain d1 where d1: "add_task ty (f x) d = Inr d1" "for_res (\<lambda>x. add_task ty (f x)) xs d1 = Inr d'"
      by (auto simp: res_bind_Inr)
    from Cons.IH [OF d1(2)] add_task_tasks [OF d1(1) assms(2)] show ?case by simp
  qed simp
  then show "tasks_of (kind_map kind d') name = tasks_of (kind_map kind d) name @
      map (\<lambda>x. leaf_task ty (f x)) (filter (\<lambda>x. of_object kind name (fst (f x))) xs)"
    "task_map_ok (kind_map kind d) \<Longrightarrow> task_map_ok (kind_map kind d')" by blast+
qed

lemma add_tasks_iff: "(\<exists>d'. for_res (\<lambda>x. add_task ty (f x)) xs d = Inr d') \<longleftrightarrow> (\<forall>x \<in> set xs. 2 \<le> length (fst (f x)))"
proof (induction xs arbitrary: d)
  case (Cons x xs)
  show ?case
  proof (cases "add_task ty (f x) d")
    case (Inl e)
    then show ?thesis using add_task_iff [of ty "f x" d] by auto
  next
    case (Inr d1)
    then show ?thesis using add_task_iff [of ty "f x" d] Cons.IH [of d1] by auto
  qed
qed simp

lemma sort_tasks_result:
  assumes "sort_tasks diff = Inr d" "kind \<in> object_kinds"
  shows "gget (kind_map kind d) name = (if object_tasks kind name diff = [] then None else Some (object_tasks kind name diff))"
    and "gomap_ok (kind_map kind d)"
proof -
  let ?d0 = "\<lparr>optDiffTask = [], intfDiffTask = [], portDiffTask = []\<rparr>"
  obtain d1 where d1: "for_res (\<lambda>x. add_task DiffModified x) (nt_Update diff) ?d0 = Inr d1"
      "for_res (\<lambda>p. add_task DiffDeleted (p, None)) (nt_Delete diff) d1 = Inr d"
    using assms(1) by (auto simp: sort_tasks_def res_bind_Inr)
  have "kind_map kind ?d0 = []" by (simp add: kind_map_def)
  then have z: "task_map_ok (kind_map kind ?d0)" "tasks_of (kind_map kind ?d0) name = []"
    by (simp_all add: task_map_ok_def tasks_of_def)
  note a = add_tasks_tasks [OF d1(1) assms(2)] and b = add_tasks_tasks [of DiffDeleted "\<lambda>p. (p, None)", OF d1(2) assms(2)]
  have "task_map_ok (kind_map kind d)" using a(2) b(2) z(1) by blast
  moreover have "tasks_of (kind_map kind d) name = object_tasks kind name diff"
    using a(1) b(1) z(2) by (simp add: object_tasks_def)
  ultimately show "gget (kind_map kind d) name = (if object_tasks kind name diff = [] then None else Some (object_tasks kind name diff))"
    "gomap_ok (kind_map kind d)" using task_map_ok_entry task_map_ok_def by metis+
qed

text \<open>
  C27: sorting a difference loses, duplicates and reorders nothing. It succeeds exactly when every path has an object
  (two elements), and then each module, interface and port that a leaf belongs to has one entry with exactly
  its leaves, the changed ones before the deleted ones, in the order of the difference.
\<close>

theorem sort_tasks_groups:
  "((\<exists>d. sort_tasks diff = Inr d) \<longleftrightarrow> (\<forall>p \<in> fst ` set (nt_Update diff) \<union> set (nt_Delete diff). 2 \<le> length p)) \<and>
   (\<forall>d name. sort_tasks diff = Inr d \<longrightarrow>
      gget (optDiffTask d) name = (let ts = object_tasks ''optical-modules'' name diff in if ts = [] then None else Some ts) \<and>
      gget (intfDiffTask d) name = (let ts = object_tasks ''interfaces'' name diff in if ts = [] then None else Some ts) \<and>
      gget (portDiffTask d) name = (let ts = object_tasks ''ports'' name diff in if ts = [] then None else Some ts))"
proof
  let ?d0 = "\<lparr>optDiffTask = [], intfDiffTask = [], portDiffTask = []\<rparr>"
  have del: "(\<exists>d'. for_res (\<lambda>p. add_task DiffDeleted (p, None)) (nt_Delete diff) d = Inr d') \<longleftrightarrow> (\<forall>p \<in> set (nt_Delete diff). 2 \<le> length p)" for d
    using add_tasks_iff [of DiffDeleted "\<lambda>p. (p, None)"] by simp
  have "(\<exists>d. sort_tasks diff = Inr d) \<longleftrightarrow>
      (\<exists>d1. for_res (add_task DiffModified) (nt_Update diff) ?d0 = Inr d1) \<and> (\<forall>p \<in> set (nt_Delete diff). 2 \<le> length p)"
    unfolding sort_tasks_def res_bind_Inr using del by blast
  then show "(\<exists>d. sort_tasks diff = Inr d) \<longleftrightarrow> (\<forall>p \<in> fst ` set (nt_Update diff) \<union> set (nt_Delete diff). 2 \<le> length p)"
    using add_tasks_iff [of DiffModified "\<lambda>x. x" "nt_Update diff" ?d0] by auto
  show "\<forall>d name. sort_tasks diff = Inr d \<longrightarrow>
      gget (optDiffTask d) name = (let ts = object_tasks ''optical-modules'' name diff in if ts = [] then None else Some ts) \<and>
      gget (intfDiffTask d) name = (let ts = object_tasks ''interfaces'' name diff in if ts = [] then None else Some ts) \<and>
      gget (portDiffTask d) name = (let ts = object_tasks ''ports'' name diff in if ts = [] then None else Some ts)"
    using sort_tasks_result(1) [of diff _ "''optical-modules''"] sort_tasks_result(1) [of diff _ "''interfaces''"]
      sort_tasks_result(1) [of diff _ "''ports''"]
    by (simp add: kind_map_def object_kinds_def Let_def)
qed

lemma sort_tasks_groups_witness:
  "\<exists>d. sort_tasks \<lparr>nt_Update = [([\<lparr>pe_Name = ''ports'', pe_Key = []\<rparr>, \<lparr>pe_Name = ''port'', pe_Key = [(''name'', ''Port1'')]\<rparr>], None)],
     nt_Delete = []\<rparr> = Inr d \<and> gget (optDiffTask d) ''Port1'' = None \<and> gget (portDiffTask d) ''Port1'' \<noteq> None"
proof -
  let ?n = "\<lparr>nt_Update = [([\<lparr>pe_Name = ''ports'', pe_Key = []\<rparr>, \<lparr>pe_Name = ''port'', pe_Key = [(''name'', ''Port1'')]\<rparr>], None)],
     nt_Delete = []\<rparr>"
  obtain d where d: "sort_tasks ?n = Inr d" using conjunct1 [OF sort_tasks_groups, of ?n] by auto
  have "object_tasks ''optical-modules'' ''Port1'' ?n = []" "object_tasks ''ports'' ''Port1'' ?n \<noteq> []"
    by (simp_all add: object_tasks_def of_object_def elem_name_key_def)
  with d conjunct2 [OF sort_tasks_groups, rule_format, OF d, of "''Port1''"] show ?thesis by (simp add: Let_def)
qed

end
