(* ===== verification/Handover.thy ===== *)
theory Handover
  imports Node Dispatch
begin

section \<open>Handing a difference over\<close>

text \<open>
  A commit brings the node from the previous configuration to the new one in one of two ways: by applying
  the leaves that changed (\<open>handleDiff\<close>) or by a reboot. For the optical modules the two agree: what
  \<open>handleDiff\<close> leaves in the transport database is what \<open>ConfigureTransport\<close> would write. What is relied on of
  \<open>ygot.Diff\<close> is that it reports the leaves of a module that changed, with their new values; the files it
  compares are not completed with defaults, so the values that are unset on both sides must agree as defaults.
\<close>

subsection \<open>Leaves of completed modules\<close>

lemma leaf_cases:
  obtains "p = ''optical-module-frequency.grid''" | "p = ''optical-module-frequency.channel''" | "p = ''ber-interval''" | "p = ''prbs''"
    | "p = ''losi''" | "p = ''enabled''" | "p = ''modulation-type''" | "\<And>t. leaf_value t p = None"
proof (cases "p \<in> {''optical-module-frequency.grid'', ''optical-module-frequency.channel'', ''ber-interval'', ''prbs'', ''losi'',
    ''enabled'', ''modulation-type''}")
  case True
  then show ?thesis using that(1-7) by (elim insertE emptyE)
next
  case False
  then have "leaf_value t p = None" for t by (simp add: leaf_value_def)
  then show ?thesis by (rule that(8))
qed

lemma frequency_leaf:
  "omf_Grid (default_frequency f) = (case f of None \<Rightarrow> GRID_50GHZ | Some f \<Rightarrow> if omf_Grid f = Grid_UNSET then GRID_50GHZ else omf_Grid f)"
  "omf_Channel (default_frequency f) = Some (case f of None \<Rightarrow> 1 | Some f \<Rightarrow> (case omf_Channel f of None \<Rightarrow> 1 | Some c \<Rightarrow> c))"
  by (auto simp: default_frequency_def or_default_def Let_def zero_Frequency_def split: option.split)

lemma default_leaf:
  "leaf_value (default_leaves v m) p = (case leaf_value v p of Some x \<Rightarrow> Some x | None \<Rightarrow> leaf_value (default_leaves zero_OpticalModule m') p)"
proof (cases rule: leaf_cases [of p])
  case 1
  show ?thesis unfolding 1 leaf_value_simps
    by (auto simp: default_leaves_def frequency_leaf zero_OpticalModule_def split: option.split)
next
  case 2
  show ?thesis unfolding 2 leaf_value_simps
    by (auto simp: default_leaves_def frequency_leaf zero_OpticalModule_def split: option.split)
next
  case 8
  then show ?thesis by simp
qed (simp_all only: leaf_value_simps, simp_all add: default_leaves_def or_default_def zero_OpticalModule_def split: option.split)

lemma default_leaf_same:
  "leaf_value v p = leaf_value v' p \<Longrightarrow> leaf_value (default_leaves v m) p = leaf_value (default_leaves v' m') p"
  by (simp add: default_leaf [where m' = m'])

lemma default_leaf_set: "leaf_value v p = Some x \<Longrightarrow> leaf_value (default_leaves v m) p = Some x"
  by (simp add: default_leaf [of v m p m])

lemma Fill_leaf: "FillTransportDefaultConfig v m = Inr v' \<Longrightarrow> leaf_value v' p = leaf_value (default_leaves v m) p"
proof -
  have stats: "leaf_value (write_ch n f t) p = leaf_value t p" for n f t
  proof -
    obtain cs where cs: "write_ch n f t = with_stats cs t" using write_ch_stats by blast
    show ?thesis by (cases rule: leaf_cases [of p]) (simp_all only: cs leaf_value_simps, simp_all add: with_stats_def)
  qed
  show "FillTransportDefaultConfig v m = Inr v' \<Longrightarrow> leaf_value v' p = leaf_value (default_leaves v m) p"
    by (auto simp: Fill_Inr stats)
qed

lemma describe_completed:
  assumes d: "tasks_describe ts v v'" and vals: "\<forall>t \<in> set ts. task_path t \<in> fst ` set opt_fields \<longrightarrow> dt_Value t \<noteq> None"
    and f: "FillTransportDefaultConfig v m = Inr w" "FillTransportDefaultConfig v' m' = Inr w'"
  shows "tasks_describe ts w w'"
  unfolding tasks_describe_def
proof (intro conjI ballI impI)
  fix t assume t: "t \<in> set ts" "task_path t \<in> fst ` set opt_fields"
  with d have "dt_Value t = leaf_value v' (task_path t)" by (simp add: tasks_describe_def)
  moreover obtain x where "dt_Value t = Some x" using vals t by blast
  ultimately show "dt_Value t = leaf_value w' (task_path t)"
    using default_leaf_set [of v' "task_path t" x m'] by (simp add: Fill_leaf [OF f(2)])
next
  fix p assume p: "p \<in> fst ` set opt_fields" "leaf_value w p \<noteq> leaf_value w' p"
  then have "leaf_value v p \<noteq> leaf_value v' p" using default_leaf_same [of v p v' m m'] by (auto simp: Fill_leaf [OF f(1)] Fill_leaf [OF f(2)])
  with d p(1) show "\<exists>t \<in> set ts. task_path t = p" unfolding tasks_describe_def by blast
qed

lemma opt_success_values:
  "for_res opt_task ts e0 = Inr e \<Longrightarrow> t \<in> set ts \<Longrightarrow> task_path t \<in> fst ` set opt_fields \<Longrightarrow> dt_Value t \<noteq> None"
proof (induction ts arbitrary: e0)
  case (Cons a ts)
  from Cons.prems(1) obtain e1 where e1: "opt_task a e0 = Inr e1" "for_res opt_task ts e1 = Inr e" by (auto simp: res_bind_Inr)
  show ?case
  proof (cases "t = a")
    case True
    with e1(1) opt_task_deleted [of t e0] Cons.prems(3) show ?thesis by (auto simp: is_deleted_leaf_def)
  next
    case False
    with Cons.IH [OF e1(2)] Cons.prems(2,3) show ?thesis by simp
  qed
qed simp

subsection \<open>One module\<close>

lemma module_entryE:
  assumes "module_entry m k v = Inr e"
  obtains i w where "index_of_module k = Inr i" "FillTransportDefaultConfig v m = Inr w" "transport_entry i w = Inr e" "complete_module w"
  using assms Fill_complete by (auto simp: module_entry_def res_bind_Inr)

lemma client_bind: "pbind (pseq p (pret db)) f = pseq p (f db)"
  by (intro ext) (simp add: pbind_def pseq_def pret_def split: prod.split sum.split)

context redis_server begin

lemma opt_step:
  assumes e: "module_entry old k v = Inr e_old" "module_entry new k v' = Inr e_new"
    and stored: "decode_view (view s TRANSPORT_CONFIG_DB (transport_hash k)) = stored_view e_old"
    and d: "tasks_describe ts v v'" and run: "HandleOptDiff R k ts s = (Inr (), t)"
  shows "decode_view (view t TRANSPORT_CONFIG_DB (transport_hash k)) = stored_view e_new"
proof -
  from e(1) obtain i w where w: "index_of_module k = Inr i" "FillTransportDefaultConfig v old = Inr w" "transport_entry i w = Inr e_old" "complete_module w"
    by (rule module_entryE)
  from e(2) w(1) obtain w' where w': "FillTransportDefaultConfig v' new = Inr w'" "transport_entry i w' = Inr e_new" "complete_module w'"
    by (metis module_entryE sum.inject(2))
  obtain x where "for_res opt_task ts [] = Inr x" using run by (auto simp: HandleOptDiff_def prog_Inr split: if_splits)
  then have "tasks_describe ts w w'" using describe_completed [OF d _ w(2) w'(1)] opt_success_values by blast
  from opt_diff_agrees [OF redis_server_axioms w(4,3) w'(3,2) stored this run] show ?thesis .
qed

text \<open>The other hashes.\<close>

lemma hash_keeps:
  "keeps (\<lambda>s. view s db' h') (redis_ping R db)" "keeps (\<lambda>s. view s db' h') (redis_hgetall R db h)"
  "(db', h') \<noteq> (db, h) \<Longrightarrow> keeps (\<lambda>s. view s db' h') (redis_hmset R db h m)"
  "(db', h') \<noteq> (db, h) \<Longrightarrow> keeps (\<lambda>s. view s db' h') (redis_del R db h)"
  "(db', h') \<noteq> (db, h) \<Longrightarrow> keeps (\<lambda>s. view s db' h') (redis_hdel R db h f)"
  using hmset_other del_other hdel_other by (simp_all add: keeps_def ping_view hgetall_keeps)

lemma HandleOptDiff_other:
  assumes "h \<noteq> transport_hash k"
  shows "keeps (\<lambda>s. view s TRANSPORT_CONFIG_DB h) (HandleOptDiff R k ts)"
proof -
  have "keeps (\<lambda>s. view s TRANSPORT_CONFIG_DB h) (ModEntry R TRANSPORT_CONFIG_DB CONFIG_TABLE k e)" for e
    using assms by (intro still_ModEntry hash_keeps) (simp_all add: transport_hash_def)
  then show ?thesis unfolding HandleOptDiff_def NewSONiCDBClient_def client_bind by (intro still hash_keeps)
qed

text \<open>The handler of interfaces works on the configuration database only.\<close>

lemma HandleInterfaceDiff_other: "keeps (\<lambda>s. view s TRANSPORT_CONFIG_DB h) (HandleInterfaceDiff R new old k ts)"
proof -
  have db: "(TRANSPORT_CONFIG_DB, h) \<noteq> (CONFIG_DB, h')" for h' by (simp add: TRANSPORT_CONFIG_DB_def CONFIG_DB_def)
  have get: "keeps (\<lambda>s. view s TRANSPORT_CONFIG_DB h) (GetEntry R CONFIG_DB tab ks)" for tab ks
    unfolding GetEntry_def by (intro still hash_keeps)
  have modify: "keeps (\<lambda>s. view s TRANSPORT_CONFIG_DB h) (ModEntry R CONFIG_DB tab k e)" for tab k e
    by (intro still_ModEntry hash_keeps db)
  have put: "keeps (\<lambda>s. view s TRANSPORT_CONFIG_DB h) (SetEntry R CONFIG_DB tab k e)" for tab k e
    by (intro still_SetEntry hash_keeps db)
  have "keeps (\<lambda>s. view s TRANSPORT_CONFIG_DB h) (get_old_vlan R CONFIG_DB old k)"
    by (auto simp: get_old_vlan_def intro!: still get split: option.split)
  moreover have "keeps (\<lambda>s. view s TRANSPORT_CONFIG_DB h) (delete_old_vlan R CONFIG_DB ov)" for ov
    by (auto simp: delete_old_vlan_def intro!: still modify split: option.split)
  moreover have "keeps (\<lambda>s. view s TRANSPORT_CONFIG_DB h) (apply_connection R CONFIG_DB ov cn k fl)" for ov cn fl
    unfolding apply_connection_def attach_ether_def attach_opt_def shrink_old_vlan_def Let_def
    by (intro still get modify put)
  ultimately show ?thesis
    unfolding HandleInterfaceDiff_def NewSONiCDBClient_def client_bind Let_def
    by (auto intro!: still hash_keeps split: option.split)
qed

text \<open>A loop over a map in which every turn sees to its own key.\<close>

lemma pfor_keyed:
  assumes "pfor (\<lambda>(k, v). f k v) m s = (Inr (), t)" "gomap_ok m"
    and other: "\<And>k v k'. k' \<noteq> k \<Longrightarrow> keeps (q k') (f k v)"
    and step: "\<And>k v s t. (k, v) \<in> set m \<Longrightarrow> f k v s = (Inr (), t) \<Longrightarrow> P k (q k s) \<Longrightarrow> Q k (q k t)"
    and P: "\<And>k. k \<in> gkeys m \<Longrightarrow> P k (q k s)"
  shows "if k \<in> gkeys m then Q k (q k t) else q k t = q k s"
  using assms
proof (induction m arbitrary: s)
  case (Cons x m)
  obtain k0 v0 where x: "x = (k0, v0)" by (cases x)
  from Cons.prems(1) obtain u where u: "f k0 v0 s = (Inr (), u)" "pfor (\<lambda>(k, v). f k v) m u = (Inr (), t)" by (auto simp: x prog_Inr)
  have new: "k0 \<notin> gkeys m" "gomap_ok m" using Cons.prems(2) by (auto simp: x gomap_ok_def)
  have keep: "q k' u = q k' s" if "k' \<noteq> k0" for k' using keepsD [OF other [OF that] u(1)] .
  have "P k' (q k' u)" if "k' \<in> gkeys m" for k'
  proof -
    have "k' \<noteq> k0" using that new(1) by blast
    with Cons.prems(5) [of k'] that keep show ?thesis by (simp add: x)
  qed
  note P' = this
  have "\<And>k v s t. (k, v) \<in> set m \<Longrightarrow> f k v s = (Inr (), t) \<Longrightarrow> P k (q k s) \<Longrightarrow> Q k (q k t)"
    by (rule Cons.prems(4)) simp_all
  from Cons.IH [OF u(2) new(2) other this P'] have IH: "if k \<in> gkeys m then Q k (q k t) else q k t = q k u" .
  have first: "Q k0 (q k0 u)" using Cons.prems(4) [OF _ u(1)] Cons.prems(5) [of k0] by (simp add: x)
  show ?case using IH first keep new(1) by (cases "k = k0") (auto simp: x split: if_splits)
qed (simp add: pret_def)

lemma unit_res: "\<forall>e. x \<noteq> Inl e \<Longrightarrow> x = Inr ()"
  by (cases x) auto

lemma handleDiff_phases:
  assumes "handleDiff R new old diff s = (Inr (reboot, None), t)"
  obtains d u where "sort_tasks diff = Inr d" "pfor (\<lambda>(k, v). HandleOptDiff R k v) (optDiffTask d) s = (Inr (), u)"
    "pfor (\<lambda>(k, v). HandleInterfaceDiff R new old k v) (intfDiffTask d) u = (Inr (), t)"
proof -
  from assms obtain d r u where d: "sort_tasks diff = Inr d" "pfor (\<lambda>(k, v). HandleOptDiff R k v) (optDiffTask d) s = (r, u)"
      "(case r of Inl e \<Rightarrow> pret (False, Some e) | Inr w \<Rightarrow>
         pbind (ptry (pfor (\<lambda>(k, v). HandleInterfaceDiff R new old k v) (intfDiffTask d))) (\<lambda>r.
           case r of Inl e \<Rightarrow> pret (False, Some e) | Inr w \<Rightarrow> pret (port_diffs (portDiffTask d) False))) u = (Inr (reboot, None), t)"
    by (auto simp: handleDiff_def prog_Inr)
  then have "r = Inr ()" by (auto simp: prog_Inr split: sum.splits)
  moreover from this d(3) have "pfor (\<lambda>(k, v). HandleInterfaceDiff R new old k v) (intfDiffTask d) u = (Inr (), t)"
    by (auto simp: prog_Inr split: sum.splits) (metis unit_res)
  ultimately show ?thesis using that d(1,2) by blast
qed

lemma handleDiff_modules:
  assumes before: "modules_stored old (view s)" and ok: "gomap_ok (OpticalModule old)" "gomap_ok (OpticalModule new)"
    and keys: "gkeys (OpticalModule new) = gkeys (OpticalModule old)"
    and fill: "\<forall>(k, v) \<in> set (OpticalModule new). HasPrefix k ''Opt'' \<and> (\<exists>v'. FillTransportDefaultConfig v new = Inr v')"
    and diff: "\<And>k v v'. gget (OpticalModule old) k = Some v \<Longrightarrow> gget (OpticalModule new) k = Some v' \<Longrightarrow>
      tasks_describe (object_tasks ''optical-modules'' k diff) v v'"
    and run: "handleDiff R new old diff s = (Inr (reboot, None), t)" and k: "gget (OpticalModule new) k = Some v'"
  shows "\<exists>e. module_entry new k v' = Inr e \<and> decode_view (view t TRANSPORT_CONFIG_DB (transport_hash k)) = stored_view e"
proof -
  from run obtain d u where d: "sort_tasks diff = Inr d" "pfor (\<lambda>(k, v). HandleOptDiff R k v) (optDiffTask d) s = (Inr (), u)"
    "pfor (\<lambda>(k, v). HandleInterfaceDiff R new old k v) (intfDiffTask d) u = (Inr (), t)" by (rule handleDiff_phases)
  obtain v where v: "gget (OpticalModule old) k = Some v"
    using k keys gget_Some_key [of k "OpticalModule new"] gget_Some_key [of k "OpticalModule old"] by blast
  from before gget_in_set [OF v] obtain e_old where e_old: "module_entry old k v = Inr e_old"
      "view s TRANSPORT_CONFIG_DB (transport_hash k) = gget (encode_entry e_old)" by (fastforce simp: modules_stored_def)
  have pre: "HasPrefix k ''Opt''" and f: "\<exists>w. FillTransportDefaultConfig v' new = Inr w" using fill gget_in_set [OF k] by auto
  have "\<exists>i. index_of_module k = Inr i" using e_old(1) by (auto simp: module_entry_def res_bind_Inr)
  with f obtain e where e: "module_entry new k v' = Inr e" using module_entry_iff by metis
  let ?ts = "object_tasks ''optical-modules'' k diff" and ?q = "\<lambda>k s. view s TRANSPORT_CONFIG_DB (transport_hash k)"
  have old_stored: "decode_view (?q k s) = stored_view e_old" using decode_encode [OF module_entry_ok [OF e_old(1)]] e_old(2) by simp
  have tasks: "gget (optDiffTask d) k = (if ?ts = [] then None else Some ?ts)" "gomap_ok (optDiffTask d)"
    using sort_tasks_result [OF d(1), of "''optical-modules''"] by (simp_all add: kind_map_def object_kinds_def)
  have "if k \<in> gkeys (optDiffTask d) then (k = k \<longrightarrow> decode_view (?q k u) = stored_view e) else ?q k u = ?q k s"
  proof (rule pfor_keyed [where q = ?q and P = "\<lambda>k' x. k' = k \<longrightarrow> decode_view x = stored_view e_old"
        and Q = "\<lambda>k' x. k' = k \<longrightarrow> decode_view x = stored_view e", OF d(2) tasks(2)])
    show "keeps (?q k') (HandleOptDiff R k0 ts)" if "k' \<noteq> k0" for k0 ts k' using HandleOptDiff_other that by simp
  next
    fix k0 ts s t
    assume run: "HandleOptDiff R k0 ts s = (Inr (), t)" and m: "(k0, ts) \<in> set (optDiffTask d)"
      and P: "k0 = k \<longrightarrow> decode_view (?q k0 s) = stored_view e_old"
    show "k0 = k \<longrightarrow> decode_view (?q k0 t) = stored_view e"
    proof
      assume k0: "k0 = k"
      with in_set_gget [OF tasks(2) m] tasks(1) have "ts = ?ts" by (simp split: if_splits)
      with opt_step [OF e_old(1) e _ diff [OF v k]] run P k0 show "decode_view (?q k0 t) = stored_view e" by simp
    qed
  qed (use old_stored in blast)
  then have "decode_view (?q k u) = stored_view e"
  proof (cases "?ts = []")
    case True
    then have "?q k u = ?q k s" using tasks(1) \<open>if k \<in> gkeys (optDiffTask d) then _ else _\<close> by (simp add: gget_None_iff)
    moreover have "HandleOptDiff R k [] s = (Inr (), s)" using pre by (simp add: HandleOptDiff_def pbind_def plift_def pret_def)
    ultimately show ?thesis using opt_step [OF e_old(1) e old_stored, of "[]" s] diff [OF v k] True by simp
  next
    case False
    then have "k \<in> gkeys (optDiffTask d)" using tasks(1) by (simp add: gget_Some_key)
    then show ?thesis using \<open>if k \<in> gkeys (optDiffTask d) then _ else _\<close> by simp
  qed
  moreover have "keeps (?q k) (pfor (\<lambda>(k, v). HandleInterfaceDiff R new old k v) (intfDiffTask d))"
    by (auto intro!: still HandleInterfaceDiff_other split: prod.split)
  then have "?q k t = ?q k u" using keepsD d(3) by metis
  ultimately show ?thesis using e by simp
qed

end

text \<open>
  C6: a live commit and a reboot agree on the optical modules. The transport database holds the modules of the old configuration, the
  difference reports the changed leaves of every module, and \<open>handleDiff\<close> ends without an error: then the database holds
  for every module what \<open>ConfigureTransport\<close> writes for the new configuration, whatever else
  the difference contains.
\<close>

theorem handleDiff_agrees_with_reboot:
  assumes R: "redis_server R view" and before: "modules_stored old (view s)"
    and ok: "gomap_ok (OpticalModule old)" "gomap_ok (OpticalModule new)" "gkeys (OpticalModule new) = gkeys (OpticalModule old)"
    and fill: "\<forall>(k, v) \<in> set (OpticalModule new). HasPrefix k ''Opt'' \<and> (\<exists>v'. FillTransportDefaultConfig v new = Inr v')"
    and diff: "\<And>k v v'. gget (OpticalModule old) k = Some v \<Longrightarrow> gget (OpticalModule new) k = Some v' \<Longrightarrow>
      tasks_describe (object_tasks ''optical-modules'' k diff) v v'"
    and run: "handleDiff R new old diff s = (Inr (reboot, None), t)"
  shows "\<forall>(k, v) \<in> set (OpticalModule new). \<exists>e. module_entry new k v = Inr e \<and>
    decode_view (view t TRANSPORT_CONFIG_DB (transport_hash k)) = stored_view e"
  using redis_server.handleDiff_modules [OF R before ok fill diff run] in_set_gget [OF ok(2)] by blast

definition prbs_transponder :: PacketTransponder where
  "prbs_transponder = sample_transponder\<lparr>OpticalModule := [(''Opt1'', zero_OpticalModule\<lparr>om_Name := Some ''Opt1'', om_Prbs := Some True\<rparr>)]\<rparr>"

definition prbs_diff :: Notification where
  "prbs_diff = \<lparr>nt_Update = [([\<lparr>pe_Name = ''optical-modules'', pe_Key = []\<rparr>, \<lparr>pe_Name = ''optical-module'', pe_Key = [(''name'', ''Opt1'')]\<rparr>,
     \<lparr>pe_Name = ''config'', pe_Key = []\<rparr>, \<lparr>pe_Name = ''prbs'', pe_Key = []\<rparr>], Some (BoolVal True))], nt_Delete = []\<rparr>"

lemma prbs_tasks: "object_tasks ''optical-modules'' ''Opt1'' prbs_diff = [sample_prbs_task (Some (BoolVal True))]"
  by (simp add: object_tasks_def prbs_diff_def of_object_def elem_name_key_def leaf_task_def sample_prbs_task_def)

lemma prbs_run: "\<exists>t. handleDiff mem_redis prbs_transponder sample_transponder prbs_diff s = (Inr (False, None), t)"
proof -
  have "sort_tasks prbs_diff = Inr \<lparr>optDiffTask = [(''Opt1'', [sample_prbs_task (Some (BoolVal True))])], intfDiffTask = [], portDiffTask = []\<rparr>"
    by (simp add: sort_tasks_def prbs_diff_def add_task_def append_task_def elem_name_key_def sample_prbs_task_def Let_def)
  moreover have "\<exists>t. HandleOptDiff mem_redis ''Opt1'' [sample_prbs_task (Some (BoolVal True))] s = (Inr (), t)"
    by (simp add: HandleOptDiff_def HasPrefix_def sample_prbs_run mem_client mem_ModEntry_ok sample_prbs_entry prog_simps)
  ultimately show ?thesis by (auto simp: handleDiff_def pbind_def pseq_def plift_def ptry_def pret_def)
qed

lemma prbs_fill: "\<exists>v. FillTransportDefaultConfig (zero_OpticalModule\<lparr>om_Name := Some ''Opt1'', om_Prbs := Some True\<rparr>) prbs_transponder = Inr v"
proof -
  let ?t = "default_leaves (zero_OpticalModule\<lparr>om_Name := Some ''Opt1'', om_Prbs := Some True\<rparr>) prbs_transponder"
  have "om_Name ?t = Some ''Opt1''" "om_ModulationType ?t = DP_16QAM"
    by (simp_all add: default_leaves_def zero_OpticalModule_def)
  moreover have "speeds_known ''Opt1'' ch prbs_transponder" for ch
    by (simp add: speeds_known_def connected_def prbs_transponder_def sample_transponder_def sample_interface_def)
  ultimately have "\<exists>a. calculateOccupancy ch ?t prbs_transponder = Inr a" for ch
    by (simp add: calculateOccupancy_def total_capacity_def occupancy_loop_total)
  then show ?thesis unfolding Fill_Inr by blast
qed

lemma handleDiff_agrees_with_reboot_witness:
  "\<exists>e s t f. module_entry sample_transponder ''Opt1'' (zero_OpticalModule\<lparr>om_Name := Some ''Opt1''\<rparr>) = Inr e \<and> s = entry_db (transport_hash ''Opt1'') e \<and>
     handleDiff mem_redis prbs_transponder sample_transponder prbs_diff s = (Inr (False, None), t) \<and>
     module_entry prbs_transponder ''Opt1'' (zero_OpticalModule\<lparr>om_Name := Some ''Opt1'', om_Prbs := Some True\<rparr>) = Inr f \<and>
     decode_view (mem_view t TRANSPORT_CONFIG_DB (transport_hash ''Opt1'')) = stored_view f"
proof -
  let ?v = "zero_OpticalModule\<lparr>om_Name := Some ''Opt1''\<rparr>" and ?w = "zero_OpticalModule\<lparr>om_Name := Some ''Opt1'', om_Prbs := Some True\<rparr>"
  obtain e where e: "module_entry sample_transponder ''Opt1'' ?v = Inr e"
    using Fill_sample sample_index module_entry_iff [of sample_transponder "''Opt1''" ?v] by blast
  let ?s = "entry_db (transport_hash ''Opt1'') e"
  obtain t where t: "handleDiff mem_redis prbs_transponder sample_transponder prbs_diff ?s = (Inr (False, None), t)" using prbs_run by blast
  have mods: "OpticalModule prbs_transponder = [(''Opt1'', ?w)]" by (simp add: prbs_transponder_def)
  have stored: "modules_stored sample_transponder (mem_view ?s)"
    using e by (simp add: modules_stored_def sample_modules mem_view_def mem_hash_def entry_db_def)
  have same: "leaf_value ?v p = leaf_value ?w p" if "p \<noteq> ''prbs''" for p using that by (simp add: leaf_value_def)
  have prbs: "leaf_value ?w ''prbs'' = Some (BoolVal True)" by (simp add: leaf_value_simps)
  have describe: "tasks_describe [sample_prbs_task (Some (BoolVal True))] ?v ?w"
    unfolding tasks_describe_def
  proof (intro conjI ballI impI)
    fix t assume "t \<in> set [sample_prbs_task (Some (BoolVal True))]"
    then have t: "t = sample_prbs_task (Some (BoolVal True))" by simp
    show "dt_Value t = leaf_value ?w (task_path t)" unfolding t sample_prbs_path prbs by (simp add: sample_prbs_task_def)
  next
    fix p assume "leaf_value ?v p \<noteq> leaf_value ?w p"
    with same have "p = ''prbs''" by blast
    then show "\<exists>t \<in> set [sample_prbs_task (Some (BoolVal True))]. task_path t = p" using sample_prbs_path by simp
  qed
  have "\<forall>(k, v) \<in> set (OpticalModule prbs_transponder). \<exists>f. module_entry prbs_transponder k v = Inr f \<and>
      decode_view (mem_view t TRANSPORT_CONFIG_DB (transport_hash k)) = stored_view f"
  proof (rule handleDiff_agrees_with_reboot [OF mem.redis_server_axioms stored _ _ _ _ _ t])
    show "\<forall>(k, v) \<in> set (OpticalModule prbs_transponder). HasPrefix k ''Opt'' \<and> (\<exists>v'. FillTransportDefaultConfig v prbs_transponder = Inr v')"
      using prbs_fill by (simp add: mods HasPrefix_def)
    show "tasks_describe (object_tasks ''optical-modules'' k prbs_diff) v v'"
      if "gget (OpticalModule sample_transponder) k = Some v" "gget (OpticalModule prbs_transponder) k = Some v'" for k v v'
      using that describe prbs_tasks by (auto simp: sample_modules mods split: if_splits)
  qed (simp_all add: sample_modules mods gomap_ok_def)
  with e t show ?thesis by (auto simp: mods)
qed

end
