(* ===== verification/Gnmi_Tree.thy ===== *)
theory Gnmi_Tree
  imports System "HOL-Library.Multiset"
begin

section \<open>The configuration tree of the gNMI server (pkg/gnmi)\<close>

text \<open>
  The gNMI server works on the configuration as a JSON tree, \<open>map[string]interface{}\<close>, which it
  changes in place. The tree is a datatype here and a change is a new tree: the server never keeps
  two references to a subtree, so that the functional update at a path is what the
  assignment through a pointer does. A key of a list entry that parses as a number is stored as a
  number, and entries are compared by what \<open>fmt.Sprintf("%v", x)\<close> prints, so the
  theory starts with \<open>strconv.ParseFloat(s, 64)\<close> and the shortest decimal of a \<open>float64\<close>.
\<close>

subsection \<open>float64 and its text\<close>

text \<open>A finite value is a sign and a magnitude: there are two zeros.\<close>

datatype gofloat = Fin bool rat | Infinite bool | NaN

definition pow2 :: "int \<Rightarrow> rat" where
  "pow2 e = (if 0 \<le> e then 2 ^ nat e else 1 / 2 ^ nat (- e))"

definition pow10 :: "int \<Rightarrow> rat" where
  "pow10 e = (if 0 \<le> e then 10 ^ nat e else 1 / 10 ^ nat (- e))"

text \<open>The floor of the binary and the decimal logarithm of a positive number.\<close>

definition flog2 :: "rat \<Rightarrow> int" where
  "flog2 x = (if 1 \<le> x then int (ilog2 (nat \<lfloor>x\<rfloor>)) else - int (ilog2 (nat (\<lceil>1 / x\<rceil> - 1)) + 1))"

definition flog10 :: "rat \<Rightarrow> int" where
  "flog10 x = (if 1 \<le> x then int (length (itoa_nat (nat \<lfloor>x\<rfloor>))) - 1 else - int (length (itoa_nat (nat (\<lceil>1 / x\<rceil> - 1)))))"

text \<open>Rounding to the nearest \<open>float64\<close>, gradual underflow included; from \<open>2 ^ 1024\<close> on it is out of range.\<close>

definition round64 :: "rat \<Rightarrow> rat" where
  "round64 x =
     (if x = 0 then 0
      else let u = pow2 (max (flog2 x - 52) (- 1074)) in of_int (round_even (x / u)) * u)"

definition lower_char :: "char \<Rightarrow> char" where
  "lower_char c = (let n = (of_char c :: nat) in if 65 \<le> n \<and> n \<le> 90 then char_of (n + 32) else c)"

definition special_float :: "string \<Rightarrow> gofloat option" where
  "special_float s =
     (let l = map lower_char s in
      if l \<in> {''inf'', ''+inf'', ''infinity'', ''+infinity''} then Some (Infinite False)
      else if l \<in> {''-inf'', ''-infinity''} then Some (Infinite True)
      else if l = ''nan'' then Some NaN
      else None)"

definition parse_sign :: "string \<Rightarrow> bool \<times> string" where
  "parse_sign s =
     (case s of c # cs \<Rightarrow> if c = CHR ''-'' then (True, cs) else if c = CHR ''+'' then (False, cs) else (False, s)
      | [] \<Rightarrow> (False, []))"

definition parse_mantissa :: "string \<Rightarrow> rat option" where
  "parse_mantissa s =
     (case split_char (CHR ''.'') s of
        [a] \<Rightarrow> map_option of_nat (parse_digits a)
      | [a, b] \<Rightarrow> map_option (\<lambda>n. of_nat n / 10 ^ length b) (parse_digits (a @ b))
      | _ \<Rightarrow> None)"

definition parse_exponent :: "string \<Rightarrow> int option" where
  "parse_exponent s =
     (let (neg, ds) = parse_sign s in map_option (\<lambda>n. if neg then - int n else int n) (parse_digits ds))"

text \<open>The decimal syntax: sign, digits with at most one point, exponent. \<open>None\<close> stands for a syntax or range error.\<close>

definition decimal_value :: "string \<Rightarrow> (bool \<times> rat) option" where
  "decimal_value s =
     (let (neg, body) = parse_sign s;
          m = takeWhile (\<lambda>c. lower_char c \<noteq> CHR ''e'') body;
          e = drop (length m) body
      in case (parse_mantissa m, if e = [] then Some 0 else parse_exponent (tl e)) of
           (Some x, Some i) \<Rightarrow> Some (neg, x * pow10 i)
         | _ \<Rightarrow> None)"

definition parse_decimal :: "string \<Rightarrow> gofloat option" where
  "parse_decimal s =
     (case decimal_value s of
        None \<Rightarrow> None
      | Some (neg, x) \<Rightarrow> (let r = round64 x in if r < 2 ^ 1024 then Some (Fin neg r) else None))"

definition parse_float :: "string \<Rightarrow> gofloat option" where
  "parse_float s = (case special_float s of Some f \<Rightarrow> Some f | None \<Rightarrow> parse_decimal s)"

text \<open>
  The shortest decimal that is read back as \<open>x\<close>: its digits and the position of the point. Of two
  candidates with \<open>n\<close> digits the nearer one is taken.
\<close>

definition decimal_of :: "nat \<Rightarrow> rat \<Rightarrow> nat option" where
  "decimal_of n x =
     (let u = pow10 (flog10 x + 1 - int n); lo = \<lfloor>x / u\<rfloor>; hi = \<lceil>x / u\<rceil>;
          good = (\<lambda>v. round64 (of_int v * u) = x)
      in if good lo \<and> good hi then Some (nat (round_even (x / u)))
         else if good lo then Some (nat lo) else if good hi then Some (nat hi) else None)"

fun shortest_from :: "nat \<Rightarrow> nat \<Rightarrow> rat \<Rightarrow> nat \<times> nat" where
  "shortest_from 0 n x = (nat \<lfloor>x / pow10 (flog10 x + 1 - int n)\<rfloor>, n)"
| "shortest_from (Suc fuel) n x = (case decimal_of n x of Some v \<Rightarrow> (v, n) | None \<Rightarrow> shortest_from fuel (Suc n) x)"

definition shortest :: "rat \<Rightarrow> string \<times> int" where
  "shortest x =
     (if x = 0 then ([], 0)
      else let (v, n) = shortest_from 17 1 x; ds = itoa_nat v
        in (rev (dropWhile (\<lambda>c. c = CHR ''0'') (rev ds)), flog10 x + 1 + int (length ds) - int n))"

definition zeros :: "nat \<Rightarrow> string" where "zeros n = replicate n (CHR ''0'')"

definition format_plain :: "string \<Rightarrow> int \<Rightarrow> string" where
  "format_plain ds dp =
     (let whole = (if 0 < dp then take (nat dp) ds @ zeros (nat dp - length ds) else ''0'');
          frac = (if 0 < dp then drop (nat dp) ds else zeros (nat (- dp)) @ ds)
      in if drop (nat dp) ds = [] then whole else whole @ ''.'' @ frac)"

definition format_exp :: "nat \<Rightarrow> string \<Rightarrow> int \<Rightarrow> string" where
  "format_exp width ds dp =
     (let e = dp - 1; a = itoa_nat (nat (abs e)) in
      take 1 ds @ (if length ds > 1 then ''.'' @ drop 1 ds else []) @ ''e'' @ (if e < 0 then ''-'' else ''+'') @
      zeros (width - length a) @ a)"

text \<open>\<open>%v\<close>: the format \<open>g\<close> with the shortest precision.\<close>

definition format_v :: "gofloat \<Rightarrow> string" where
  "format_v f =
     (case f of NaN \<Rightarrow> ''NaN''
      | Infinite neg \<Rightarrow> if neg then ''-Inf'' else ''+Inf''
      | Fin neg x \<Rightarrow>
          (if neg then ''-'' else []) @
          (let (ds, dp) = shortest x in if dp - 1 < - 4 \<or> 6 \<le> dp - 1 then format_exp 2 ds dp else format_plain ds dp))"

text \<open>\<open>encoding/json\<close> writes the point in a wider range and refuses the values JSON has no text for.\<close>

definition format_json :: "gofloat \<Rightarrow> string res" where
  "format_json f =
     (case f of Fin neg x \<Rightarrow>
          Inr ((if neg then ''-'' else []) @
            (let (ds, dp) = shortest x in
             if x \<noteq> 0 \<and> (x < 1 / 10 ^ 6 \<or> 10 ^ 21 \<le> x)
             then format_exp (if x < 1 then 1 else 2) ds dp else format_plain ds dp))
      | _ \<Rightarrow> Inl (Ext ''json: unsupported value''))"

subsection \<open>JSON trees\<close>

datatype json =
    JObj "(string \<times> json) list"
  | JArr "json list"
  | JStr string
  | JInt int
  | JFloat gofloat
  | JBool bool
  | JNull

type_synonym tree = "json gomap"

text \<open>\<open>fmt.Sprintf("%v", x)\<close>.\<close>

fun sprint_v :: "json \<Rightarrow> string" where
  "sprint_v (JObj m) = ''map['' @ Join (map (\<lambda>(k, v). k @ '':'' @ sprint_v v) m) '' '' @ '']''"
| "sprint_v (JArr l) = ''['' @ Join (map sprint_v l) '' '' @ '']''"
| "sprint_v (JStr s) = s"
| "sprint_v (JInt i) = itoa i"
| "sprint_v (JFloat f) = format_v f"
| "sprint_v (JBool b) = (if b then ''true'' else ''false'')"
| "sprint_v JNull = ''<nil>''"

text \<open>\<open>json.Marshal\<close>: the keys of an object in sorted order.\<close>

fun seq_res :: "'a res list \<Rightarrow> 'a list res" where
  "seq_res [] = Inr []"
| "seq_res (r # rs) = res_bind r (\<lambda>x. res_bind (seq_res rs) (\<lambda>xs. Inr (x # xs)))"

fun marshal :: "json \<Rightarrow> string res" where
  "marshal (JObj m) =
     res_bind (seq_res (map snd (sort_key fst (map (\<lambda>(k, v). (k, res_bind (marshal v) (\<lambda>x. Inr (json_string k @ '':'' @ x)))) m))))
       (\<lambda>fs. Inr (''{'' @ Join fs '','' @ ''}''))"
| "marshal (JArr l) = res_bind (seq_res (map marshal l)) (\<lambda>xs. Inr (json_list xs))"
| "marshal (JStr s) = Inr (json_string s)"
| "marshal (JInt i) = Inr (itoa i)"
| "marshal (JFloat f) = format_json f"
| "marshal (JBool b) = Inr (if b then ''true'' else ''false'')"
| "marshal JNull = Inr ''null''"

subsection \<open>Maps that may be nil\<close>

text \<open>
  A variable of type \<open>map[string]interface{}\<close> is a tree or nil. Reading a nil map finds nothing,
  deleting from it does nothing, assigning to it panics.
\<close>

type_synonym mapvar = "tree option"

fun mget :: "mapvar \<Rightarrow> string \<Rightarrow> json option" where
  "mget None k = None"
| "mget (Some m) k = gget m k"

fun mset_key :: "mapvar \<Rightarrow> string \<Rightarrow> json \<Rightarrow> mapvar res" where
  "mset_key None k v = Inl (Panic ''assignment to entry in nil map'')"
| "mset_key (Some m) k v = Inr (Some (gput k v m))"

fun mdelete :: "mapvar \<Rightarrow> string \<Rightarrow> mapvar" where
  "mdelete None k = None"
| "mdelete (Some m) k = Some (gdel k m)"

subsection \<open>Keyed list entries\<close>

text \<open>An absent or empty \<open>Key\<close> of a decoded path element is a nil map.\<close>

definition nil_key :: "PathElem \<Rightarrow> bool" where
  "nil_key e \<longleftrightarrow> pe_Key e = []"

text \<open>The loop over the keys of the path element: \<open>None\<close> when the entry lacks one of them.\<close>

fun key_match :: "string gomap \<Rightarrow> tree \<Rightarrow> bool option" where
  "key_match [] m = Some True"
| "key_match ((k, v) # ks) m =
     (case gget m k of
        None \<Rightarrow> None
      | Some attr \<Rightarrow> if v \<noteq> sprint_v attr then Some False else key_match ks m)"

text \<open>The search of a keyed list: the index of the entry, no entry, or a list that cannot be searched.\<close>

datatype search_result = Found nat | Missing | Broken

fun search_entry :: "string gomap \<Rightarrow> nat \<Rightarrow> json list \<Rightarrow> search_result" where
  "search_entry ks i [] = Missing"
| "search_entry ks i (JObj m # ns) =
     (case key_match ks m of None \<Rightarrow> Broken | Some True \<Rightarrow> Found i | Some False \<Rightarrow> search_entry ks (Suc i) ns)"
| "search_entry ks i (n # ns) = Broken"

definition key_value :: "string \<Rightarrow> json" where
  "key_value v = (case parse_float v of None \<Rightarrow> JStr v | Some f \<Rightarrow> JFloat f)"

definition new_entry :: "string gomap \<Rightarrow> json" where
  "new_entry ks = JObj (gmap_entries (\<lambda>k v. key_value v) ks)"

text \<open>
  \<open>getKeyedListEntry\<close> returns the entry itself; here its index in the list under the name of the element,
  with the node as the call leaves it. \<open>None\<close> is the nil map.
\<close>

definition getKeyedListEntry :: "mapvar \<Rightarrow> PathElem \<Rightarrow> bool \<Rightarrow> (nat option \<times> mapvar) res" where
  "getKeyedListEntry node e create =
     (case mget node (pe_Name e) of
        None \<Rightarrow>
          if \<not> create then Inr (None, node)
          else res_bind (mset_key node (pe_Name e) (JArr [new_entry (pe_Key e)])) (\<lambda>node. Inr (Some 0, node))
      | Some (JArr l) \<Rightarrow>
          (case search_entry (pe_Key e) 0 l of
             Found i \<Rightarrow> Inr (Some i, node)
           | Broken \<Rightarrow> Inr (None, node)
           | Missing \<Rightarrow>
               if \<not> create then Inr (None, node)
               else res_bind (mset_key node (pe_Name e) (JArr (l @ [new_entry (pe_Key e)]))) (\<lambda>node. Inr (Some (length l), node)))
      | Some _ \<Rightarrow> Inr (None, node))"

text \<open>The loop of \<open>deleteKeyedListEntry\<close> is the same search; the last entry takes the place of the deleted one.\<close>

definition deleteKeyedListEntry :: "mapvar \<Rightarrow> PathElem \<Rightarrow> bool \<times> mapvar" where
  "deleteKeyedListEntry node e =
     (case mget node (pe_Name e) of
        Some (JArr l) \<Rightarrow>
          (case search_entry (pe_Key e) 0 l of
             Found i \<Rightarrow>
               if length l = 1 then (True, mdelete node (pe_Name e))
               else (True, map_option (gput (pe_Name e) (JArr (butlast (l[i := last l])))) node)
           | _ \<Rightarrow> (False, node))
      | _ \<Rightarrow> (False, node))"

subsection \<open>Walking down a path\<close>

text \<open>Of a schema only the directory is used.\<close>

datatype yang_entry = YangEntry (Dir: "(string \<times> yang_entry) list")

text \<open>
  What \<open>curNode\<close> holds: the nil interface, a nil map, which is a map and not the nil interface,
  or a value of the tree.
\<close>

datatype cursor = NilInterface | NilMap | At json

text \<open>Where a child is: under its name, or an entry of the list under its name.\<close>

datatype place = Nowhere | Field | Entry nat

definition child_at :: "mapvar \<Rightarrow> string \<Rightarrow> place \<Rightarrow> cursor" where
  "child_at node name p =
     (case p of
        Nowhere \<Rightarrow> NilMap
      | Field \<Rightarrow> (case mget node name of None \<Rightarrow> NilInterface | Some JNull \<Rightarrow> NilInterface | Some x \<Rightarrow> At x)
      | Entry i \<Rightarrow> (case mget node name of Some (JArr l) \<Rightarrow> At (l ! i) | _ \<Rightarrow> NilInterface))"

text \<open>The node after its child has been changed in place.\<close>

definition put_child :: "mapvar \<Rightarrow> string \<Rightarrow> place \<Rightarrow> cursor \<Rightarrow> mapvar" where
  "put_child node name p c =
     (case (p, c) of
        (Field, At x) \<Rightarrow> map_option (gput name x) node
      | (Entry i, At x) \<Rightarrow>
          (case mget node name of Some (JArr l) \<Rightarrow> map_option (gput name (JArr (l[i := x]))) node | _ \<Rightarrow> node)
      | _ \<Rightarrow> node)"

text \<open>\<open>getChildNode\<close>: \<open>None\<close> when the schema has no such child, otherwise the child's schema, its place and the node.\<close>

definition getChildNode :: "mapvar \<Rightarrow> yang_entry \<Rightarrow> PathElem \<Rightarrow> bool \<Rightarrow> (yang_entry \<times> place \<times> mapvar) option res" where
  "getChildNode node schema e create =
     (case gget (Dir schema) (pe_Name e) of
        None \<Rightarrow> Inr None
      | Some next \<Rightarrow>
          if nil_key e then
            (case mget node (pe_Name e) of
               Some x \<Rightarrow> Inr (Some (next, Field, node))
             | None \<Rightarrow>
                 if create then res_bind (mset_key node (pe_Name e) (JObj [])) (\<lambda>node. Inr (Some (next, Field, node)))
                 else Inr (Some (next, Field, node)))
          else
            res_bind (getKeyedListEntry node e create) (\<lambda>(i, node).
              Inr (Some (next, (case i of None \<Rightarrow> Nowhere | Some i \<Rightarrow> Entry i), node))))"

text \<open>The type assertion \<open>curNode.(map[string]interface{})\<close>.\<close>

fun as_map :: "cursor \<Rightarrow> mapvar option" where
  "as_map NilMap = Some None"
| "as_map (At (JObj m)) = Some (Some m)"
| "as_map _ = None"

fun of_map :: "mapvar \<Rightarrow> cursor" where
  "of_map None = NilMap"
| "of_map (Some m) = At (JObj m)"

subsection \<open>Searching a keyed list\<close>

definition skips :: "string gomap \<Rightarrow> json list \<Rightarrow> bool" where
  "skips ks l \<longleftrightarrow> (\<forall>n \<in> set l. \<exists>m. n = JObj m \<and> key_match ks m = Some False)"

lemma key_match_True:
  "key_match ks m = Some True \<longleftrightarrow> (\<forall>(k, v) \<in> set ks. \<exists>a. gget m k = Some a \<and> sprint_v a = v)"
  by (induction ks) (auto split: option.splits if_splits)

lemma search_entry_skip: "skips ks l1 \<Longrightarrow> search_entry ks j (l1 @ l2) = search_entry ks (j + length l1) l2"
  by (induction l1 arbitrary: j) (auto simp: skips_def)

lemma search_entry_Missing: "search_entry ks j l = Missing \<longleftrightarrow> skips ks l"
  by (induction ks j l rule: search_entry.induct) (auto simp: skips_def split: option.splits bool.splits)

lemma search_entry_FoundD:
  "search_entry ks j l = Found i \<Longrightarrow>
     \<exists>l1 m l2. l = l1 @ JObj m # l2 \<and> i = j + length l1 \<and> skips ks l1 \<and> key_match ks m = Some True"
proof (induction ks j l rule: search_entry.induct)
  case (2 ks j m ns)
  then consider "key_match ks m = Some True" "i = j" | "key_match ks m = Some False" "search_entry ks (Suc j) ns = Found i"
    by (auto split: option.splits bool.splits)
  then show ?case
  proof cases
    case 1
    then show ?thesis by (intro exI [of _ "[]"] exI [of _ m] exI [of _ ns]) (simp add: skips_def)
  next
    case 2
    then obtain l1 m' l2 where
      "ns = l1 @ JObj m' # l2 \<and> i = Suc j + length l1 \<and> skips ks l1 \<and> key_match ks m' = Some True"
      using "2.IH" [of False] by auto
    with 2 show ?thesis by (intro exI [of _ "JObj m # l1"] exI [of _ m'] exI [of _ l2]) (auto simp: skips_def)
  qed
qed simp_all

lemma search_entry_Found:
  "search_entry ks 0 l = Found i \<longleftrightarrow>
     (\<exists>l1 m l2. l = l1 @ JObj m # l2 \<and> i = length l1 \<and> skips ks l1 \<and> key_match ks m = Some True)"
  using search_entry_FoundD [of ks 0 l i] by (auto simp: search_entry_skip)

subsection \<open>Deleting an entry\<close>

definition list_entries :: "mapvar \<Rightarrow> string \<Rightarrow> json multiset" where
  "list_entries node name = (case mget node name of Some (JArr l) \<Rightarrow> mset l | _ \<Rightarrow> {#})"

lemma mset_butlast_update:
  assumes "i < length l"
  shows "add_mset (l ! i) (mset (butlast (l[i := last l]))) = mset l"
proof -
  have ne: "l \<noteq> []" using assms by auto
  have "last (l[i := last l]) = last l"
    using assms ne by (simp add: last_conv_nth nth_list_update)
  then have "mset (l[i := last l]) = add_mset (last l) (mset (butlast (l[i := last l])))"
    using ne append_butlast_last_id [of "l[i := last l]"] by (metis add_mset_add_single length_greater_0_conv length_list_update mset.simps(1,2) mset_append)
  moreover have "mset (l[i := last l]) = add_mset (last l) (mset l - {#l ! i#})"
    using assms by (simp add: mset_update)
  ultimately have "mset (butlast (l[i := last l])) = mset l - {#l ! i#}" by simp
  then show ?thesis using assms by (simp add: nth_mem_mset)
qed

lemma delete_found:
  assumes "gget m (pe_Name e) = Some (JArr l)" "search_entry (pe_Key e) 0 l = Found i"
  shows "\<exists>m'. deleteKeyedListEntry (Some m) e = (True, Some m') \<and>
    add_mset (l ! i) (list_entries (Some m') (pe_Name e)) = mset l \<and> (\<forall>k. k \<noteq> pe_Name e \<longrightarrow> gget m' k = gget m k)"
proof -
  from assms(2) have i: "i < length l" by (auto simp: search_entry_Found)
  show ?thesis
  proof (cases "length l = 1")
    case True
    then obtain x where l: "l = [x]" by (cases l) auto
    show ?thesis using assms i unfolding l by (simp add: deleteKeyedListEntry_def list_entries_def)
  next
    case False
    then show ?thesis using assms mset_butlast_update [OF i] by (simp add: deleteKeyedListEntry_def list_entries_def)
  qed
qed

text \<open>
  Deleting a list entry. The function reports a deletion exactly when the list under the name has an entry
  with the key and every entry before it can be searched; then this one entry is gone from the list
  (the last one takes its place), and nothing else of the node has changed. Otherwise the node is as it was.
\<close>

lemma deleteKeyedListEntry_removes:
  assumes "deleteKeyedListEntry (Some m) e = (deleted, node)"
  shows "(deleted \<longleftrightarrow> (\<exists>l1 x l2. gget m (pe_Name e) = Some (JArr (l1 @ JObj x # l2)) \<and>
            skips (pe_Key e) l1 \<and> key_match (pe_Key e) x = Some True)) \<and>
    (\<not> deleted \<longrightarrow> node = Some m) \<and>
    (deleted \<longrightarrow> (\<exists>x. add_mset (JObj x) (list_entries node (pe_Name e)) = list_entries (Some m) (pe_Name e) \<and>
       key_match (pe_Key e) x = Some True)) \<and>
    (\<forall>k. k \<noteq> pe_Name e \<longrightarrow> mget node k = gget m k)"
proof (cases "\<exists>l i. gget m (pe_Name e) = Some (JArr l) \<and> search_entry (pe_Key e) 0 l = Found i")
  case True
  then obtain l i where l: "gget m (pe_Name e) = Some (JArr l)" "search_entry (pe_Key e) 0 l = Found i" by blast
  then obtain l1 x l2 where x: "l = l1 @ JObj x # l2" "i = length l1" "skips (pe_Key e) l1" "key_match (pe_Key e) x = Some True"
    by (auto simp: search_entry_Found)
  from delete_found [OF l] assms x(1,2) obtain m' where "deleted" "node = Some m'"
      "add_mset (JObj x) (list_entries (Some m') (pe_Name e)) = mset l" "\<forall>k. k \<noteq> pe_Name e \<longrightarrow> gget m' k = gget m k"
    by auto
  with l x show ?thesis by (auto simp: list_entries_def)
next
  case False
  then have "deleteKeyedListEntry (Some m) e = (False, Some m)"
    by (auto simp: deleteKeyedListEntry_def split: option.split json.split search_result.split)
  with assms False show ?thesis by (auto simp: search_entry_Found)
qed

definition sample_list :: json where
  "sample_list = JArr [JObj [(''name'', JStr ''Port1'')], JObj [(''name'', JStr ''Port2'')], JObj [(''name'', JStr ''Port3'')]]"

end
