(* ===== verification/Gnmi_Server.thy ===== *)
theory Gnmi_Server
  imports Gnmi_Tree Commit
begin

section \<open>The gNMI server (pkg/gnmi, cmd/gnmi)\<close>

text \<open>
  \<open>Set\<close> turns the configuration into a JSON tree, applies the deletes, replaces and updates of a
  request to it one after the other, hands the configuration read back from the tree to a
  callback after each, and keeps the last one. The callback of \<open>cmd/gnmi\<close> writes the
  configuration file of the controller. \<open>Get\<close> reads nodes. The ygot library, the value conversions and
  the generated \<open>Unmarshal\<close> are a parameter (\<open>ygot_lib\<close> and the fields of the model); so is the clock.
\<close>

subsection \<open>Messages\<close>

datatype Encoding = JSON | BYTES | PROTO | ASCII | JSON_IETF

datatype DataType = TypeAll | TypeConfig | TypeState | TypeOperational

datatype Operation = DELETE | REPLACE | UPDATE

text \<open>A \<open>TypedValue\<close>: JSON bytes, or a value that converts to or from a scalar.\<close>

datatype gnmi_value = JsonIetfVal string | JsonVal string | StringValue string | ScalarValue json

text \<open>A \<open>Path\<close>; \<open>Element\<close> is the deprecated form. In a decoded message an empty slice is nil.\<close>

record gnmi_path =
  gp_Origin :: string
  gp_Element :: "string list"
  gp_Elem :: "PathElem list"

definition pbRootPath :: gnmi_path where
  "pbRootPath = \<lparr>gp_Origin = [], gp_Element = [], gp_Elem = []\<rparr>"

record ModelDataEntry =
  md_Name :: string
  md_Organization :: string
  md_Version :: string

definition ModelData :: "ModelDataEntry list" where
  "ModelData = [\<lparr>md_Name = ''packet-transport'',
     md_Organization = ''Nippon Telegraph and Telephone Corporation'', md_Version = ''0.7.0''\<rparr>]"

definition supportedEncodings :: "Encoding list" where
  "supportedEncodings = [JSON, JSON_IETF]"

record UpdateResult =
  ur_Path :: "gnmi_path option"
  ur_Op :: Operation

record SetRequest =
  sr_Prefix :: "gnmi_path option"
  sr_Delete :: "gnmi_path list"
  sr_Replace :: "(gnmi_path option \<times> gnmi_value option) list"
  sr_Update :: "(gnmi_path option \<times> gnmi_value option) list"

record SetResponse =
  sp_Prefix :: "gnmi_path option"
  sp_Response :: "UpdateResult list"

record GetRequest =
  gr_Prefix :: "gnmi_path option"
  gr_Path :: "gnmi_path list"
  gr_Type :: DataType
  gr_Encoding :: Encoding
  gr_UseModels :: "ModelDataEntry list"

record GetNotification =
  gn_Timestamp :: int
  gn_Prefix :: "gnmi_path option"
  gn_Path :: gnmi_path
  gn_Val :: gnmi_value

record CapabilityResponse =
  cr_SupportedModels :: "ModelDataEntry list"
  cr_SupportedEncodings :: "Encoding list"
  cr_GNMIVersion :: string

text \<open>\<open>status.Errorf(code, ...)\<close>; a panic is no error.\<close>

definition grpc_status :: "string \<Rightarrow> string \<Rightarrow> err" where
  "grpc_status code f = Errorf f [code]"

definition wrap_status :: "string \<Rightarrow> string \<Rightarrow> 'a res \<Rightarrow> 'a res" where
  "wrap_status code f r = (case r of Inl e \<Rightarrow> if aborts r then Inl e else Inl (grpc_status code f) | Inr x \<Rightarrow> Inr x)"

subsection \<open>The library and the model\<close>

text \<open>A node of the configuration, as its dynamic type tells: nil, a struct, a pointer to a scalar, an enumeration.\<close>

datatype 'g ynode = NilNode | StructNode 'g | ScalarPtr json | EnumLeaf string int | OtherLeaf string

record ('t, 'g) ygot_lib =
  yg_NewNode :: "'t \<Rightarrow> gnmi_path \<Rightarrow> 'g ynode res"
  yg_GetNode :: "yang_entry \<Rightarrow> 'g \<Rightarrow> gnmi_path \<Rightarrow> 'g ynode res"
  yg_Validate :: "'g \<Rightarrow> unit res"
  yg_IETFJSON :: "bool \<Rightarrow> 'g \<Rightarrow> tree res"
  yg_InternalJSON :: "'g \<Rightarrow> tree res"
  yg_ToScalar :: "gnmi_value \<Rightarrow> json res"
  yg_FromScalar :: "json \<Rightarrow> gnmi_value res"

record ('t, 'g) gnmi_model =
  gm_modelData :: "ModelDataEntry list"
  gm_structRootType :: 't
  gm_schemaTreeRoot :: yang_entry
  gm_jsonUnmarshaler :: "string \<Rightarrow> 'g \<Rightarrow> 'g res"
  gm_enumData :: "(string \<times> (int \<times> string) list) list"

definition NewConfigStruct :: "('t, 'g) ygot_lib \<Rightarrow> ('t, 'g) gnmi_model \<Rightarrow> string option \<Rightarrow> 'g res" where
  "NewConfigStruct L M jsonConfig =
     (case yg_NewNode L (gm_structRootType M) pbRootPath of
        Inl e \<Rightarrow> Inl (Errorf ''cannot create root node: %v'' [])
      | Inr (StructNode rootStruct) \<Rightarrow>
          (case jsonConfig of None \<Rightarrow> Inr rootStruct
           | Some b \<Rightarrow> res_bind (gm_jsonUnmarshaler M b rootStruct) (\<lambda>g. res_bind (yg_Validate L g) (\<lambda>_. Inr g)))
      | Inr _ \<Rightarrow> Inl (Errorf ''root node is not a ygot.ValidatedGoStruct'' []))"

definition SupportedModels :: "('t, 'g) gnmi_model \<Rightarrow> string list" where
  "SupportedModels M = sort (map (\<lambda>m. md_Name m @ '' '' @ md_Version m) (gm_modelData M))"

text \<open>The server: its port and the address of the listener, the configuration, the model and the callback.\<close>

record ('t, 'g, 's) server =
  sv_port :: int
  sv_addr :: string
  sv_config :: 'g
  sv_model :: "('t, 'g) gnmi_model"
  sv_callback :: "('g \<Rightarrow> ('s, unit) prog) option"

definition NewServer ::
    "('t, 'g) ygot_lib \<Rightarrow> (int \<Rightarrow> string res) \<Rightarrow> ('t, 'g) gnmi_model \<Rightarrow> string option \<Rightarrow> int \<Rightarrow>
     ('g \<Rightarrow> ('s, unit) prog) option \<Rightarrow> ('t, 'g, 's) server res" where
  "NewServer L listen M config port callback =
     res_bind (NewConfigStruct L M config) (\<lambda>rootStruct.
       let port = (if port < 0 then 0 else port) in
       res_bind (wrap_err ''failed to open listener port %d: %v'' (listen port)) (\<lambda>addr.
         Inr \<lparr>sv_port = port, sv_addr = addr, sv_config = rootStruct, sv_model = M, sv_callback = callback\<rparr>))"

text \<open>\<open>strings.Replace(s, old, new, 1)\<close> for a nonempty \<open>old\<close>.\<close>

fun replace_first :: "string \<Rightarrow> string \<Rightarrow> string \<Rightarrow> string" where
  "replace_first [] old new = []"
| "replace_first (c # cs) old new =
     (if HasPrefix (c # cs) old then new @ drop (length old) (c # cs) else c # replace_first cs old new)"

definition Address :: "('t, 'g, 's) server \<Rightarrow> string" where
  "Address srv = replace_first (sv_addr srv) ''[::]'' ''localhost''"

definition ServerPort :: "('t, 'g, 's) server \<Rightarrow> int" where
  "ServerPort srv = sv_port srv"

definition toGoStruct :: "('t, 'g) ygot_lib \<Rightarrow> ('t, 'g, 's) server \<Rightarrow> tree \<Rightarrow> 'g res" where
  "toGoStruct L srv jsonTree =
     res_bind (wrap_err ''error in marshaling IETF JSON tree to bytes: %v'' (marshal (JObj jsonTree))) (\<lambda>jsonDump.
       wrap_err ''error in creating config struct from IETF JSON data: %v'' (NewConfigStruct L (sv_model srv) (Some jsonDump)))"

subsection \<open>Paths\<close>

text \<open>A nil prefix has no elements; a nil path is dereferenced.\<close>

definition path_Elem :: "gnmi_path option \<Rightarrow> PathElem list" where
  "path_Elem p = (case p of None \<Rightarrow> [] | Some p \<Rightarrow> gp_Elem p)"

definition path_Element :: "gnmi_path option \<Rightarrow> string list" where
  "path_Element p = (case p of None \<Rightarrow> [] | Some p \<Rightarrow> gp_Element p)"

definition gnmiFullPath :: "gnmi_path option \<Rightarrow> gnmi_path option \<Rightarrow> gnmi_path res" where
  "gnmiFullPath prfx path =
     res_bind (deref path) (\<lambda>p.
       Inr \<lparr>gp_Origin = gp_Origin p,
            gp_Element = (if gp_Element p \<noteq> [] then path_Element prfx @ gp_Element p else []),
            gp_Elem = (if gp_Elem p \<noteq> [] then path_Elem prfx @ gp_Elem p else [])\<rparr>)"

definition isNil :: "'g ynode \<Rightarrow> bool" where
  "isNil n = (case n of NilNode \<Rightarrow> True | _ \<Rightarrow> False)"

subsection \<open>Writing into the tree\<close>

text \<open>The keys of the path element are written into the entry; the value must not contradict them.\<close>

fun set_attrs :: "string gomap \<Rightarrow> tree \<Rightarrow> tree \<Rightarrow> tree res" where
  "set_attrs [] val m = Inr m"
| "set_attrs ((k, v) # ks) val m =
     (case gget val k of
        Some x \<Rightarrow>
          if sprint_v x \<noteq> v then Inl (grpc_status ''InvalidArgument'' ''invalid config data: %v is a path attribute'')
          else set_attrs ks val (gput k (key_value v) m)
      | None \<Rightarrow> set_attrs ks val (gput k (key_value v) m))"

definition merge_tree :: "tree \<Rightarrow> tree \<Rightarrow> tree" where
  "merge_tree val m = fold (\<lambda>(k, v). gput k v) val m"

definition entry_map :: "mapvar \<Rightarrow> string \<Rightarrow> nat \<Rightarrow> tree" where
  "entry_map node name i =
     (case mget node name of Some (JArr l) \<Rightarrow> (case l ! i of JObj m \<Rightarrow> m | _ \<Rightarrow> []) | _ \<Rightarrow> [])"

definition setPathWithAttribute :: "Operation \<Rightarrow> mapvar \<Rightarrow> PathElem \<Rightarrow> json \<Rightarrow> mapvar res" where
  "setPathWithAttribute op node e nodeVal =
     (case nodeVal of
        JObj val \<Rightarrow>
          res_bind (getKeyedListEntry node e True) (\<lambda>(i, node).
            case i of None \<Rightarrow> Inl (grpc_status ''NotFound'' ''path elem not found: %v'')
            | Some i \<Rightarrow>
                let m = (if op = REPLACE then [] else entry_map node (pe_Name e) i) in
                res_bind (set_attrs (pe_Key e) val m) (\<lambda>m.
                  Inr (put_child node (pe_Name e) (Entry i) (At (JObj (merge_tree val m))))))
      | _ \<Rightarrow> Inl (grpc_status ''InvalidArgument'' ''expect nodeVal is a json node of map[string]interface{}, received %T''))"

definition setPathWithoutAttribute :: "Operation \<Rightarrow> mapvar \<Rightarrow> PathElem \<Rightarrow> json \<Rightarrow> mapvar res" where
  "setPathWithoutAttribute op node e nodeVal =
     (case (mget node (pe_Name e), nodeVal) of
        (Some target, JObj val) \<Rightarrow>
          if op = REPLACE then mset_key node (pe_Name e) nodeVal
          else (case target of
              JObj m \<Rightarrow> Inr (put_child node (pe_Name e) Field (At (JObj (merge_tree val m))))
            | _ \<Rightarrow> Inl (grpc_status ''Internal'' ''error in setting path: expect map[string]interface{} to update, got %T''))
      | _ \<Rightarrow> mset_key node (pe_Name e) nodeVal)"

subsection \<open>The loops over a path\<close>

fun delete_walk :: "PathElem list \<Rightarrow> yang_entry \<Rightarrow> cursor \<Rightarrow> (bool \<times> cursor) res" where
  "delete_walk [] schema cur = Inr (False, cur)"
| "delete_walk (e # es) schema cur =
     (case as_map cur of
        None \<Rightarrow> Inr (False, cur)
      | Some node \<Rightarrow>
          if es = [] then
            (if nil_key e then Inr (True, of_map (mdelete node (pe_Name e)))
             else (case deleteKeyedListEntry node e of (b, node) \<Rightarrow> Inr (b, of_map node)))
          else
            res_bind (getChildNode node schema e False) (\<lambda>r.
              case r of
                None \<Rightarrow> Inr (False, cur)
              | Some (next, p, node) \<Rightarrow>
                  (case child_at node (pe_Name e) p of
                     NilInterface \<Rightarrow> Inr (False, of_map node)
                   | c \<Rightarrow> res_bind (delete_walk es next c) (\<lambda>(b, c).
                       Inr (b, of_map (put_child node (pe_Name e) p c))))))"

fun set_walk :: "Operation \<Rightarrow> json \<Rightarrow> PathElem list \<Rightarrow> yang_entry \<Rightarrow> cursor \<Rightarrow> cursor res" where
  "set_walk op nodeVal [] schema cur = Inr cur"
| "set_walk op nodeVal (e # es) schema cur =
     (case as_map cur of
        Some node \<Rightarrow>
          if es = [] then
            res_bind ((if nil_key e then setPathWithoutAttribute else setPathWithAttribute) op node e nodeVal)
              (\<lambda>node. Inr (of_map node))
          else
            res_bind (getChildNode node schema e True) (\<lambda>r.
              case r of
                None \<Rightarrow> Inl (grpc_status ''NotFound'' ''path elem not found: %v'')
              | Some (next, p, node) \<Rightarrow>
                  (case child_at node (pe_Name e) p of
                     NilInterface \<Rightarrow> Inl (grpc_status ''NotFound'' ''path elem not found: %v'')
                   | c \<Rightarrow> res_bind (set_walk op nodeVal es next c) (\<lambda>c.
                       Inr (of_map (put_child node (pe_Name e) p c)))))
      | None \<Rightarrow>
          (case cur of
             At (JArr l) \<Rightarrow> Inl (grpc_status ''NotFound'' ''uncompatible path elem: %v'')
           | _ \<Rightarrow> Inl (grpc_status ''Internal'' ''wrong node type: %T'')))"

definition cursor_tree :: "cursor \<Rightarrow> tree" where
  "cursor_tree c = (case c of At (JObj m) \<Rightarrow> m | _ \<Rightarrow> [])"

subsection \<open>Applying a configuration\<close>

text \<open>
  The end of both handlers: the callback gets the configuration read back from the tree; when it
  fails, it gets the configuration the server started the request with.
\<close>

definition apply_tree :: "('t, 'g) ygot_lib \<Rightarrow> ('t, 'g, 's) server \<Rightarrow> tree \<Rightarrow> ('s, unit) prog" where
  "apply_tree L srv jsonTree =
     pbind (plift (wrap_status ''Internal'' ''%v'' (toGoStruct L srv jsonTree))) (\<lambda>newConfig.
       case sv_callback srv of None \<Rightarrow> pret ()
       | Some callback \<Rightarrow>
           pbind (ptry (callback newConfig)) (\<lambda>r.
             case r of Inr u \<Rightarrow> pret ()
             | Inl applyErr \<Rightarrow>
                 pbind (ptry (callback (sv_config srv))) (\<lambda>r.
                   case r of
                     Inl rollbackErr \<Rightarrow> pfail (grpc_status ''Internal'' ''error in rollback the failed operation (%v): %v'')
                   | Inr u \<Rightarrow> pfail (grpc_status ''Aborted'' ''error in applying operation to device: %v''))))"

definition checkEncodingAndModel :: "Encoding \<Rightarrow> ModelDataEntry list \<Rightarrow> unit res" where
  "checkEncodingAndModel encoding models =
     (if encoding \<in> set supportedEncodings then Inr () else Inl (Errorf ''unsupported encoding: %s'' []))"

text \<open>Deleting the root empties the tree, but only a deleted path is applied.\<close>

definition doDelete ::
    "('t, 'g) ygot_lib \<Rightarrow> ('t, 'g, 's) server \<Rightarrow> tree \<Rightarrow> gnmi_path option \<Rightarrow> gnmi_path option \<Rightarrow>
     ('s, tree \<times> UpdateResult) prog" where
  "doDelete L srv jsonTree prfx path =
     pbind (plift (gnmiFullPath prfx path)) (\<lambda>fullPath.
     pbind (plift (delete_walk (gp_Elem fullPath) (gm_schemaTreeRoot (sv_model srv)) (At (JObj jsonTree)))) (\<lambda>(pathDeleted, c).
       let jsonTree = (if fullPath = pbRootPath then [] else cursor_tree c) in
       pseq (if pathDeleted then apply_tree L srv jsonTree else pret ())
         (pret (jsonTree, \<lparr>ur_Path = path, ur_Op = DELETE\<rparr>))))"

text \<open>The value of a replace or update: JSON read into the struct at the path, or a scalar for a leaf.\<close>

definition node_value :: "('t, 'g) ygot_lib \<Rightarrow> ('t, 'g, 's) server \<Rightarrow> gnmi_path \<Rightarrow> gnmi_value option \<Rightarrow> json res" where
  "node_value L srv fullPath val =
     res_bind (wrap_status ''NotFound'' ''path %v is not found in the config structure: %v''
         (yg_NewNode L (gm_structRootType (sv_model srv)) fullPath)) (\<lambda>emptyNode.
       case emptyNode of
         StructNode nodeStruct \<Rightarrow>
           res_bind (wrap_status ''InvalidArgument'' ''unmarshaling json data to config struct fails: %v''
               (gm_jsonUnmarshaler (sv_model srv) (case val of Some (JsonIetfVal b) \<Rightarrow> b | _ \<Rightarrow> []) nodeStruct)) (\<lambda>nodeStruct.
           res_bind (wrap_status ''InvalidArgument'' ''config data validation fails: %v'' (yg_Validate L nodeStruct)) (\<lambda>_.
           res_bind (wrap_status ''Internal'' ''error in constructing IETF JSON tree from config struct: %v''
               (yg_IETFJSON L False nodeStruct)) (\<lambda>m. Inr (JObj m))))
       | _ \<Rightarrow> res_bind (deref val) (\<lambda>v. wrap_status ''Internal'' ''cannot convert leaf node to scalar type: %v'' (yg_ToScalar L v)))"

definition replace_root :: "Operation \<Rightarrow> gnmi_path \<Rightarrow> json \<Rightarrow> tree \<Rightarrow> tree res" where
  "replace_root op fullPath nodeVal jsonTree =
     (if fullPath \<noteq> pbRootPath then Inr jsonTree
      else if op = UPDATE then Inl (grpc_status ''Unimplemented'' ''update the root of config tree is unsupported'')
      else (case nodeVal of
              JObj val \<Rightarrow> Inr (merge_tree val [])
            | _ \<Rightarrow> Inl (grpc_status ''InvalidArgument'' ''expect a tree to replace the root, got a scalar value: %T'')))"

definition doReplaceOrUpdate ::
    "('t, 'g) ygot_lib \<Rightarrow> ('t, 'g, 's) server \<Rightarrow> tree \<Rightarrow> Operation \<Rightarrow> gnmi_path option \<Rightarrow> gnmi_path option \<Rightarrow> gnmi_value option \<Rightarrow>
     ('s, tree \<times> UpdateResult) prog" where
  "doReplaceOrUpdate L srv jsonTree op prfx path val =
     pbind (plift (gnmiFullPath prfx path)) (\<lambda>fullPath.
     pbind (plift (node_value L srv fullPath val)) (\<lambda>nodeVal.
     pbind (plift (set_walk op nodeVal (gp_Elem fullPath) (gm_schemaTreeRoot (sv_model srv)) (At (JObj jsonTree)))) (\<lambda>c.
     pbind (plift (replace_root op fullPath nodeVal (cursor_tree c))) (\<lambda>jsonTree.
     pseq (apply_tree L srv jsonTree)
       (pret (jsonTree, \<lparr>ur_Path = path, ur_Op = op\<rparr>))))))"

subsection \<open>Capabilities and Subscribe\<close>

definition Capabilities :: "string res \<Rightarrow> ('t, 'g, 's) server \<Rightarrow> CapabilityResponse res" where
  "Capabilities version srv =
     res_bind (wrap_status ''Internal'' ''error in getting gnmi service version: %v'' version) (\<lambda>ver.
       Inr \<lparr>cr_SupportedModels = gm_modelData (sv_model srv), cr_SupportedEncodings = supportedEncodings, cr_GNMIVersion = ver\<rparr>)"

definition Subscribe :: "unit res" where
  "Subscribe = Inl (grpc_status ''Unimplemented'' ''Subscribe() is not implemented.'')"

subsection \<open>Get\<close>

text \<open>The value of a leaf. A name the enumeration lacks is the empty string of the zero definition.\<close>

definition leaf_typed_value :: "('t, 'g) ygot_lib \<Rightarrow> ('t, 'g) gnmi_model \<Rightarrow> 'g ynode \<Rightarrow> gnmi_value res" where
  "leaf_typed_value L M node =
     (case node of
        ScalarPtr j \<Rightarrow> wrap_status ''Internal'' ''leaf node %v does not contain a scalar type value: %v'' (yg_FromScalar L j)
      | EnumLeaf ty n \<Rightarrow>
          (case map_of (gm_enumData M) ty of
             None \<Rightarrow> Inl (grpc_status ''Internal'' ''not a GoStruct enumeration type'')
           | Some enumMap \<Rightarrow> Inr (StringValue (case map_of enumMap n of None \<Rightarrow> [] | Some name \<Rightarrow> name)))
      | _ \<Rightarrow> Inl (grpc_status ''Internal'' ''unexpected kind of leaf node type: %v %v''))"

definition struct_typed_value :: "('t, 'g) ygot_lib \<Rightarrow> Encoding \<Rightarrow> 'g \<Rightarrow> gnmi_value res" where
  "struct_typed_value L encoding g =
     res_bind (wrap_status ''Internal'' ''error in constructing %s JSON tree from requested node: %v''
         (if encoding = JSON then yg_InternalJSON L g else yg_IETFJSON L True g)) (\<lambda>jsonTree.
     res_bind (wrap_status ''Internal'' ''error in marshaling %s JSON tree to bytes: %v'' (marshal (JObj jsonTree))) (\<lambda>jsonDump.
       Inr (if encoding = JSON then JsonVal jsonDump else JsonIetfVal jsonDump)))"

definition get_path ::
    "('t, 'g) ygot_lib \<Rightarrow> int \<Rightarrow> ('t, 'g, 's) server \<Rightarrow> GetRequest \<Rightarrow> gnmi_path \<Rightarrow> GetNotification res" where
  "get_path L ts srv req path =
     res_bind (case gr_Prefix req of None \<Rightarrow> Inr path | Some prfx \<Rightarrow> gnmiFullPath (Some prfx) (Some path)) (\<lambda>fullPath.
       if gp_Elem fullPath = [] \<and> gp_Element fullPath \<noteq> []
       then Inl (grpc_status ''Unimplemented'' ''deprecated path element type is unsupported'')
       else
         res_bind (wrap_status ''NotFound'' ''path %v not found''
             (yg_GetNode L (gm_schemaTreeRoot (sv_model srv)) (sv_config srv) fullPath)) (\<lambda>node.
           if isNil node then Inl (grpc_status ''NotFound'' ''path %v not found'')
           else
             res_bind
               (case node of
                  StructNode g \<Rightarrow>
                    if gr_UseModels req \<noteq> []
                    then Inl (grpc_status ''Unimplemented'' ''filtering Get using use_models is unsupported, got: %v'')
                    else struct_typed_value L (gr_Encoding req) g
                | _ \<Rightarrow> leaf_typed_value L (sv_model srv) node)
               (\<lambda>val. Inr \<lparr>gn_Timestamp = ts, gn_Prefix = gr_Prefix req, gn_Path = path, gn_Val = val\<rparr>)))"

definition gnmi_Get ::
    "('t, 'g) ygot_lib \<Rightarrow> (nat \<Rightarrow> int) \<Rightarrow> ('t, 'g, 's) server \<Rightarrow> GetRequest \<Rightarrow> GetNotification list res" where
  "gnmi_Get L clock srv req =
     (if gr_Type req \<noteq> TypeAll then Inl (grpc_status ''Unimplemented'' ''unsupproted request type: %s'')
      else
        res_bind (wrap_status ''Unimplemented'' ''%v'' (checkEncodingAndModel (gr_Encoding req) (gr_UseModels req))) (\<lambda>_.
          seq_res (map (\<lambda>(i, path). get_path L (clock i) srv req path) (enumerate 0 (gr_Path req)))))"

subsection \<open>Set\<close>

text \<open>The loops over the operations of a request; the state is the tree and the results so far.\<close>

fun set_ops ::
    "(tree \<Rightarrow> 'a \<Rightarrow> ('s, tree \<times> UpdateResult) prog) \<Rightarrow> 'a list \<Rightarrow> tree \<times> UpdateResult list \<Rightarrow>
     ('s, tree \<times> UpdateResult list) prog" where
  "set_ops f [] tr = pret tr"
| "set_ops f (x # xs) tr = pbind (f (fst tr) x) (\<lambda>(t, res). set_ops f xs (t, snd tr @ [res]))"

definition set_tree ::
    "('t, 'g) ygot_lib \<Rightarrow> ('t, 'g, 's) server \<Rightarrow> SetRequest \<Rightarrow> tree \<Rightarrow> ('s, tree \<times> UpdateResult list) prog" where
  "set_tree L srv req jsonTree =
     pbind (set_ops (\<lambda>t path. doDelete L srv t (sr_Prefix req) (Some path)) (sr_Delete req) (jsonTree, [])) (\<lambda>tr.
     pbind (set_ops (\<lambda>t (path, val). doReplaceOrUpdate L srv t REPLACE (sr_Prefix req) path val) (sr_Replace req) tr) (\<lambda>tr.
       set_ops (\<lambda>t (path, val). doReplaceOrUpdate L srv t UPDATE (sr_Prefix req) path val) (sr_Update req) tr))"

definition set_config ::
    "('t, 'g) ygot_lib \<Rightarrow> ('t, 'g, 's) server \<Rightarrow> SetRequest \<Rightarrow> ('s, 'g \<times> UpdateResult list) prog" where
  "set_config L srv req =
     pbind (plift (wrap_status ''Internal'' ''error in constructing IETF JSON tree from config struct: %v''
         (yg_IETFJSON L False (sv_config srv)))) (\<lambda>jsonTree.
     pbind (set_tree L srv req jsonTree) (\<lambda>(jsonTree, results).
     pbind (plift (wrap_status ''Internal'' ''error in marshaling IETF JSON tree to bytes: %v'' (marshal (JObj jsonTree)))) (\<lambda>jsonDump.
     pbind (plift (wrap_status ''Internal'' ''error in creating config struct from IETF JSON data: %v''
         (NewConfigStruct L (sv_model srv) (Some jsonDump)))) (\<lambda>rootStruct. pret (rootStruct, results)))))"

text \<open>\<open>Set\<close> on the server and the device the callback works on.\<close>

definition gnmi_Set ::
    "('t, 'g) ygot_lib \<Rightarrow> SetRequest \<Rightarrow> (('t, 'g, 's) server \<times> 's, SetResponse) prog" where
  "gnmi_Set L req = (\<lambda>(srv, s).
     case set_config L srv req s of
       (Inl e, s) \<Rightarrow> (Inl e, (srv, s))
     | (Inr (rootStruct, results), s) \<Rightarrow>
         (Inr \<lparr>sp_Prefix = sr_Prefix req, sp_Response = results\<rparr>, (srv\<lparr>sv_config := rootStruct\<rparr>, s)))"

subsection \<open>cmd/gnmi\<close>

definition gnmi_git_dir :: string where "gnmi_git_dir = ''/etc/oopt''"

definition gnmi_config_file :: string where "gnmi_config_file = gnmi_git_dir @ ''/'' @ CONFIG_FILE"

definition gnmi_callback :: "'s host_ops \<Rightarrow> ('g \<Rightarrow> string res) \<Rightarrow> 'g \<Rightarrow> ('s, unit) prog" where
  "gnmi_callback H emit newConfig =
     pbind (plift (wrap_err ''%v'' (emit newConfig))) (\<lambda>buf.
     pseq (pwrap ''%v'' (ho_create H gnmi_config_file))
       (write_line H gnmi_config_file buf))"

definition panic_on_error :: "'a res \<Rightarrow> 'a res" where
  "panic_on_error r = (case r of Inl e \<Rightarrow> if aborts r then Inl e else Inl (Panic ''main'') | Inr x \<Rightarrow> Inr x)"

text \<open>
  \<open>main\<close> up to serving. The error of \<open>Unmarshal\<close> is dropped: \<open>unm\<close> gives what it leaves in the
  empty configuration. \<open>emit\<close> is \<open>EmitJSON\<close> with the module names that the server reads.
\<close>

definition gnmi_main ::
    "('t, 'g) ygot_lib \<Rightarrow> 's host_ops \<Rightarrow> (string \<Rightarrow> 'g \<times> unit res) \<Rightarrow> ('g \<Rightarrow> string res) \<Rightarrow> ('g \<Rightarrow> string res) \<Rightarrow>
     (int \<Rightarrow> string res) \<Rightarrow> ('t, 'g) gnmi_model \<Rightarrow> int \<Rightarrow> ('s, ('t, 'g, 's) server) prog" where
  "gnmi_main L H unm emit emit_plain listen M port =
     pbind (\<lambda>s. case ho_read H gnmi_config_file s of (r, t) \<Rightarrow> (panic_on_error r, t)) (\<lambda>data.
       let current = fst (unm data) in
       pseq (plift (panic_on_error (yg_Validate L current)))
       (pbind (plift (panic_on_error (emit current))) (\<lambda>json.
         plift (panic_on_error (NewServer L listen (M\<lparr>gm_modelData := ModelData\<rparr>) (Some json) port
           (Some (gnmi_callback H emit_plain)))))))"

end
