(* ===== verification/Gnmi_Paths.thy ===== *)
theory Gnmi_Paths
  imports Gnmi_Server
begin

section \<open>Writing and reading paths of the configuration tree\<close>

text \<open>
  What the functions of \<open>pkg/gnmi\<close> that write into the tree achieve: the entry that a key leads to, the
  leaf at the end of a path, and what stays as it was. \<open>walk_get\<close> is the specification of
  reading along a path.
\<close>

subsection \<open>Setting an entry\<close>

lemma gget_merge_tree:
  "gomap_ok val \<Longrightarrow> gget (merge_tree val m) k = (case gget val k of Some y \<Rightarrow> Some y | None \<Rightarrow> gget m k)"
proof (induction val arbitrary: m)
  case (Cons kv val)
  obtain a b where kv: "kv = (a, b)" by (cases kv)
  from Cons.prems kv have ok: "gomap_ok val" "a \<notin> gkeys val" by (auto simp: gomap_ok_def)
  then have "gget val a = None" by (simp add: gget_None_iff)
  with Cons.IH [OF ok(1), of "gput a b m"] show ?case
    by (auto simp: merge_tree_def kv split: option.split)
qed (simp add: merge_tree_def)

lemma set_attrs_both:
  "set_attrs ks val m = Inr m' \<Longrightarrow> gomap_ok ks \<Longrightarrow>
     gget m' k = (case gget ks k of Some v \<Rightarrow> Some (key_value v) | None \<Rightarrow> gget m k) \<and>
     (\<forall>(k, v) \<in> set ks. \<forall>x. gget val k = Some x \<longrightarrow> sprint_v x = v)"
proof (induction ks arbitrary: m)
  case (Cons kv ks)
  obtain a b where kv: "kv = (a, b)" by (cases kv)
  from Cons.prems kv have ok: "gomap_ok ks" "a \<notin> gkeys ks" by (auto simp: gomap_ok_def)
  then have none: "gget ks a = None" by (simp add: gget_None_iff)
  from Cons.prems(1) kv have step: "set_attrs ks val (gput a (key_value b) m) = Inr m'"
    and good: "\<forall>x. gget val a = Some x \<longrightarrow> sprint_v x = b" by (auto split: option.splits if_splits)
  from Cons.IH [OF step ok(1)] none good show ?case unfolding kv by (auto split: option.split)
qed simp

lemmas set_attrs_Inr = set_attrs_both [THEN conjunct1] set_attrs_both [THEN conjunct2]

definition keys_stable :: "string gomap \<Rightarrow> tree \<Rightarrow> bool" where
  "keys_stable ks val \<longleftrightarrow> (\<forall>(k, v) \<in> set ks. gget val k = None \<longrightarrow> sprint_v (key_value v) = v)"

lemma set_entry_matches:
  assumes "set_attrs ks val m = Inr m'" "gomap_ok ks" "gomap_ok val" "keys_stable ks val"
  shows "key_match ks (merge_tree val m') = Some True"
  unfolding key_match_True
proof (clarify)
  fix k v assume kv: "(k, v) \<in> set ks"
  then have "gget ks k = Some v" using assms(2) by (simp add: in_set_gget)
  with set_attrs_Inr [OF assms(1,2)] kv assms(4) show "\<exists>a. gget (merge_tree val m') k = Some a \<and> sprint_v a = v"
    by (cases "gget val k") (auto simp: gget_merge_tree [OF assms(3)] keys_stable_def)
qed

text \<open>The entry a key leads to before the update; none counts as empty.\<close>

definition old_entry :: "mapvar \<Rightarrow> PathElem \<Rightarrow> tree" where
  "old_entry node e =
     (case getKeyedListEntry node e False of Inr (Some i, n) \<Rightarrow> entry_map node (pe_Name e) i | _ \<Rightarrow> [])"

lemma getKeyedListEntry_create:
  assumes "getKeyedListEntry (Some m) e True = Inr (Some i, node)"
  shows "\<exists>m' l1 x l2. node = Some m' \<and> gget m' (pe_Name e) = Some (JArr (l1 @ JObj x # l2)) \<and> i = length l1 \<and>
    skips (pe_Key e) l1 \<and> (\<forall>k. k \<noteq> pe_Name e \<longrightarrow> gget m' k = gget m k) \<and>
    (old_entry (Some m) e = x \<and> key_match (pe_Key e) x = Some True \<or>
     old_entry (Some m) e = [] \<and> JObj x = new_entry (pe_Key e))"
proof (cases "gget m (pe_Name e)")
  case None
  with assms show ?thesis
    by (rule_tac exI [of _ "gput (pe_Name e) (JArr [new_entry (pe_Key e)]) m"], rule_tac exI [of _ "[]"])
      (auto simp: getKeyedListEntry_def new_entry_def skips_def old_entry_def)
next
  case (Some j)
  with assms obtain l where l: "j = JArr l" by (cases j) (auto simp: getKeyedListEntry_def)
  show ?thesis
  proof (cases "search_entry (pe_Key e) 0 l")
    case (Found n)
    then obtain l1 x l2 where x: "l = l1 @ JObj x # l2" "n = length l1" "skips (pe_Key e) l1" "key_match (pe_Key e) x = Some True"
      by (auto simp: search_entry_Found)
    have old: "old_entry (Some m) e = x"
      using Some l Found x by (simp add: old_entry_def getKeyedListEntry_def entry_map_def)
    show ?thesis using assms Some l Found x old
      by (intro exI [of _ m] exI [of _ l1] exI [of _ x] exI [of _ l2]) (simp add: getKeyedListEntry_def)
  next
    case Missing
    then have sk: "skips (pe_Key e) l" by (simp add: search_entry_Missing)
    from assms Some l Missing have "i = length l" "node = Some (gput (pe_Name e) (JArr (l @ [new_entry (pe_Key e)])) m)"
      by (simp_all add: getKeyedListEntry_def)
    moreover have "old_entry (Some m) e = []" using Some l Missing by (simp add: old_entry_def getKeyedListEntry_def)
    ultimately show ?thesis using sk
      by (rule_tac exI [of _ "gput (pe_Name e) (JArr (l @ [new_entry (pe_Key e)])) m"], rule_tac exI [of _ l])
        (simp add: new_entry_def)
  next
    case Broken
    with assms Some l show ?thesis by (simp add: getKeyedListEntry_def)
  qed
qed

text \<open>
  C39: a keyed entry that was set is found again. When \<open>setPathWithAttribute\<close> succeeds and the keys of
  the path that the value leaves open print as they were written, the key leads to an entry
  with the fields of the value, the keys of the path, and for an update the fields it
  had before; a replaced entry has no others. The other fields of the node have not changed.
\<close>

theorem setPathWithAttribute_finds:
  assumes "setPathWithAttribute op (Some m) e (JObj val) = Inr node"
    and "gomap_ok (pe_Key e)" "gomap_ok val" "keys_stable (pe_Key e) val"
  shows "(\<exists>i x. getKeyedListEntry node e False = Inr (Some i, node) \<and> entry_map node (pe_Name e) i = x \<and>
      (\<forall>k. gget x k = (case gget val k of Some y \<Rightarrow> Some y
         | None \<Rightarrow> (case gget (pe_Key e) k of Some v \<Rightarrow> Some (key_value v)
         | None \<Rightarrow> if op = REPLACE then None else gget (old_entry (Some m) e) k)))) \<and>
    (\<forall>k. k \<noteq> pe_Name e \<longrightarrow> mget node k = gget m k)"
proof -
  obtain i n where i: "getKeyedListEntry (Some m) e True = Inr (Some i, n)"
    using assms(1) by (auto simp: setPathWithAttribute_def res_bind_Inr split: option.splits)
  from getKeyedListEntry_create [OF i] obtain m' l1 x l2 where n: "n = Some m'"
      "gget m' (pe_Name e) = Some (JArr (l1 @ JObj x # l2))" "i = length l1" "skips (pe_Key e) l1"
      "\<forall>k. k \<noteq> pe_Name e \<longrightarrow> gget m' k = gget m k"
      "old_entry (Some m) e = x \<and> key_match (pe_Key e) x = Some True \<or>
       old_entry (Some m) e = [] \<and> JObj x = new_entry (pe_Key e)" by blast
  have ent: "entry_map n (pe_Name e) i = x" using n by (simp add: entry_map_def)
  from assms(1) i obtain a where a: "set_attrs (pe_Key e) val (if op = REPLACE then [] else entry_map n (pe_Name e) i) = Inr a"
      "node = put_child n (pe_Name e) (Entry i) (At (JObj (merge_tree val a)))"
    by (auto simp: setPathWithAttribute_def res_bind_Inr Let_def)
  note a = a [unfolded ent]
  have node: "node = Some (gput (pe_Name e) (JArr (l1 @ JObj (merge_tree val a) # l2)) m')"
    using a(2) n(1-3) by (simp add: put_child_def)
  have "search_entry (pe_Key e) 0 (l1 @ JObj (merge_tree val a) # l2) = Found i"
    using set_entry_matches [OF a(1) assms(2,3,4)] n(3,4) by (auto simp: search_entry_Found)
  then have found: "getKeyedListEntry node e False = Inr (Some i, node)" by (simp add: getKeyedListEntry_def node)
  have "entry_map node (pe_Name e) i = merge_tree val a" using n(3) by (simp add: entry_map_def node)
  moreover have "gget (merge_tree val a) k = (case gget val k of Some y \<Rightarrow> Some y
         | None \<Rightarrow> (case gget (pe_Key e) k of Some v \<Rightarrow> Some (key_value v)
         | None \<Rightarrow> if op = REPLACE then None else gget (old_entry (Some m) e) k))" for k
    using n(6) by (auto simp: gget_merge_tree [OF assms(3)] set_attrs_Inr(1) [OF a(1) assms(2)] new_entry_def split: option.split)
  ultimately show ?thesis using found n(5) by (simp add: node)
qed

text \<open>Names that do not start like a number are kept as strings.\<close>

lemma lower_char_low:
  assumes "lower_char c = d" "of_char d < (97 :: nat)"
  shows "c = d"
proof (cases "65 \<le> (of_char c :: nat) \<and> (of_char c :: nat) \<le> 90")
  case True
  then have "of_char (char_of ((of_char c :: nat) + 32) :: char) = (of_char c :: nat) + 32"
    by (simp add: of_char_of take_bit_eq_mod)
  with assms True show ?thesis by (auto simp: lower_char_def)
next
  case False
  with assms show ?thesis by (auto simp: lower_char_def)
qed

lemma not_number:
  assumes c: "digit_val c = None" "c \<noteq> CHR ''+''" "c \<noteq> CHR ''-''" "c \<noteq> CHR ''.''" "lower_char c \<noteq> CHR ''i''" "lower_char c \<noteq> CHR ''n''"
  shows "parse_float (c # s) = None"
proof -
  have pm: "lower_char c \<noteq> CHR ''+''" "lower_char c \<noteq> CHR ''-''"
    using lower_char_low [of c "CHR ''+''"] lower_char_low [of c "CHR ''-''"] c(2,3) by auto
  have "special_float (c # s) = None" using c pm by (simp add: special_float_def)
  moreover have "parse_mantissa (takeWhile (\<lambda>c. lower_char c \<noteq> CHR ''e'') (c # s)) = None"
  proof (cases "lower_char c = CHR ''e''")
    case True
    then show ?thesis by (simp add: parse_mantissa_def parse_digits_def)
  next
    case False
    obtain a r where "split_char (CHR ''.'') (takeWhile (\<lambda>c. lower_char c \<noteq> CHR ''e'') s) = a # r"
      using split_char_nonempty by (metis list.exhaust)
    then have "split_char (CHR ''.'') (takeWhile (\<lambda>c. lower_char c \<noteq> CHR ''e'') (c # s)) = (c # a) # r"
      using False c(4) by simp
    then show ?thesis using c(1) by (auto simp: parse_mantissa_def parse_digits_def split: list.split)
  qed
  ultimately show ?thesis using c by (simp add: parse_float_def parse_decimal_def decimal_value_def parse_sign_def)
qed

lemma name_stable: "parse_float v = None \<Longrightarrow> sprint_v (key_value v) = v"
  by (simp add: key_value_def)

lemma setPathWithAttribute_finds_witness:
  "\<exists>node i x. setPathWithAttribute UPDATE (Some [(''port'', sample_list)]) \<lparr>pe_Name = ''port'', pe_Key = [(''name'', ''Port4'')]\<rparr>
       (JObj [(''description'', JStr ''x'')]) = Inr node \<and>
     getKeyedListEntry node \<lparr>pe_Name = ''port'', pe_Key = [(''name'', ''Port4'')]\<rparr> False = Inr (Some i, node) \<and>
     entry_map node ''port'' i = x \<and> gget x ''name'' = Some (JStr ''Port4'') \<and> gget x ''description'' = Some (JStr ''x'')"
proof -
  have num: "parse_float ''Port4'' = None" by (rule not_number) code_simp+
  have stable: "keys_stable [(''name'', ''Port4'')] [(''description'', JStr ''x'')]"
    by (simp add: keys_stable_def name_stable [OF num])
  have "\<exists>node. setPathWithAttribute UPDATE (Some [(''port'', sample_list)]) \<lparr>pe_Name = ''port'', pe_Key = [(''name'', ''Port4'')]\<rparr>
       (JObj [(''description'', JStr ''x'')]) = Inr node"
    by (simp add: setPathWithAttribute_def getKeyedListEntry_def sample_list_def)
  then obtain node where node: "setPathWithAttribute UPDATE (Some [(''port'', sample_list)])
      \<lparr>pe_Name = ''port'', pe_Key = [(''name'', ''Port4'')]\<rparr> (JObj [(''description'', JStr ''x'')]) = Inr node" by blast
  from setPathWithAttribute_finds [OF node] stable obtain i where i:
      "getKeyedListEntry node \<lparr>pe_Name = ''port'', pe_Key = [(''name'', ''Port4'')]\<rparr> False = Inr (Some i, node)"
      "\<forall>k. gget (entry_map node ''port'' i) k = (case gget [(''description'', JStr ''x'')] k of Some y \<Rightarrow> Some y
         | None \<Rightarrow> (case gget [(''name'', ''Port4'')] k of Some v \<Rightarrow> Some (key_value v)
         | None \<Rightarrow> if UPDATE = REPLACE then None else
             gget (old_entry (Some [(''port'', sample_list)]) \<lparr>pe_Name = ''port'', pe_Key = [(''name'', ''Port4'')]\<rparr>) k))"
    by (auto simp: gomap_ok_def)
  from i(2) [rule_format, of "''name''"] i(2) [rule_format, of "''description''"]
  have "gget (entry_map node ''port'' i) ''name'' = Some (JStr ''Port4'')"
      "gget (entry_map node ''port'' i) ''description'' = Some (JStr ''x'')"
    by (simp_all add: key_value_def num)
  with node i(1) show ?thesis by blast
qed

text \<open>
  A key that is a number in a spelling of its own (\<open>007\<close>, \<open>1000000\<close>) is stored as the number and
  never found again: every set on its path adds another entry.
\<close>

lemma numeric_key_duplicates:
  assumes "gget m (pe_Name e) = None" "pe_Key e = [(k, v)]"
    and "parse_float v = Some f" "format_v f \<noteq> v"
  shows "\<exists>n1 n2. getKeyedListEntry (Some m) e True = Inr (Some 0, n1) \<and> getKeyedListEntry n1 e True = Inr (Some 1, n2) \<and>
    mget n2 (pe_Name e) = Some (JArr [new_entry (pe_Key e), new_entry (pe_Key e)])"
  using assms by (simp add: getKeyedListEntry_def new_entry_def key_value_def)

lemma numeric_key_duplicates_witness:
  "\<exists>n1 n2. getKeyedListEntry (Some []) \<lparr>pe_Name = ''port'', pe_Key = [(''name'', ''007'')]\<rparr> True = Inr (Some 0, n1) \<and>
     getKeyedListEntry n1 \<lparr>pe_Name = ''port'', pe_Key = [(''name'', ''007'')]\<rparr> True = Inr (Some 1, n2)"
proof -
  have "parse_float ''007'' = Some (Fin False 7)" by code_simp
  moreover have "format_v (Fin False 7) \<noteq> ''007''" by code_simp
  ultimately show ?thesis
    using numeric_key_duplicates [of "[]" "\<lparr>pe_Name = ''port'', pe_Key = [(''name'', ''007'')]\<rparr>" "''name''" "''007''"] by fastforce
qed

subsection \<open>Setting a path\<close>

lemma getChildNode_other:
  assumes "getChildNode (Some m) schema e True = Inr (Some (next, p, node))"
  shows "\<exists>m'. node = Some m' \<and> (\<forall>k. k \<noteq> pe_Name e \<longrightarrow> gget m' k = gget m k)"
  using assms
  by (auto simp: getChildNode_def getKeyedListEntry_def res_bind_Inr split: option.splits if_splits json.splits search_result.splits)

lemma put_child_other:
  "\<exists>m'. put_child (Some m) name p c = Some m' \<and> (\<forall>k. k \<noteq> name \<longrightarrow> gget m' k = gget m k)"
  by (auto simp: put_child_def split: place.split cursor.split option.split json.split)

lemma setPath_other:
  assumes "(if nil_key e then setPathWithoutAttribute else setPathWithAttribute) op (Some m) e v = Inr node"
  shows "\<exists>m'. node = Some m' \<and> (\<forall>k. k \<noteq> pe_Name e \<longrightarrow> gget m' k = gget m k)"
proof (cases "nil_key e")
  case True
  with assms show ?thesis
    using put_child_other [of m "pe_Name e" Field]
    by (auto simp: setPathWithoutAttribute_def split: option.splits json.splits if_splits)
next
  case False
  with assms obtain val where v: "v = JObj val" by (cases v) (auto simp: setPathWithAttribute_def)
  with False assms obtain i n where i: "getKeyedListEntry (Some m) e True = Inr (Some i, n)"
    by (auto simp: setPathWithAttribute_def res_bind_Inr split: option.splits)
  with False assms v obtain a where "node = put_child n (pe_Name e) (Entry i) (At a)"
    by (auto simp: setPathWithAttribute_def res_bind_Inr Let_def)
  with getKeyedListEntry_create [OF i] put_child_other [of _ "pe_Name e" "Entry i" "At a"] show ?thesis by metis
qed

text \<open>A walk changes only the field its first element names.\<close>

lemma set_walk_other:
  assumes "set_walk op v (e # es) schema (At (JObj m)) = Inr c"
  shows "\<exists>m'. c = At (JObj m') \<and> (\<forall>k. k \<noteq> pe_Name e \<longrightarrow> gget m' k = gget m k)"
proof (cases "es = []")
  case True
  with assms obtain node where "(if nil_key e then setPathWithoutAttribute else setPathWithAttribute) op (Some m) e v = Inr node"
      "c = of_map node" by (auto simp: res_bind_Inr)
  with setPath_other show ?thesis by fastforce
next
  case False
  with assms obtain r where r: "getChildNode (Some m) schema e True = Inr r"
    by (cases "getChildNode (Some m) schema e True") auto
  with assms False obtain "next" p node where n: "r = Some (next, p, node)"
    by (cases r) auto
  with assms False r obtain c' where "c = of_map (put_child node (pe_Name e) p c')"
    by (auto simp: res_bind_Inr split: cursor.splits)
  with getChildNode_other [OF r [unfolded n]] put_child_other [of _ "pe_Name e" p c'] show ?thesis by (metis of_map.simps(2))
qed

text \<open>Reading along a path, with nothing created.\<close>

fun walk_get :: "PathElem list \<Rightarrow> yang_entry \<Rightarrow> cursor \<Rightarrow> cursor" where
  "walk_get [] schema cur = cur"
| "walk_get (e # es) schema cur =
     (case as_map cur of
        None \<Rightarrow> NilInterface
      | Some node \<Rightarrow>
          if es = [] \<and> nil_key e then child_at node (pe_Name e) Field
          else (case getChildNode node schema e False of
                  Inr (Some (next, p, node)) \<Rightarrow> walk_get es next (child_at node (pe_Name e) p)
                | _ \<Rightarrow> NilInterface))"

text \<open>The keys of a path print as they are written and no element writes over the key of the one before.\<close>

fun path_stable :: "PathElem list \<Rightarrow> bool" where
  "path_stable [] = True"
| "path_stable [e] = nil_key e"
| "path_stable (e # e' # es) =
     (gomap_ok (pe_Key e) \<and> (\<forall>(k, v) \<in> set (pe_Key e). sprint_v (key_value v) = v) \<and>
      pe_Name e' \<notin> gkeys (pe_Key e) \<and> path_stable (e' # es))"

lemma new_entry_matches:
  assumes "gomap_ok ks" "\<forall>(k, v) \<in> set ks. sprint_v (key_value v) = v"
  shows "key_match ks (gmap_entries (\<lambda>k v. key_value v) ks) = Some True"
  unfolding key_match_True
proof clarify
  fix k v assume "(k, v) \<in> set ks"
  with assms in_set_gget [OF assms(1) this] show "\<exists>a. gget (gmap_entries (\<lambda>k v. key_value v) ks) k = Some a \<and> sprint_v a = v"
    by auto
qed

lemma key_match_frame:
  assumes "key_match ks m = Some True" "\<And>k. k \<in> gkeys ks \<Longrightarrow> gget m' k = gget m k"
  shows "key_match ks m' = Some True"
  unfolding key_match_True
proof clarify
  fix k v assume kv: "(k, v) \<in> set ks"
  then have "k \<in> gkeys ks" by force
  with assms(2) kv assms(1) [unfolded key_match_True] show "\<exists>a. gget m' k = Some a \<and> sprint_v a = v" by auto
qed

text \<open>After a child was made or found for writing and has been changed in place, reading leads to it.\<close>

lemma getChildNode_again:
  assumes c: "getChildNode (Some m) schema e True = Inr (Some (next, p, Some m'))"
    and child: "child_at (Some m') (pe_Name e) p = At (JObj x)"
    and ok: "gomap_ok (pe_Key e)" "\<forall>(k, v) \<in> set (pe_Key e). sprint_v (key_value v) = v"
    and same: "\<And>k. k \<in> gkeys (pe_Key e) \<Longrightarrow> gget x' k = gget x k"
  shows "\<exists>m''. put_child (Some m') (pe_Name e) p (At (JObj x')) = Some m'' \<and>
    getChildNode (Some m'') schema e False = Inr (Some (next, p, Some m'')) \<and>
    child_at (Some m'') (pe_Name e) p = At (JObj x')"
proof (cases "nil_key e")
  case True
  with c have "p = Field" "gget (Dir schema) (pe_Name e) = Some next"
    by (auto simp: getChildNode_def res_bind_Inr split: option.splits)
  with True show ?thesis by (simp add: put_child_def getChildNode_def child_at_def)
next
  case False
  with c have nx: "gget (Dir schema) (pe_Name e) = Some next" by (auto simp: getChildNode_def res_bind_Inr split: option.splits)
  from c False nx obtain i where i: "getKeyedListEntry (Some m) e True = Inr (i, Some m')"
      "p = (case i of None \<Rightarrow> Nowhere | Some i \<Rightarrow> Entry i)"
    by (auto simp: getChildNode_def res_bind_Inr)
  with child obtain n where n: "i = Some n" "p = Entry n" by (cases i) (auto simp: child_at_def)
  from getKeyedListEntry_create [OF i(1) [unfolded n(1)]] obtain l1 y l2 where l: "gget m' (pe_Name e) = Some (JArr (l1 @ JObj y # l2))"
      "n = length l1" "skips (pe_Key e) l1" "key_match (pe_Key e) y = Some True \<or> JObj y = new_entry (pe_Key e)" by auto
  then have "key_match (pe_Key e) y = Some True" using new_entry_matches [OF ok] by (auto simp: new_entry_def)
  moreover have "y = x" using child n l(1,2) by (simp add: child_at_def)
  ultimately have "key_match (pe_Key e) x' = Some True" using key_match_frame same by blast
  then have "search_entry (pe_Key e) 0 (l1 @ JObj x' # l2) = Found n" using l(2,3) by (auto simp: search_entry_Found)
  with False nx n l show ?thesis by (simp add: put_child_def getChildNode_def getKeyedListEntry_def child_at_def)
qed

lemma child_created:
  assumes "set_walk op v (e' # es) next (child_at n name p) = Inr c" "child_at n name p \<noteq> NilInterface"
  shows "(\<exists>x. child_at n name p = At (JObj x)) \<or> child_at n name p = NilMap"
proof (cases "child_at n name p")
  case (At j)
  with assms show ?thesis by (cases j) simp_all
qed (use assms in simp_all)

lemma set_walk_NilMap: "set_walk op v (e # es) schema NilMap = Inr c \<Longrightarrow> False"
  by (auto simp: res_bind_Inr setPathWithoutAttribute_def setPathWithAttribute_def getChildNode_def getKeyedListEntry_def
    split: if_splits option.splits json.splits)

lemma set_walk_read:
  assumes "set_walk REPLACE v es schema (At (JObj m)) = Inr c" "es \<noteq> []" "path_stable es" "v \<noteq> JNull"
  shows "walk_get es schema c = At v"
  using assms
proof (induction es arbitrary: schema m c)
  case (Cons e es)
  show ?case
  proof (cases es)
    case Nil
    with Cons.prems show ?thesis
      by (cases "gget m (pe_Name e)"; cases v)
        (auto simp: setPathWithoutAttribute_def child_at_def res_bind_Inr)
  next
    case (Cons e' es')
    have ne: "es \<noteq> []" using local.Cons by simp
    from Cons.prems(1) ne obtain "next" p n where g: "getChildNode (Some m) schema e True = Inr (Some (next, p, n))"
      by (auto simp: res_bind_Inr split: option.splits)
    obtain m' where m': "n = Some m'" using getChildNode_other [OF g] by blast
    have ch: "child_at n (pe_Name e) p \<noteq> NilInterface" using Cons.prems(1) ne g by auto
    from Cons.prems(1) ne g ch obtain c' where c': "set_walk REPLACE v es next (child_at n (pe_Name e) p) = Inr c'"
        "c = of_map (put_child n (pe_Name e) p c')"
      by (auto simp: res_bind_Inr split: cursor.splits)
    then obtain x where x: "child_at n (pe_Name e) p = At (JObj x)"
      using child_created [of REPLACE v e' es' "next"] set_walk_NilMap local.Cons ch by metis
    obtain x' where x': "c' = At (JObj x')" "\<forall>k. k \<noteq> pe_Name e' \<longrightarrow> gget x' k = gget x k"
      using set_walk_other [OF c'(1) [unfolded x local.Cons]] by blast
    have ok: "gomap_ok (pe_Key e)" "\<forall>(k, v) \<in> set (pe_Key e). sprint_v (key_value v) = v" "pe_Name e' \<notin> gkeys (pe_Key e)"
        "path_stable es" using Cons.prems(3) local.Cons by auto
    have "\<And>k. k \<in> gkeys (pe_Key e) \<Longrightarrow> gget x' k = gget x k" using x'(2) ok(3) by metis
    from getChildNode_again [OF g [unfolded m'] x [unfolded m'] ok(1,2) this] obtain m'' where m'':
        "put_child (Some m') (pe_Name e) p (At (JObj x')) = Some m''"
        "getChildNode (Some m'') schema e False = Inr (Some (next, p, Some m''))" "child_at (Some m'') (pe_Name e) p = At (JObj x')" by blast
    have "walk_get es next c' = At v"
      by (rule Cons.IH [OF c'(1) [unfolded x] _ ok(4) Cons.prems(4)]) (simp add: local.Cons)
    with m'' c'(2) m' x'(1) ne show ?thesis by simp
  qed
qed simp

text \<open>
  C40: a replaced leaf is read back. When the walk of a replace succeeds on a path whose keys print as they are
  written, reading along the path, with no creation, gives the value, and no other field
  of the root has changed.
\<close>

theorem set_walk_get:
  assumes "set_walk REPLACE v (e # es) schema (At (JObj m)) = Inr c" "path_stable (e # es)" "v \<noteq> JNull"
  shows "walk_get (e # es) schema c = At v \<and> (\<forall>k. k \<noteq> pe_Name e \<longrightarrow> gget (cursor_tree c) k = gget m k)"
  using set_walk_read [OF assms(1) _ assms(2,3)] set_walk_other [OF assms(1)] by (auto simp: cursor_tree_def)

definition sample_schema :: yang_entry where
  "sample_schema = YangEntry [(''ports'', YangEntry [(''port'', YangEntry [(''config'', YangEntry [])])])]"

definition sample_path :: "PathElem list" where
  "sample_path = [\<lparr>pe_Name = ''ports'', pe_Key = []\<rparr>, \<lparr>pe_Name = ''port'', pe_Key = [(''name'', ''Port4'')]\<rparr>,
     \<lparr>pe_Name = ''config'', pe_Key = []\<rparr>, \<lparr>pe_Name = ''description'', pe_Key = []\<rparr>]"

lemma Port4_name: "sprint_v (key_value ''Port4'') = ''Port4''"
  by (rule name_stable, rule not_number) code_simp+

lemma set_walk_get_witness:
  "\<exists>c. set_walk REPLACE (JStr ''uplink'') sample_path sample_schema (At (JObj [(''ports'', JObj [(''port'', sample_list)])])) = Inr c \<and>
     walk_get sample_path sample_schema c = At (JStr ''uplink'')"
proof -
  have "\<exists>c. set_walk REPLACE (JStr ''uplink'') sample_path sample_schema (At (JObj [(''ports'', JObj [(''port'', sample_list)])])) = Inr c"
    by (simp add: sample_path_def sample_schema_def getChildNode_def nil_key_def child_at_def sample_list_def
      getKeyedListEntry_def new_entry_def setPathWithoutAttribute_def put_child_def)
  moreover have "path_stable sample_path" by (simp add: sample_path_def nil_key_def gomap_ok_def Port4_name)
  ultimately show ?thesis
    using set_walk_get [of "JStr ''uplink''" "hd sample_path" "tl sample_path" sample_schema "[(''ports'', JObj [(''port'', sample_list)])]"]
    by (auto simp: sample_path_def)
qed

subsection \<open>Paths through entries that do not exist\<close>

text \<open>
  Deleting below an entry that does not exist. The nil map that \<open>getKeyedListEntry\<close> returns is not
  the nil interface the loop looks for: the walk goes on into it, reports the path as
  deleted and leaves the tree as it is, so that the handler applies an unchanged configuration.
\<close>

lemma delete_below_missing_entry:
  assumes "gget (Dir schema) (pe_Name e) = Some next" "\<not> nil_key e" "nil_key x"
    and "\<forall>l. gget m (pe_Name e) = Some (JArr l) \<longrightarrow> skips (pe_Key e) l"
  shows "delete_walk [e, x] schema (At (JObj m)) = Inr (True, At (JObj m))"
proof -
  have "getKeyedListEntry (Some m) e False = Inr (None, Some m)"
  proof (cases "gget m (pe_Name e)")
    case None
    then show ?thesis by (simp add: getKeyedListEntry_def)
  next
    case (Some j)
    show ?thesis
    proof (cases j)
      case (JArr l)
      with Some assms(4) have "search_entry (pe_Key e) 0 l = Missing" by (simp add: search_entry_Missing)
      with Some JArr show ?thesis by (simp add: getKeyedListEntry_def)
    qed (use Some in \<open>simp_all add: getKeyedListEntry_def\<close>)
  qed
  with assms show ?thesis by (simp add: getChildNode_def child_at_def put_child_def)
qed

lemma delete_below_missing_entry_witness:
  "delete_walk [\<lparr>pe_Name = ''port'', pe_Key = [(''name'', ''Port9'')]\<rparr>, \<lparr>pe_Name = ''config'', pe_Key = []\<rparr>]
     (YangEntry [(''port'', YangEntry [])]) (At (JObj [(''port'', sample_list)])) = Inr (True, At (JObj [(''port'', sample_list)]))"
  by (rule delete_below_missing_entry) (simp_all add: nil_key_def sample_list_def skips_def)

text \<open>
  A replace or update below an entry of a list that cannot be searched (an entry that lacks the key, or no list at all) is
  no error: the nil map is walked into as well, and the assignment to it panics.
\<close>

lemma set_below_broken_list_panics:
  assumes "gget (Dir schema) (pe_Name e) = Some next" "\<not> nil_key e" "nil_key x"
    and "gget m (pe_Name e) = Some j" "\<forall>l. j = JArr l \<longrightarrow> search_entry (pe_Key e) 0 l = Broken"
  shows "set_walk op v [e, x] schema (At (JObj m)) = Inl (Panic ''assignment to entry in nil map'')"
proof -
  have "getKeyedListEntry (Some m) e True = Inr (None, Some m)"
    using assms(4,5) by (cases j) (simp_all add: getKeyedListEntry_def)
  with assms show ?thesis by (simp add: getChildNode_def child_at_def setPathWithoutAttribute_def)
qed

lemma set_below_broken_list_panics_witness:
  "set_walk UPDATE (JStr ''x'') [\<lparr>pe_Name = ''port'', pe_Key = [(''id'', ''1'')]\<rparr>, \<lparr>pe_Name = ''description'', pe_Key = []\<rparr>]
     (YangEntry [(''port'', YangEntry [])]) (At (JObj [(''port'', sample_list)])) = Inl (Panic ''assignment to entry in nil map'')"
  by (rule set_below_broken_list_panics [where j = sample_list]) (auto simp: nil_key_def sample_list_def)

end
