(* ===== verification/Gnmi_Set.thy ===== *)
theory Gnmi_Set
  imports Gnmi_Paths
begin

section \<open>What Set does to the device\<close>

text \<open>
  The gNMI server and the device it configures meet in the callback. Its contract is the interface \<open>device\<close>:
  a callback that succeeds has applied its configuration. Proved once of it: where a successful \<open>Set\<close> leaves the
  device, and that an aborted one leaves it with the configuration of the server. The callback of \<open>cmd/gnmi\<close> provides
  the interface on a host that carries out its operations, with the configuration file as the device.
\<close>

subsection \<open>Errors that do not abort\<close>

definition Aborted :: err where
  "Aborted = grpc_status ''Aborted'' ''error in applying operation to device: %v''"

definition calm :: "'a res \<Rightarrow> bool" where
  "calm r \<longleftrightarrow> r \<noteq> Inl Aborted"

lemma calm_simps [simp]:
  "calm (Inr x)" "calm (Inl (Panic p))" "calm (Inl (Ext p))"
  "calm (Inl (grpc_status code f)) \<longleftrightarrow> grpc_status code f \<noteq> Aborted"
  by (simp_all add: calm_def Aborted_def grpc_status_def)

lemma Aborted_codes [simp]:
  "grpc_status ''NotFound'' f \<noteq> Aborted" "grpc_status ''InvalidArgument'' f \<noteq> Aborted" "grpc_status ''Internal'' f \<noteq> Aborted"
  "grpc_status ''Unimplemented'' f \<noteq> Aborted"
  by (simp_all add: grpc_status_def Aborted_def)

lemma aborts_calm: "aborts (Inl e) \<Longrightarrow> e \<noteq> Aborted"
  by (auto simp: Aborted_def grpc_status_def aborts_def)

lemma calm_bind: "calm r \<Longrightarrow> (\<And>x. r = Inr x \<Longrightarrow> calm (f x)) \<Longrightarrow> calm (res_bind r f)"
  by (cases r) (auto simp: calm_def)

lemma calm_wrap_status [simp]:
  "calm (wrap_status ''NotFound'' f r)" "calm (wrap_status ''InvalidArgument'' f r)" "calm (wrap_status ''Internal'' f r)"
  by (auto simp: wrap_status_def calm_def grpc_status_def Aborted_def aborts_def split: sum.split err.split)

lemma wrap_status_Inr [simp]: "wrap_status code f r = Inr x \<longleftrightarrow> r = Inr x"
  by (auto simp: wrap_status_def split: sum.split)

lemma wrap_status_Aborted [simp]: "wrap_status ''Internal'' f r \<noteq> Inl Aborted"
  using calm_wrap_status(3) [of f r] by (simp add: calm_def)

lemma calm_deref [simp]: "calm (deref p)"
  by (cases p) simp_all

lemma calm_mset_key [simp]: "calm (mset_key node k v)"
  by (cases node) simp_all

lemma calm_getKeyedListEntry [simp]: "calm (getKeyedListEntry node e create)"
  by (auto simp: getKeyedListEntry_def intro!: calm_bind split: option.split json.split search_result.split)

lemma calm_getChildNode [simp]: "calm (getChildNode node schema e create)"
  by (auto simp: getChildNode_def intro!: calm_bind split: option.split)

lemma calm_delete_walk [simp]: "calm (delete_walk es schema cur)"
  by (induction es arbitrary: schema cur)
    (auto intro!: calm_bind split: option.split cursor.split prod.split)

lemma calm_set_attrs [simp]: "calm (set_attrs ks val m)"
  by (induction ks arbitrary: m) (auto split: option.split)

lemma calm_setPath [simp]: "calm (setPathWithAttribute op node e v)" "calm (setPathWithoutAttribute op node e v)"
  by (auto simp: setPathWithAttribute_def setPathWithoutAttribute_def intro!: calm_bind split: option.split json.split)

lemma calm_set_walk [simp]: "calm (set_walk op v es schema cur)"
  by (induction es arbitrary: schema cur)
    (auto intro!: calm_bind split: option.split cursor.split json.split prod.split)

lemma calm_gnmiFullPath [simp]: "calm (gnmiFullPath prfx path)"
  by (simp add: gnmiFullPath_def calm_bind)

lemma calm_node_value [simp]: "calm (node_value L srv path v)"
  by (auto simp: node_value_def intro!: calm_bind split: ynode.split)

lemma calm_replace_root [simp]: "calm (replace_root op path v t)"
  by (auto simp: replace_root_def split: json.split)

subsection \<open>The loops over the operations\<close>

lemma set_ops_aborted:
  assumes "set_ops f xs tr s = (Inl Aborted, t)" "\<And>tree x s t. f tree x s = (Inl Aborted, t) \<Longrightarrow> P t"
  shows "P t"
  using assms(1)
proof (induction xs arbitrary: tr s)
  case (Cons x xs)
  then show ?case using assms(2) by (auto simp: pbind_def split: prod.splits sum.splits)
qed (simp add: pret_def)

lemma set_ops_results:
  assumes "set_ops f xs tr s = (Inr tr', t)" "\<And>tree x s tree' u t. f tree x s = (Inr (tree', u), t) \<Longrightarrow> u = g x"
  shows "snd tr' = snd tr @ map g xs"
  using assms(1)
proof (induction xs arbitrary: tr s)
  case (Cons x xs)
  from Cons.prems obtain tree' u w where "f (fst tr) x s = (Inr (tree', u), w)" "set_ops f xs (tree', snd tr @ [u]) w = (Inr tr', t)"
    by (auto simp: prog_Inr)
  with Cons.IH assms(2) show ?case by fastforce
qed (simp add: prog_Inr)

lemma set_ops_last:
  assumes "set_ops f xs tr s = (Inr tr', t)" "xs = [] \<Longrightarrow> Q (fst tr) s"
    and "\<And>tree x s tree' u t. f tree x s = (Inr (tree', u), t) \<Longrightarrow> Q tree' t"
  shows "Q (fst tr') t"
  using assms(1,2)
proof (induction xs arbitrary: tr s)
  case (Cons x xs)
  from Cons.prems(1) obtain tree' u w where w: "f (fst tr) x s = (Inr (tree', u), w)" "set_ops f xs (tree', snd tr @ [u]) w = (Inr tr', t)"
    by (auto simp: prog_Inr)
  with Cons.IH [OF w(2)] assms(3) [OF w(1)] show ?case by simp
qed (auto simp: prog_Inr)

subsection \<open>The device\<close>

lemma apply_tree_Inr:
  assumes "sv_callback srv = Some cb" "apply_tree L srv tree s = (Inr (), t)"
  obtains g where "toGoStruct L srv tree = Inr g" "cb g s = (Inr (), t)"
proof (cases "toGoStruct L srv tree")
  case (Inl e)
  with assms show ?thesis by (auto simp: apply_tree_def wrap_status_def prog_Inr split: if_splits)
next
  case (Inr g)
  obtain r u where "cb g s = (r, u)" by (cases "cb g s")
  with assms Inr that show ?thesis by (cases r) (auto simp: apply_tree_def wrap_status_def prog_Inr split: sum.splits, metis sumE old.unit.exhaust)
qed

lemma apply_tree_Aborted:
  assumes cb: "sv_callback srv = Some cb" and run: "apply_tree L srv tree s = (Inl Aborted, t)"
  shows "\<exists>u. cb (sv_config srv) u = (Inr (), t)"
proof (cases "toGoStruct L srv tree")
  case (Inl e)
  have "calm (wrap_status ''Internal'' ''%v'' (toGoStruct L srv tree))" by simp
  with run Inl show ?thesis by (auto simp: apply_tree_def calm_def pbind_def plift_def wrap_status_def split: if_splits)
next
  case (Inr g)
  obtain r u where r: "cb g s = (r, u)" by (cases "cb g s")
  obtain r' v where r': "cb (sv_config srv) u = (r', v)" by (cases "cb (sv_config srv) u")
  have "aborts (Inl e) \<Longrightarrow> (Inl e :: unit res, w) \<noteq> (Inl Aborted, t)" for e w using aborts_calm by blast
  with run Inr r r' cb show ?thesis
    by (cases r; cases r')
      (auto simp: apply_tree_def wrap_status_def pbind_def plift_def ptry_def pret_def pfail_def split: if_splits)
qed

locale device =
  fixes callback :: "'g \<Rightarrow> ('s, unit) prog" and applied :: "'s \<Rightarrow> 'g \<Rightarrow> bool"
  assumes applies: "callback g s = (Inr (), t) \<Longrightarrow> applied t g"
begin

definition configures :: "('t, 'g, 's) server \<Rightarrow> bool" where
  "configures srv \<longleftrightarrow> sv_callback srv = Some callback"

text \<open>The tree is the one the device was configured from.\<close>

definition in_sync :: "('t, 'g) ygot_lib \<Rightarrow> ('t, 'g, 's) server \<Rightarrow> tree \<Rightarrow> 's \<Rightarrow> bool" where
  "in_sync L srv tree s \<longleftrightarrow> (\<exists>g. toGoStruct L srv tree = Inr g \<and> applied s g)"

lemma doReplaceOrUpdate_sync:
  assumes "configures srv" "doReplaceOrUpdate L srv tree op prfx path v s = (Inr (tree', u), t)"
  shows "in_sync L srv tree' t"
proof -
  from assms(2) obtain w where "apply_tree L srv tree' w = (Inr (), t)"
    by (auto simp: doReplaceOrUpdate_def prog_Inr)
  then show ?thesis using assms(1) apply_tree_Inr applies unfolding in_sync_def configures_def by metis
qed

lemma doReplaceOrUpdate_aborted:
  assumes "configures srv" "doReplaceOrUpdate L srv tree op prfx path v s = (Inl Aborted, t)"
  shows "applied t (sv_config srv)"
proof -
  have "\<exists>tree' w. apply_tree L srv tree' w = (Inl Aborted, t)"
    using assms(2) calm_gnmiFullPath [of prfx path] calm_node_value [of L srv] calm_set_walk calm_replace_root
    by (auto simp: doReplaceOrUpdate_def pbind_def pseq_def plift_def pret_def calm_def split: prod.splits sum.splits)
  then show ?thesis using apply_tree_Aborted [of srv callback] assms(1) applies by (metis configures_def)
qed

lemma doDelete_aborted:
  assumes "configures srv" "doDelete L srv tree prfx path s = (Inl Aborted, t)"
  shows "applied t (sv_config srv)"
proof -
  have "\<exists>tree' w. apply_tree L srv tree' w = (Inl Aborted, t)"
    using assms(2) calm_gnmiFullPath [of prfx path] calm_delete_walk
    by (auto simp: doDelete_def Let_def pbind_def pseq_def plift_def pret_def calm_def split: prod.splits sum.splits if_splits)
  then show ?thesis using apply_tree_Aborted [of srv callback] assms(1) applies by (metis configures_def)
qed

lemma set_tree_aborted:
  assumes c: "configures srv" and run: "set_tree L srv req tree s = (Inl Aborted, t)"
  shows "applied t (sv_config srv)"
proof -
  note del = set_ops_aborted [where P = "\<lambda>t. applied t (sv_config srv)", OF _ doDelete_aborted [OF c]]
  have rep: "set_ops (\<lambda>t (path, v). doReplaceOrUpdate L srv t op (sr_Prefix req) path v) xs tr s = (Inl Aborted, t) \<Longrightarrow>
      applied t (sv_config srv)" for op xs tr s
    by (rule set_ops_aborted [where P = "\<lambda>t. applied t (sv_config srv)"]) (auto intro: doReplaceOrUpdate_aborted [OF c])
  show ?thesis using run by (auto simp: set_tree_def pbind_def dest: del rep split: prod.splits sum.splits)
qed

lemma set_tree_sync:
  assumes c: "configures srv" and run: "set_tree L srv req tree s = (Inr (tree', us), t)"
    and some: "sr_Replace req \<noteq> [] \<or> sr_Update req \<noteq> []"
  shows "in_sync L srv tree' t"
proof -
  from run obtain t1 s1 t2 s2 where
    r: "set_ops (\<lambda>t (path, v). doReplaceOrUpdate L srv t REPLACE (sr_Prefix req) path v) (sr_Replace req) t1 s1 = (Inr t2, s2)"
    and u: "set_ops (\<lambda>t (path, v). doReplaceOrUpdate L srv t UPDATE (sr_Prefix req) path v) (sr_Update req) t2 s2 = (Inr (tree', us), t)"
    by (auto simp: set_tree_def prog_Inr)
  have "in_sync L srv (fst t2) s2" if "sr_Replace req \<noteq> []"
    by (rule set_ops_last [where Q = "in_sync L srv", OF r]) (use that in \<open>auto intro: doReplaceOrUpdate_sync [OF c]\<close>)
  then have "in_sync L srv (fst (tree', us)) t"
    by (intro set_ops_last [where Q = "in_sync L srv", OF u]) (use some in \<open>auto intro: doReplaceOrUpdate_sync [OF c]\<close>)
  then show ?thesis by simp
qed

text \<open>A whole request.\<close>

lemma Set_Inr:
  assumes "gnmi_Set L req (srv, s) = (Inr resp, (srv', t))"
  obtains j u tree dump where "set_tree L srv req j s = (Inr (tree, sp_Response resp), t)"
    "marshal (JObj tree) = Inr dump" "NewConfigStruct L (sv_model srv) (Some dump) = Inr (sv_config srv')"
    "srv' = srv\<lparr>sv_config := sv_config srv'\<rparr>" "sp_Prefix resp = sr_Prefix req"
proof -
  from assms obtain g results where *: "set_config L srv req s = (Inr (g, results), t)"
      "resp = \<lparr>sp_Prefix = sr_Prefix req, sp_Response = results\<rparr>" "srv' = srv\<lparr>sv_config := g\<rparr>"
    by (auto simp: gnmi_Set_def split: prod.splits sum.splits)
  from *(1) show ?thesis using that *(2,3)
    by (auto simp: set_config_def prog_Inr simp del: marshal.simps)
qed

lemma Set_sync:
  assumes c: "configures srv" and run: "gnmi_Set L req (srv, s) = (Inr resp, (srv', t))"
    and some: "sr_Replace req \<noteq> [] \<or> sr_Update req \<noteq> []"
  shows "applied t (sv_config srv')"
  using run
proof (rule Set_Inr)
  fix j tree dump
  assume *: "set_tree L srv req j s = (Inr (tree, sp_Response resp), t)" "marshal (JObj tree) = Inr dump"
    "NewConfigStruct L (sv_model srv) (Some dump) = Inr (sv_config srv')"
  from set_tree_sync [OF c *(1) some] obtain g where "toGoStruct L srv tree = Inr g" "applied t g" by (auto simp: in_sync_def)
  moreover have "toGoStruct L srv tree = Inr (sv_config srv')" using *(2,3) by (simp add: toGoStruct_def wrap_err_def)
  ultimately show ?thesis by simp
qed

lemma Set_fails:
  assumes "gnmi_Set L req (srv, s) = (Inl e, (srv', t))"
  shows "srv' = srv" and "configures srv \<Longrightarrow> e = Aborted \<Longrightarrow> applied t (sv_config srv)"
proof -
  from assms have run: "set_config L srv req s = (Inl e, t)" and "srv' = srv"
    by (auto simp: gnmi_Set_def split: prod.splits sum.splits)
  then show "srv' = srv" by simp
  assume c: "configures srv" and e: "e = Aborted"
  have "\<exists>j u. set_tree L srv req j u = (Inl Aborted, t)"
    using run e by (auto simp: set_config_def pbind_def plift_def pret_def simp del: marshal.simps split: prod.splits sum.splits)
  with set_tree_aborted [OF c] show "applied t (sv_config srv)" by blast
qed

end

text \<open>One result for every operation of the request, in order.\<close>

lemma Set_results:
  assumes "gnmi_Set L req (srv, s) = (Inr resp, (srv', t))"
  shows "sp_Response resp = map (\<lambda>p. \<lparr>ur_Path = Some p, ur_Op = DELETE\<rparr>) (sr_Delete req) @
    map (\<lambda>(p, v). \<lparr>ur_Path = p, ur_Op = REPLACE\<rparr>) (sr_Replace req) @ map (\<lambda>(p, v). \<lparr>ur_Path = p, ur_Op = UPDATE\<rparr>) (sr_Update req)"
proof -
  from assms obtain j tree where "set_tree L srv req j s = (Inr (tree, sp_Response resp), t)"
    by (auto simp: gnmi_Set_def set_config_def prog_Inr split: prod.splits sum.splits)
  then obtain t1 s1 t2 s2 where
    d: "set_ops (\<lambda>t path. doDelete L srv t (sr_Prefix req) (Some path)) (sr_Delete req) (j, []) s = (Inr t1, s1)" and
    r: "set_ops (\<lambda>t (path, v). doReplaceOrUpdate L srv t REPLACE (sr_Prefix req) path v) (sr_Replace req) t1 s1 = (Inr t2, s2)" and
    u: "set_ops (\<lambda>t (path, v). doReplaceOrUpdate L srv t UPDATE (sr_Prefix req) path v) (sr_Update req) t2 s2 = (Inr (tree, sp_Response resp), t)"
    by (auto simp: set_tree_def prog_Inr)
  have "snd t1 = snd (j, []) @ map (\<lambda>p. \<lparr>ur_Path = Some p, ur_Op = DELETE\<rparr>) (sr_Delete req)"
    by (rule set_ops_results [OF d]) (auto simp: doDelete_def Let_def prog_Inr)
  moreover have "snd t2 = snd t1 @ map (\<lambda>(p, v). \<lparr>ur_Path = p, ur_Op = REPLACE\<rparr>) (sr_Replace req)"
    by (rule set_ops_results [OF r]) (auto simp: doReplaceOrUpdate_def prog_Inr)
  moreover have "snd (tree, sp_Response resp) = snd t2 @ map (\<lambda>(p, v). \<lparr>ur_Path = p, ur_Op = UPDATE\<rparr>) (sr_Update req)"
    by (rule set_ops_results [OF u]) (auto simp: doReplaceOrUpdate_def prog_Inr)
  ultimately show ?thesis by simp
qed

subsection \<open>The configuration file as the device\<close>

definition file_applied :: "('s \<Rightarrow> string \<rightharpoonup> string) \<Rightarrow> ('g \<Rightarrow> string res) \<Rightarrow> 's \<Rightarrow> 'g \<Rightarrow> bool" where
  "file_applied files emit s g \<longleftrightarrow> (\<exists>x. emit g = Inr x \<and> files s gnmi_config_file = Some (x @ [newline]))"

sublocale kubernetes \<subseteq> dev: device "gnmi_callback H emit" "file_applied files emit" for emit
proof
  fix g s t
  assume "gnmi_callback H emit g s = (Inr (), t)"
  then obtain x where "emit g = Inr x"
      "pseq (pwrap ''%v'' (ho_create H gnmi_config_file)) (write_line H gnmi_config_file x) s = (Inr (), t)"
    by (auto simp: gnmi_callback_def prog_Inr wrap_err_def split: sum.splits if_splits)
  with save_file [of "''%v''" gnmi_config_file x s] show "file_applied files emit t g" by (auto simp: file_applied_def)
qed

context kubernetes begin

lemma callback_device: "device (gnmi_callback H emit) (file_applied files emit)"
  by (rule dev.device_axioms)

end

subsection \<open>Properties of Set\<close>


text \<open>A library whose configurations are their JSON text, and a model without lists.\<close>

definition text_lib :: "(unit, string) ygot_lib" where
  "text_lib = \<lparr>yg_NewNode = (\<lambda>t p. if gp_Elem p = [] then Inr (StructNode []) else Inr (ScalarPtr JNull)),
     yg_GetNode = (\<lambda>sch g p. Inr (StructNode g)), yg_Validate = (\<lambda>g. Inr ()),
     yg_IETFJSON = (\<lambda>b g. Inr []), yg_InternalJSON = (\<lambda>g. Inr []),
     yg_ToScalar = (\<lambda>v. case v of StringValue x \<Rightarrow> Inr (JStr x) | _ \<Rightarrow> Inr JNull),
     yg_FromScalar = (\<lambda>j. Inr (StringValue []))\<rparr>"

definition text_model :: "(unit, string) gnmi_model" where
  "text_model = \<lparr>gm_modelData = ModelData, gm_structRootType = (), gm_schemaTreeRoot = YangEntry [],
     gm_jsonUnmarshaler = (\<lambda>x g. Inr x), gm_enumData = []\<rparr>"

definition text_server :: "(unit, string, mem_host) server" where
  "text_server = \<lparr>sv_port = 10164, sv_addr = [], sv_config = ''{}'', sv_model = text_model,
     sv_callback = Some (gnmi_callback mem_cluster Inr)\<rparr>"

definition leaf_request :: SetRequest where
  "leaf_request = \<lparr>sr_Prefix = None, sr_Delete = [],
     sr_Replace = [(Some \<lparr>gp_Origin = [], gp_Element = [], gp_Elem = [\<lparr>pe_Name = ''a'', pe_Key = []\<rparr>]\<rparr>, Some (StringValue ''b''))],
     sr_Update = []\<rparr>"

lemma leaf_request_runs:
  "\<exists>resp srv t. gnmi_Set text_lib leaf_request (text_server, \<lparr>mh_files = [], mh_deployed = []\<rparr>) = (Inr resp, (srv, t))"
proof -
  let ?p = "\<lparr>gp_Origin = [], gp_Element = [], gp_Elem = [\<lparr>pe_Name = ''a'', pe_Key = []\<rparr>]\<rparr>"
  have node: "node_value text_lib text_server ?p (Some (StringValue ''b'')) = Inr (JStr ''b'')"
    by (simp add: node_value_def text_lib_def text_server_def text_model_def wrap_status_def)
  have dump: "\<exists>d. marshal (JObj [(''a'', JStr ''b'')]) = Inr d \<and> toGoStruct text_lib text_server [(''a'', JStr ''b'')] = Inr d"
    by (simp add: toGoStruct_def NewConfigStruct_def text_lib_def text_server_def text_model_def wrap_err_def sort_key_def pbRootPath_def)
  then obtain d where d: "marshal (JObj [(''a'', JStr ''b'')]) = Inr d" "toGoStruct text_lib text_server [(''a'', JStr ''b'')] = Inr d" by blast
  have cb: "\<exists>t. gnmi_callback mem_cluster Inr d s = (Inr (), t)" for s
    using mk.save_file [of "''%v''" gnmi_config_file d s] by (auto simp: gnmi_callback_def pbind_def plift_def wrap_err_def)
  obtain t where "gnmi_callback mem_cluster Inr d \<lparr>mh_files = [], mh_deployed = []\<rparr> = (Inr (), t)" using cb by blast
  then have t: "apply_tree text_lib text_server [(''a'', JStr ''b'')] \<lparr>mh_files = [], mh_deployed = []\<rparr> = (Inr (), t)"
    using d(2) by (simp add: apply_tree_def wrap_status_def pbind_def plift_def ptry_def pret_def text_server_def)
  have new: "NewConfigStruct text_lib (sv_model text_server) (Some d) = Inr d"
    by (simp add: NewConfigStruct_def text_lib_def text_server_def text_model_def pbRootPath_def)
  have "doReplaceOrUpdate text_lib text_server [] REPLACE None (Some ?p) (Some (StringValue ''b'')) \<lparr>mh_files = [], mh_deployed = []\<rparr> =
      (Inr ([(''a'', JStr ''b'')], \<lparr>ur_Path = Some ?p, ur_Op = REPLACE\<rparr>), t)"
    using node t by (simp add: doReplaceOrUpdate_def gnmiFullPath_def path_Elem_def path_Element_def pbind_def plift_def pseq_def pret_def
        setPathWithoutAttribute_def nil_key_def replace_root_def pbRootPath_def cursor_tree_def)
  then have "set_tree text_lib text_server leaf_request [] \<lparr>mh_files = [], mh_deployed = []\<rparr> =
      (Inr ([(''a'', JStr ''b'')], [\<lparr>ur_Path = Some ?p, ur_Op = REPLACE\<rparr>]), t)"
    by (simp add: set_tree_def leaf_request_def pbind_def pret_def)
  then have "\<exists>x. set_config text_lib text_server leaf_request \<lparr>mh_files = [], mh_deployed = []\<rparr> = (Inr x, t)"
    using d(1) new by (simp add: set_config_def pbind_def plift_def pret_def wrap_status_def del: marshal.simps) (simp add: text_lib_def)
  then show ?thesis by (auto simp: gnmi_Set_def)
qed


end
