(* ===== verification/GoDecimal.thy ===== *)
theory GoDecimal
  imports Gnmi_Tree
begin

section \<open>Numbers and their texts\<close>

text \<open>
  The text of a \<open>float64\<close> is its shortest decimal that is read back as the number. The search for it,
  \<open>shortest_from\<close>, has seventeen digits to spend. Here: that this is enough for every \<open>float64\<close>, so that the
  search always ends with a decimal that is read back; that \<open>ParseFloat\<close> reads every number back from what \<open>%v\<close> prints; and
  what this means for the entries of a list whose keys are numbers.
\<close>

subsection \<open>Powers and logarithms\<close>

lemma pow2_powi: "pow2 e = 2 powi e" and pow10_powi: "pow10 e = 10 powi e"
  by (simp_all add: pow2_def pow10_def power_int_def power_one_over inverse_eq_divide)

lemma pow_pos [simp]: "0 < pow2 e" "0 < pow10 e"
  by (simp_all add: pow2_powi pow10_powi)

lemma pow_nonzero [simp]: "pow2 e \<noteq> 0" "pow10 e \<noteq> 0"
  by (simp_all add: pow2_def pow10_def)

lemma pow2_add: "pow2 (a + b) = pow2 a * pow2 b" and pow10_add: "pow10 (a + b) = pow10 a * pow10 b"
  by (simp_all add: pow2_powi pow10_powi power_int_add)

lemma pow2_less_iff [simp]: "pow2 a < pow2 b \<longleftrightarrow> a < b"
  using power_int_strict_increasing [of a b "2 :: rat"] power_int_strict_increasing [of b a "2 :: rat"]
  by (cases a b rule: linorder_cases) (simp_all add: pow2_powi)

lemma pow2_le_iff [simp]: "pow2 a \<le> pow2 b \<longleftrightarrow> a \<le> b"
  using pow2_less_iff [of b a] by linarith

text \<open>The logarithm of a fraction from that of the integer below its inverse.\<close>

lemma fraction_bounds:
  fixes x :: rat and b k :: nat
  assumes x: "0 < x" "x < 1" and n: "n = nat (\<lceil>1 / x\<rceil> - 1)" and b: "b ^ k \<le> n" "n < b ^ Suc k" "0 < b"
  shows "1 / of_nat b ^ Suc k \<le> x" "x < 1 / of_nat b ^ k"
proof -
  have "1 < 1 / x" using x by (simp add: less_divide_eq)
  then have "1 < \<lceil>1 / x\<rceil>" by (simp add: less_ceiling_iff)
  then have "0 \<le> \<lceil>1 / x\<rceil> - 1" by linarith
  then have "int n = \<lceil>1 / x\<rceil> - 1" unfolding n by (rule nat_0_le)
  then have n': "of_nat n = (of_int \<lceil>1 / x\<rceil> - 1 :: rat)" by (metis of_int_1 of_int_diff of_int_of_nat_eq)
  have lo: "of_nat n < 1 / x" and hi: "1 / x \<le> of_nat n + 1" using n' by linarith+
  have "(of_nat b ^ k :: rat) \<le> of_nat n" using b(1) by (metis of_nat_le_iff of_nat_power)
  then have "of_nat b ^ k < 1 / x" using lo by (rule le_less_trans)
  then show "x < 1 / of_nat b ^ k" using x b(3) by (simp add: field_simps)
  have "(of_nat n + 1 :: rat) \<le> of_nat b ^ Suc k" using b(2) by (metis Suc_leI add.commute of_nat_Suc of_nat_le_iff of_nat_power)
  then have "1 / x \<le> of_nat b ^ Suc k" using hi by (rule order_trans [rotated])
  then show "1 / of_nat b ^ Suc k \<le> x" using x b(3) by (simp add: field_simps)
qed

lemma whole_bounds:
  fixes x :: rat and b k :: nat
  assumes x: "1 \<le> x" and n: "n = nat \<lfloor>x\<rfloor>" and b: "b ^ k \<le> n" "n < b ^ Suc k"
  shows "of_nat b ^ k \<le> x" "x < of_nat b ^ Suc k"
proof -
  have "int n = \<lfloor>x\<rfloor>" using n x by simp
  then have n': "of_nat n = (of_int \<lfloor>x\<rfloor> :: rat)" by (metis of_int_of_nat_eq)
  have "(of_nat b ^ k :: rat) \<le> of_nat n" using b(1) by (metis of_nat_le_iff of_nat_power)
  then show "of_nat b ^ k \<le> x" using n' by linarith
  have "(of_nat n + 1 :: rat) \<le> of_nat b ^ Suc k" using b(2) by (metis Suc_leI add.commute of_nat_Suc of_nat_le_iff of_nat_power)
  then show "x < of_nat b ^ Suc k" using n' by linarith
qed

lemma itoa_nat_bounds: "0 < n \<Longrightarrow> 10 ^ (length (itoa_nat n) - 1) \<le> n \<and> n < 10 ^ length (itoa_nat n)"
proof (induction n rule: itoa_nat.induct)
  case (1 n)
  show ?case
  proof (cases "n < 10")
    case True
    with 1 show ?thesis by (simp add: itoa_nat.simps [of n])
  next
    case False
    then have IH: "10 ^ (length (itoa_nat (n div 10)) - 1) \<le> n div 10 \<and> n div 10 < 10 ^ length (itoa_nat (n div 10))"
      using 1 by simp
    have len: "length (itoa_nat n) = Suc (length (itoa_nat (n div 10)))" using False by (simp add: itoa_nat.simps [of n])
    obtain l where l: "length (itoa_nat (n div 10)) = Suc l" by (metis itoa_nat_nonempty length_0_conv not0_implies_Suc)
    show ?thesis using IH unfolding len l by simp linarith
  qed
qed

lemma flog2_bounds:
  assumes "0 < x"
  shows "pow2 (flog2 x) \<le> x" "x < pow2 (flog2 x + 1)"
proof -
  have "pow2 (flog2 x) \<le> x \<and> x < pow2 (flog2 x + 1)"
  proof (cases "1 \<le> x")
    case True
    let ?n = "nat \<lfloor>x\<rfloor>"
    have "0 < ?n" using True by simp
    then have "2 ^ ilog2 ?n \<le> ?n" "?n < 2 ^ Suc (ilog2 ?n)" using ilog2_bounds [of ?n] by simp_all
    from whole_bounds [OF True refl this] True show ?thesis by (simp add: flog2_def pow2_def nat_add_distrib)
  next
    case False
    let ?n = "nat (\<lceil>1 / x\<rceil> - 1)"
    have "1 < 1 / x" using False assms by (simp add: less_divide_eq)
    then have "1 < \<lceil>1 / x\<rceil>" by (simp add: less_ceiling_iff)
    then have "0 < ?n" by simp
    then have "2 ^ ilog2 ?n \<le> ?n" "?n < 2 ^ Suc (ilog2 ?n)" using ilog2_bounds [of ?n] by simp_all
    from fraction_bounds [OF assms _ refl this] False
    have "1 / 2 ^ Suc (ilog2 ?n) \<le> x" "x < 1 / 2 ^ ilog2 ?n" by simp_all
    moreover have "pow2 (- int (k + 1)) = 1 / 2 ^ Suc k" "pow2 (- int (k + 1) + 1) = 1 / 2 ^ k" for k
      by (cases k; simp add: pow2_def nat_add_distrib)+
    ultimately show ?thesis using False by (simp only: flog2_def if_False simp_thms)
  qed
  then show "pow2 (flog2 x) \<le> x" "x < pow2 (flog2 x + 1)" by simp_all
qed

lemma flog10_lower:
  assumes "0 < x"
  shows "pow10 (flog10 x) \<le> x"
proof (cases "1 \<le> x")
  case True
  let ?n = "nat \<lfloor>x\<rfloor>"
  obtain l where l: "length (itoa_nat ?n) = Suc l" by (metis itoa_nat_nonempty length_0_conv not0_implies_Suc)
  have "0 < ?n" using True by simp
  from itoa_nat_bounds [OF this] have "10 ^ l \<le> ?n" "?n < 10 ^ Suc l" by (simp_all add: l)
  from whole_bounds(1) [OF True refl this] True l show ?thesis by (simp add: flog10_def pow10_def)
next
  case False
  let ?n = "nat (\<lceil>1 / x\<rceil> - 1)"
  obtain l where l: "length (itoa_nat ?n) = Suc l" by (metis itoa_nat_nonempty length_0_conv not0_implies_Suc)
  have "1 < 1 / x" using False assms by (simp add: less_divide_eq)
  then have "1 < \<lceil>1 / x\<rceil>" by (simp add: less_ceiling_iff)
  then have "0 < ?n" by simp
  from itoa_nat_bounds [OF this] have "10 ^ l \<le> ?n" "?n < 10 ^ Suc l" by (simp_all add: l)
  from fraction_bounds(1) [OF assms _ refl this] False have "1 / 10 ^ Suc l \<le> x" by simp
  moreover have "pow10 (- int (Suc l)) = 1 / 10 ^ Suc l" by (simp add: pow10_def nat_add_distrib)
  ultimately show ?thesis using False l by (simp only: flog10_def if_False)
qed

lemma flog2_unique:
  assumes "pow2 k \<le> y" "y < pow2 (k + 1)"
  shows "flog2 y = k"
proof -
  have y: "0 < y" using assms(1) pow_pos(1) [of k] by linarith
  have "pow2 k < pow2 (flog2 y + 1)" "pow2 (flog2 y) < pow2 (k + 1)" using flog2_bounds [OF y] assms by linarith+
  then show ?thesis by simp
qed

subsection \<open>Rounding near a float\<close>

lemma round_even_near:
  assumes "\<bar>z - of_int m\<bar> < 1 / 2"
  shows "round_even z = m"
proof (cases "of_int m \<le> z")
  case True
  then have "\<lfloor>z\<rfloor> = m" using assms by (intro floor_unique) (auto simp: abs_if split: if_splits)
  then show ?thesis using assms True by (simp add: round_even_def Let_def)
next
  case False
  then have "\<lfloor>z\<rfloor> = m - 1" using assms by (intro floor_unique) (auto simp: abs_if split: if_splits)
  then show ?thesis using assms False by (simp add: round_even_def Let_def)
qed

lemma pow2_multiple: "f \<le> e \<Longrightarrow> \<exists>K. pow2 e = of_int K * pow2 f"
  by (rule exI [of _ "2 ^ nat (e - f)"]) (use pow2_add [of "e - f" f] in \<open>simp add: pow2_def\<close>)

lemma pow2_tenth: "pow2 e / 10 ^ 16 < pow2 (e - 53)"
  using pow2_add [of "e - 53" 53] pow_pos(1) [of "e - 53"] by (simp add: pow2_def)

text \<open>A number \<open>y\<close> rounds to the multiple \<open>x\<close> of the unit of its binade when it is less than half a unit away.\<close>

lemma round64_unit:
  assumes y: "pow2 k \<le> y" "y < pow2 (k + 1)" and x: "x = of_int m * pow2 (max (k - 52) (- 1074))"
    and near: "\<bar>y - x\<bar> < pow2 (max (k - 52) (- 1074)) / 2"
  shows "round64 y = x"
proof -
  let ?u = "pow2 (max (k - 52) (- 1074))"
  have "0 < y" using y(1) pow_pos(1) [of k] by linarith
  have "y / ?u - of_int m = (y - x) / ?u" using pow_pos(1) [of "max (k - 52) (- 1074)"] by (simp add: x diff_divide_distrib)
  then have "\<bar>y / ?u - of_int m\<bar> = \<bar>y - x\<bar> / ?u" by (simp add: abs_divide abs_of_pos)
  then have "\<bar>y / ?u - of_int m\<bar> < 1 / 2" using near by (simp add: divide_less_eq)
  then show ?thesis using \<open>0 < y\<close> flog2_unique [OF y] by (simp add: round64_def round_even_near x)
qed

lemma round64_near:
  assumes x: "0 < x" "round64 x = x" and near: "\<bar>y - x\<bar> \<le> x / 10 ^ 16 / 2"
  shows "round64 y = x"
proof -
  define e where "e = flog2 x"
  define f where "f = max (e - 52) (- 1074)"
  have bin: "pow2 e \<le> x" "x < pow2 (e + 1)" using flog2_bounds [OF x(1)] by (simp_all add: e_def)
  define m where "m = round_even (x / pow2 f)"
  have m: "x = of_int m * pow2 f" using x by (simp add: round64_def Let_def e_def f_def m_def)
  have "0 < m" using x(1) m pow_pos(1) [of f] by (metis of_int_0_less_iff zero_less_mult_pos2)
  then have "1 * pow2 f \<le> x" unfolding m using less_imp_le [OF pow_pos(1)] by (intro mult_right_mono) auto
  with bin(2) have "pow2 f < pow2 (e + 1)" by linarith
  then have fe: "f \<le> e" by simp
  have "pow2 (e - 53) * 2 = pow2 (e - 52)" using pow2_add [of "e - 53" 1] by (simp add: pow2_def [of 1])
  then have f53: "pow2 (e - 53) * 2 \<le> pow2 f" using pow2_le_iff [of "e - 52" f] by (simp add: f_def)
  have tenth: "x / 10 ^ 16 < pow2 (e - 53) * 2" using bin(2) pow2_tenth [of "e + 1"] pow2_add [of "e - 53" 1]
    by (simp add: pow2_def [of 1] algebra_simps)
  then have d: "\<bar>y - x\<bar> < pow2 f / 2" using f53 by (intro le_less_trans [OF near]) simp
  consider "pow2 (e + 1) \<le> y" | "pow2 e \<le> y" "y < pow2 (e + 1)" | "y < pow2 e" by linarith
  then show ?thesis
  proof cases
    case 1
    obtain K where K: "pow2 (e + 1) = of_int K * pow2 f" using pow2_multiple [of f "e + 1"] fe by auto
    then have "m < K" using bin(2) by (simp add: m)
    then have "of_int (m + 1) * pow2 f \<le> pow2 (e + 1)"
      unfolding K using less_imp_le [OF pow_pos(1)] by (intro mult_right_mono) auto
    then have "x + pow2 f \<le> pow2 (e + 1)" by (simp add: m algebra_simps)
    then have False using 1 d pow_pos(1) [of f] by linarith
    then show ?thesis ..
  next
    case 2
    then show ?thesis using round64_unit [of e y x m] m d by (simp add: f_def)
  next
    case 3
    obtain K where K: "pow2 e = of_int K * pow2 f" using pow2_multiple [OF fe] by auto
    have "m = K"
    proof (rule ccontr)
      assume "m \<noteq> K"
      moreover have "K \<le> m" using bin(1) by (simp add: m K)
      ultimately have "of_int (K + 1) * pow2 f \<le> x"
        unfolding m using less_imp_le [OF pow_pos(1)] by (intro mult_right_mono) auto
      then have "pow2 e + pow2 f \<le> x" unfolding K by (simp add: algebra_simps)
      then show False using 3 d pow_pos(1) [of f] by linarith
    qed
    then have xe: "x = pow2 e" using m K by simp
    define g where "g = max (e - 1 - 52) (- 1074)"
    have ge: "g \<le> e" using fe by (auto simp: f_def g_def)
    obtain M where M: "pow2 e = of_int M * pow2 g" using pow2_multiple [OF ge] by auto
    have "pow2 (e - 53) \<le> pow2 g" by (simp add: g_def)
    then have "x / 10 ^ 16 < pow2 g" unfolding xe by (rule less_le_trans [OF pow2_tenth])
    then have "\<bar>y - x\<bar> < pow2 g / 2" by (intro le_less_trans [OF near]) simp
    moreover have "pow2 (e - 1) \<le> y"
    proof -
      have "x / 10 ^ 16 / 2 \<le> x / 2" using x(1) by simp
      then have "\<bar>y - x\<bar> \<le> x / 2" by (rule order_trans [OF near])
      moreover have "x = pow2 (e - 1) * 2" using pow2_add [of "e - 1" 1] by (simp add: xe pow2_def [of 1])
      ultimately show ?thesis by linarith
    qed
    ultimately show ?thesis using round64_unit [of "e - 1" y x M] 3 M by (simp add: xe g_def)
  qed
qed

subsection \<open>The shortest decimal\<close>

lemma decimal_17:
  assumes "0 < x" "round64 x = x"
  shows "decimal_of 17 x \<noteq> None"
proof -
  define u where "u = pow10 (flog10 x + 1 - 17)"
  define z where "z = x / u"
  have u: "0 < u" by (simp add: u_def)
  have "u * 10 ^ 16 = pow10 (flog10 x)" using pow10_add [of "flog10 x + 1 - 17" 16] by (simp add: u_def pow10_def [of 16])
  then have small: "u \<le> x / 10 ^ 16" using flog10_lower [OF assms(1)] by simp
  have near: "round64 (of_int v * u) = x" if "\<bar>of_int v - z\<bar> \<le> 1 / 2" for v
  proof (rule round64_near [OF assms])
    have "of_int v * u - x = (of_int v - z) * u" using u by (simp add: z_def left_diff_distrib)
    then have "\<bar>of_int v * u - x\<bar> = \<bar>of_int v - z\<bar> * u" using u by (simp add: abs_mult)
    also have "\<dots> \<le> 1 / 2 * u" using that u by (intro mult_right_mono) auto
    finally show "\<bar>of_int v * u - x\<bar> \<le> x / 10 ^ 16 / 2" using small by simp
  qed
  have "(of_int \<lceil>z\<rceil> :: rat) \<le> of_int (\<lfloor>z\<rfloor> + 1)" using ceiling_diff_floor_le_1 [of z] by (subst of_int_le_iff) linarith
  then have "\<bar>of_int \<lfloor>z\<rfloor> - z\<bar> \<le> 1 / 2 \<or> \<bar>of_int \<lceil>z\<rceil> - z\<bar> \<le> 1 / 2"
    using le_of_int_ceiling [of z] of_int_floor_le [of z] by (simp add: abs_if) linarith
  then have "round64 (of_int \<lfloor>z\<rfloor> * u) = x \<or> round64 (of_int \<lceil>z\<rceil> * u) = x" using near by blast
  moreover have "flog10 x + 1 - int 17 = flog10 x + 1 - 17" by simp
  ultimately show ?thesis unfolding decimal_of_def Let_def u_def z_def by (metis option.distinct(1))
qed

lemma round_even_cases: "round_even z = \<lfloor>z\<rfloor> \<or> round_even z = \<lceil>z\<rceil>"
proof (cases "z = of_int \<lfloor>z\<rfloor>")
  case True
  then show ?thesis using round_even_of_int [of "\<lfloor>z\<rfloor>"] by metis
next
  case False
  then have "\<lceil>z\<rceil> = \<lfloor>z\<rfloor> + 1" by (simp add: ceiling_altdef)
  then show ?thesis by (auto simp: round_even_def Let_def)
qed

lemma decimal_of_reads_back:
  assumes x: "0 < x" and v: "decimal_of n x = Some v"
  shows "round64 (of_nat v * pow10 (flog10 x + 1 - int n)) = x"
proof -
  define u where "u = pow10 (flog10 x + 1 - int n)"
  have "0 \<le> x / u" using x by (simp add: u_def less_imp_le)
  then have nn: "0 \<le> \<lfloor>x / u\<rfloor>" "0 \<le> \<lceil>x / u\<rceil>" by simp_all
  obtain i where i: "v = nat i" "i = \<lfloor>x / u\<rfloor> \<or> i = \<lceil>x / u\<rceil>" "round64 (of_int i * u) = x"
    using v round_even_cases [of "x / u"] unfolding decimal_of_def Let_def u_def [symmetric] by (metis option.distinct(1) option.inject)
  have "0 \<le> i" using i(2) nn by blast
  then have "of_nat v = (of_int i :: rat)" unfolding i(1) by (rule of_nat_nat)
  with i(3) have "round64 (of_nat v * u) = x" by simp
  then show ?thesis by (simp add: u_def)
qed

text \<open>The search ends with the first number of digits that is enough.\<close>

lemma shortest_from_ends:
  "decimal_of 17 x \<noteq> None \<Longrightarrow> n \<le> 17 \<Longrightarrow> n + fuel = 18 \<Longrightarrow>
    \<exists>v k. shortest_from fuel n x = (v, k) \<and> k \<le> 17 \<and> decimal_of k x = Some v \<and> (\<forall>i. n \<le> i \<and> i < k \<longrightarrow> decimal_of i x = None)"
proof (induction fuel arbitrary: n)
  case (Suc fuel)
  show ?case
  proof (cases "decimal_of n x")
    case None
    with Suc.prems have "n \<noteq> 17" by auto
    with Suc.prems obtain v k where "shortest_from fuel (Suc n) x = (v, k)" "k \<le> 17" "decimal_of k x = Some v"
        "\<forall>i. Suc n \<le> i \<and> i < k \<longrightarrow> decimal_of i x = None"
      using Suc.IH [of "Suc n"] by auto
    moreover from this(4) None have "\<forall>i. n \<le> i \<and> i < k \<longrightarrow> decimal_of i x = None" by (metis Suc_leI le_neq_implies_less)
    ultimately show ?thesis using None by simp
  qed (use Suc.prems in auto)
qed simp

text \<open>A positive \<open>float64\<close>.\<close>

definition float64_value :: "rat \<Rightarrow> bool" where
  "float64_value x \<longleftrightarrow> 0 < x \<and> round64 x = x \<and> x < 2 ^ 1024"

lemma shortest_ends:
  assumes "float64_value x"
  shows "\<exists>v k. shortest_from 17 1 x = (v, k) \<and> k \<le> 17 \<and> decimal_of k x = Some v \<and> (\<forall>i. 1 \<le> i \<and> i < k \<longrightarrow> decimal_of i x = None)"
  using shortest_from_ends [of x 1 17] decimal_17 assms by (auto simp: float64_value_def)


subsection \<open>Digits\<close>

definition digits_of :: "string \<Rightarrow> nat \<Rightarrow> bool" where
  "digits_of s w \<longleftrightarrow> s \<noteq> [] \<and> (\<forall>c \<in> set s. is_digit c) \<and> digits_acc 0 s = Some w"

lemma digits_acc_zeros: "digits_acc n (replicate k (CHR ''0'')) = Some (n * 10 ^ k)"
  by (induction k arbitrary: n) (simp_all add: digit_val_def)

lemma digits_acc_zeros_front: "digits_acc 0 (replicate k (CHR ''0'') @ s) = digits_acc 0 s"
  by (simp add: digits_acc_append digits_acc_zeros)

lemma zero_is_digit [simp]: "is_digit (CHR ''0'')"
  by (simp add: is_digit_def digit_val_def)

lemma digits_of_parse: "digits_of s w \<Longrightarrow> parse_digits s = Some w"
  by (auto simp: digits_of_def parse_digits_def)

lemma digits_of_pad: "digits_of s w \<Longrightarrow> digits_of (s @ replicate k (CHR ''0'')) (w * 10 ^ k)"
  by (auto simp: digits_of_def digits_acc_append digits_acc_zeros)

lemma digits_of_front: "digits_of s w \<Longrightarrow> digits_of (replicate k (CHR ''0'') @ s) w"
  by (auto simp: digits_of_def digits_acc_zeros_front)

lemma digits_of_itoa: "digits_of (itoa_nat n) n"
  using itoa_nat_digits by (auto simp: digits_of_def digits_acc_itoa_nat)

lemma digit_plain:
  "is_digit c \<Longrightarrow> lower_char c = c \<and> c \<noteq> CHR ''e'' \<and> c \<noteq> CHR ''.'' \<and> c \<noteq> CHR ''-'' \<and> c \<noteq> CHR ''+'' \<and> c \<noteq> CHR ''i'' \<and> c \<noteq> CHR ''n''"
  by (auto simp: is_digit_def digit_val_def lower_char_def Let_def split: if_splits)

subsection \<open>The decimal of a float\<close>

lemma strip_zeros: "\<exists>k. s = rev (dropWhile (\<lambda>c. c = z) (rev s)) @ replicate k z"
proof -
  have "s = rev (dropWhile (\<lambda>c. c = z) (rev s)) @ rev (takeWhile (\<lambda>c. c = z) (rev s))"
    by (metis rev_append rev_rev_ident takeWhile_dropWhile_id)
  moreover have "rev (takeWhile (\<lambda>c. c = z) (rev s)) = replicate (length (takeWhile (\<lambda>c. c = z) (rev s))) z"
    by (metis (full_types) replicate_length_same rev_replicate set_takeWhileD)
  ultimately show ?thesis by metis
qed

lemma shortest_decimal:
  assumes "float64_value x"
  shows "\<exists>s dp w. shortest x = (s, dp) \<and> digits_of s w \<and> round64 (of_nat w * pow10 (dp - int (length s))) = x"
proof -
  obtain v n where v: "shortest_from 17 1 x = (v, n)" "decimal_of n x = Some v" using shortest_ends [OF assms] by blast
  have x: "0 < x" using assms by (simp add: float64_value_def)
  have reads: "round64 (of_nat v * pow10 (flog10 x + 1 - int n)) = x" using decimal_of_reads_back [OF x v(2)] .
  define s where "s = rev (dropWhile (\<lambda>c. c = CHR ''0'') (rev (itoa_nat v)))"
  obtain k where k: "itoa_nat v = s @ replicate k (CHR ''0'')" using strip_zeros [of "itoa_nat v" "CHR ''0''"] by (auto simp: s_def)
  have len: "length (itoa_nat v) = length s + k" by (simp add: k)
  have "v \<noteq> 0"
  proof
    assume "v = 0"
    with reads have "round64 0 = x" by simp
    with x show False by (simp add: round64_def)
  qed
  have "s \<noteq> []"
  proof
    assume "s = []"
    then have "digits_acc 0 (itoa_nat v) = Some 0" using k by (simp add: digits_acc_zeros)
    with \<open>v \<noteq> 0\<close> show False by (simp add: digits_acc_itoa_nat)
  qed
  obtain w where w: "digits_acc 0 s = Some w" "v = w * 10 ^ k"
    using digits_acc_itoa_nat [of v] unfolding k digits_acc_append by (cases "digits_acc 0 s") (simp_all add: digits_acc_zeros)
  have "digits_of s w" using \<open>s \<noteq> []\<close> w(1) itoa_nat_digits [of _ v] by (auto simp: digits_of_def k)
  moreover have "shortest x = (s, flog10 x + 1 + int (length s + k) - int n)"
    using x v(1) len by (simp add: shortest_def s_def Let_def)
  moreover have "round64 (of_nat w * pow10 (flog10 x + 1 + int (length s + k) - int n - int (length s))) = x"
  proof -
    have "flog10 x + 1 + int (length s + k) - int n - int (length s) = (flog10 x + 1 - int n) + int k" by simp
    moreover have "of_nat v * pow10 (flog10 x + 1 - int n) = of_nat w * pow10 ((flog10 x + 1 - int n) + int k)"
      unfolding pow10_add by (simp add: w(2) pow10_def [of "int k"])
    ultimately show ?thesis using reads by (simp only:)
  qed
  ultimately show ?thesis by blast
qed

subsection \<open>Reading a printed number\<close>

lemma split_no_char: "c \<notin> set s \<Longrightarrow> split_char c s = [s]"
  by (rule split_char_none)

lemma parse_whole: "digits_of s w \<Longrightarrow> parse_mantissa s = Some (of_nat w)"
  using digit_plain by (subst parse_mantissa_def, subst split_char_none) (auto simp: digits_of_def digits_of_parse)

lemma parse_fraction:
  assumes "digits_of (a @ b) w"
  shows "parse_mantissa (a @ CHR ''.'' # b) = Some (of_nat w / 10 ^ length b)"
proof -
  have "CHR ''.'' \<notin> set a" "CHR ''.'' \<notin> set b" using assms digit_plain by (auto simp: digits_of_def)
  then have "split_char (CHR ''.'') (a @ CHR ''.'' # b) = [a, b]" by (simp add: split_char_append split_char_none)
  with digits_of_parse [OF assms] show ?thesis by (simp add: parse_mantissa_def)
qed

text \<open>What the mantissa is made of, and so where it ends.\<close>

definition number_char :: "char \<Rightarrow> bool" where
  "number_char c \<longleftrightarrow> is_digit c \<or> c = CHR ''.''"

lemma number_char_lower: "number_char c \<Longrightarrow> lower_char c \<noteq> CHR ''e''"
  using digit_plain [of c] by (auto simp: number_char_def lower_char_def Let_def)

lemma decimal_value_whole:
  assumes "list_all number_char m" "m \<noteq> []" "is_digit (hd m)" "parse_mantissa m = Some x"
  shows "decimal_value m = Some (False, x)"
proof -
  have "parse_sign m = (False, m)" using assms(2,3) digit_plain [of "hd m"] by (cases m) (auto simp: parse_sign_def)
  moreover have "takeWhile (\<lambda>c. lower_char c \<noteq> CHR ''e'') m = m"
    using assms(1) number_char_lower by (auto simp: takeWhile_eq_all_conv list_all_iff)
  ultimately show ?thesis using assms(4) unfolding decimal_value_def Let_def by (simp del: takeWhile_eq_all_conv add: pow10_def)
qed

lemma decimal_value_exp:
  assumes "list_all number_char m" "m \<noteq> []" "is_digit (hd m)" "parse_mantissa m = Some x" "parse_exponent e = Some i"
  shows "decimal_value (m @ CHR ''e'' # e) = Some (False, x * pow10 i)"
proof -
  have "parse_sign (m @ CHR ''e'' # e) = (False, m @ CHR ''e'' # e)"
    using assms(2,3) digit_plain [of "hd m"] by (cases m) (auto simp: parse_sign_def)
  moreover have "takeWhile (\<lambda>c. lower_char c \<noteq> CHR ''e'') (m @ CHR ''e'' # e) = m"
    using assms(1) number_char_lower by (subst takeWhile_append2) (auto simp: list_all_iff lower_char_def)
  ultimately show ?thesis using assms(4,5) by (simp add: decimal_value_def)
qed

lemma pow10_nat: "pow10 (int n) = 10 ^ n" "pow10 (- int n) = 1 / 10 ^ n"
  by (auto simp: pow10_def)

lemma digits_number: "digits_of s w \<Longrightarrow> list_all number_char s"
  by (auto simp: digits_of_def list_all_iff number_char_def)

lemma decimal_value_plain:
  assumes s: "digits_of s w"
  shows "decimal_value (format_plain s dp) = Some (False, of_nat w * pow10 (dp - int (length s)))"
proof -
  consider "int (length s) \<le> dp" | "0 < dp" "dp < int (length s)" | "dp \<le> 0" by linarith
  then show ?thesis
  proof cases
    case 1
    have "s \<noteq> []" using s by (simp add: digits_of_def)
    then have "0 < dp" using 1 by (cases s) auto
    let ?k = "nat dp - length s"
    have shown: "format_plain s dp = s @ replicate ?k (CHR ''0'')" using 1 \<open>0 < dp\<close> by (simp add: format_plain_def zeros_def Let_def)
    have d: "digits_of (s @ replicate ?k (CHR ''0'')) (w * 10 ^ ?k)" by (rule digits_of_pad [OF s])
    have "is_digit (hd (s @ replicate ?k (CHR ''0'')))" using s by (cases s) (auto simp: digits_of_def)
    then have "decimal_value (s @ replicate ?k (CHR ''0'')) = Some (False, of_nat (w * 10 ^ ?k))"
      using \<open>s \<noteq> []\<close> by (intro decimal_value_whole digits_number [OF d] parse_whole [OF d]) auto
    moreover have "dp - int (length s) = int ?k" using 1 \<open>0 < dp\<close> by simp
    ultimately show ?thesis unfolding shown by (simp only: pow10_nat of_nat_mult of_nat_power of_nat_numeral)
  next
    case 2
    let ?a = "take (nat dp) s" let ?b = "drop (nat dp) s"
    have shown: "format_plain s dp = ?a @ CHR ''.'' # ?b" using 2 by (simp add: format_plain_def zeros_def Let_def)
    have num: "list_all number_char (?a @ CHR ''.'' # ?b)" using digits_number [OF s]
      by (auto simp: list_all_iff number_char_def dest: in_set_takeD in_set_dropD)
    have hd: "is_digit (hd (?a @ CHR ''.'' # ?b))" using s 2 by (cases s; cases "nat dp") (auto simp: digits_of_def)
    have "decimal_value (?a @ CHR ''.'' # ?b) = Some (False, of_nat w / 10 ^ length ?b)"
      by (rule decimal_value_whole [OF num _ hd]) (use s in \<open>simp_all add: parse_fraction\<close>)
    moreover have "dp - int (length s) = - int (length ?b)" using 2 by simp
    ultimately show ?thesis unfolding shown by (simp only: pow10_nat) simp
  next
    case 3
    let ?b = "replicate (nat (- dp)) (CHR ''0'') @ s"
    have shown: "format_plain s dp = ''0'' @ CHR ''.'' # ?b" using 3 s by (simp add: format_plain_def zeros_def Let_def digits_of_def)
    have d: "digits_of (''0'' @ ?b) w" using digits_of_front [OF s, of "Suc (nat (- dp))"] by simp
    have num: "list_all number_char (''0'' @ CHR ''.'' # ?b)" using digits_number [OF d] by (simp add: number_char_def)
    have "decimal_value (''0'' @ CHR ''.'' # ?b) = Some (False, of_nat w / 10 ^ length ?b)"
      by (rule decimal_value_whole [OF num]) (use parse_fraction [OF d] in simp_all)
    moreover have "dp - int (length s) = - int (length ?b)" using 3 by simp
    ultimately show ?thesis unfolding shown by (simp only: pow10_nat) simp
  qed
qed

lemma decimal_value_format_exp:
  assumes s: "digits_of s w"
  shows "decimal_value (format_exp 2 s dp) = Some (False, of_nat w * pow10 (dp - int (length s)))"
proof -
  obtain c cs where c: "s = c # cs" using s by (cases s) (auto simp: digits_of_def)
  define m where "m = (if cs = [] then [c] else c # CHR ''.'' # cs)"
  define a where "a = itoa_nat (nat \<bar>dp - 1\<bar>)"
  define e where "e = (if dp - 1 < 0 then CHR ''-'' else CHR ''+'') # replicate (2 - length a) (CHR ''0'') @ a"
  have shown: "format_exp 2 s dp = m @ CHR ''e'' # e"
    by (simp add: format_exp_def m_def e_def a_def c zeros_def Let_def)
  have m: "parse_mantissa m = Some (of_nat w / 10 ^ length cs)"
    using parse_whole [OF s] parse_fraction [of "[c]" cs w] s by (auto simp: m_def c)
  have num: "list_all number_char m" "m \<noteq> []" "is_digit (hd m)"
    using digits_number [OF s] s by (auto simp: m_def c number_char_def digits_of_def)
  have "digits_of (replicate (2 - length a) (CHR ''0'') @ a) (nat \<bar>dp - 1\<bar>)"
    unfolding a_def by (rule digits_of_front [OF digits_of_itoa])
  then have "parse_exponent e = Some (dp - 1)"
    by (auto simp: parse_exponent_def e_def parse_sign_def digits_of_parse)
  from decimal_value_exp [OF num m this] have
    "decimal_value (m @ CHR ''e'' # e) = Some (False, of_nat w / 10 ^ length cs * pow10 (dp - 1))" .
  moreover have "pow10 (dp - int (length s)) = pow10 (dp - 1) / 10 ^ length cs"
    using pow10_add [of "dp - 1" "- int (length cs)"] by (simp add: c pow10_nat algebra_simps)
  ultimately show ?thesis unfolding shown by simp
qed

subsection \<open>Numbers as keys\<close>

text \<open>The values that a \<open>float64\<close> can have: the infinities and NaN aside, a sign and a magnitude.\<close>

definition float64_ok :: "gofloat \<Rightarrow> bool" where
  "float64_ok f = (case f of Fin neg x \<Rightarrow> x = 0 \<or> float64_value x | _ \<Rightarrow> True)"

lemma special_float_digit: "is_digit c \<Longrightarrow> special_float (c # s) = None" "is_digit c \<Longrightarrow> special_float (CHR ''-'' # c # s) = None"
proof -
  assume c: "is_digit c"
  then have "lower_char c = c" "lower_char (CHR ''-'') = CHR ''-''" using digit_plain by (auto simp: lower_char_def)
  with digit_plain [OF c] show "special_float (c # s) = None" "special_float (CHR ''-'' # c # s) = None"
    by (auto simp: special_float_def Let_def)
qed

lemma parse_sign_plain: "is_digit c \<Longrightarrow> parse_sign (c # s) = (False, c # s)"
  using digit_plain [of c] by (simp add: parse_sign_def)

lemma parse_float_text:
  assumes "t \<noteq> []" "is_digit (hd t)" "decimal_value t = Some (False, y)" "round64 y = x" "x < 2 ^ 1024"
  shows "parse_float ((if neg then ''-'' else []) @ t) = Some (Fin neg x)"
proof -
  obtain c s where t: "t = c # s" "is_digit c" using assms(1,2) by (cases t) auto
  have v: "decimal_value (CHR ''-'' # t) = Some (True, y)"
  proof -
    have "parse_sign (CHR ''-'' # t) = (True, t)" "parse_sign t = (False, t)" using parse_sign_plain [OF t(2)] by (simp_all add: t parse_sign_def)
    then show ?thesis using assms(3) by (auto simp: decimal_value_def Let_def split: option.splits if_splits)
  qed
  have "special_float ((if neg then ''-'' else []) @ t) = None" using special_float_digit [OF t(2), of s] by (simp add: t(1))
  moreover have "decimal_value ((if neg then ''-'' else []) @ t) = Some (neg, y)" using assms(3) v by simp
  ultimately show ?thesis using assms(4,5) by (simp add: parse_float_def parse_decimal_def Let_def)
qed

lemma format_hd:
  assumes "digits_of s w"
  shows "format_plain s dp \<noteq> [] \<and> is_digit (hd (format_plain s dp))" "format_exp 2 s dp \<noteq> [] \<and> is_digit (hd (format_exp 2 s dp))"
proof -
  obtain c cs where c: "s = c # cs" "is_digit c" using assms by (cases s) (auto simp: digits_of_def)
  then show "format_exp 2 s dp \<noteq> [] \<and> is_digit (hd (format_exp 2 s dp))" by (simp add: format_exp_def Let_def)
  show "format_plain s dp \<noteq> [] \<and> is_digit (hd (format_plain s dp))"
    using c by (cases "nat dp") (auto simp: format_plain_def Let_def)
qed

text \<open>Every number is read back from its text.\<close>

lemma parse_format:
  assumes "float64_ok f"
  shows "parse_float (format_v f) = Some f"
proof (cases f)
  case (Fin neg x)
  show ?thesis
  proof (cases "x = 0")
    case True
    have "decimal_value (format_plain [] 0) = Some (False, 0)" by code_simp
    moreover have "format_plain [] 0 = ''0''" by code_simp
    ultimately have "parse_float ((if neg then ''-'' else []) @ ''0'') = Some (Fin neg 0)"
      by (intro parse_float_text [where y = 0]) (simp_all add: round64_def)
    moreover have "format_v (Fin neg 0) = (if neg then ''-'' else []) @ ''0''" by (cases neg) code_simp+
    ultimately show ?thesis using Fin True by simp
  next
    case False
    then have x: "float64_value x" using assms Fin by (simp add: float64_ok_def)
    obtain s dp w where s: "shortest x = (s, dp)" "digits_of s w" "round64 (of_nat w * pow10 (dp - int (length s))) = x"
      using shortest_decimal [OF x] by blast
    have "x < 2 ^ 1024" using x by (simp add: float64_value_def)
    with parse_float_text [OF _ _ decimal_value_plain [OF s(2)] s(3)] parse_float_text [OF _ _ decimal_value_format_exp [OF s(2)] s(3)]
      format_hd [OF s(2)]
    show ?thesis by (simp add: Fin format_v_def s(1))
  qed
next
  case (Infinite neg)
  then show ?thesis by (cases neg) (simp_all add: format_v_def parse_float_def, code_simp+)
next
  case NaN
  then show ?thesis by (simp add: format_v_def parse_float_def) code_simp
qed

lemma format_inj: "float64_ok f \<Longrightarrow> float64_ok g \<Longrightarrow> format_v f = format_v g \<longleftrightarrow> f = g"
  using parse_format by (metis option.inject)

lemma key_value_text: "float64_ok f \<Longrightarrow> key_value (sprint_v (JFloat f)) = JFloat f"
  by (simp add: key_value_def parse_format)

lemma search_numbers:
  assumes "float64_ok f" "\<forall>g \<in> set gs. float64_ok g"
  shows "search_entry [(k, sprint_v (JFloat f))] i (map (\<lambda>g. new_entry [(k, sprint_v (JFloat g))]) gs) =
    (if f \<in> set gs then Found (i + length (takeWhile (\<lambda>g. g \<noteq> f) gs)) else Missing)"
  using assms(2)
proof (induction gs arbitrary: i)
  case (Cons g gs)
  have "new_entry [(k, sprint_v (JFloat g))] = JObj [(k, JFloat g)]"
    using key_value_text [of g] Cons.prems by (simp add: new_entry_def del: sprint_v.simps)
  with Cons format_inj [OF assms(1), of g] show ?case by auto
qed simp

text \<open>
  C38: keys that are numbers. An entry created for the text that \<open>%v\<close> prints of a \<open>float64\<close> holds the number,
  and a search for such a text in a list of such entries finds the first entry made for the same number, or none when there is none.
  The search for the text itself always ends: of the digits it tries, from one to seventeen, the first number that
  is read back.
\<close>

theorem numeric_keys_found:
  assumes "float64_ok f" "\<forall>g \<in> set gs. float64_ok g"
  shows "search_entry [(k, sprint_v (JFloat f))] 0 (map (\<lambda>g. new_entry [(k, sprint_v (JFloat g))]) gs) =
      (if f \<in> set gs then Found (length (takeWhile (\<lambda>g. g \<noteq> f) gs)) else Missing) \<and>
    (\<forall>neg x. f = Fin neg x \<and> x \<noteq> 0 \<longrightarrow>
      (\<exists>v n. shortest_from 17 1 x = (v, n) \<and> n \<le> 17 \<and> decimal_of n x = Some v \<and> (\<forall>i. 1 \<le> i \<and> i < n \<longrightarrow> decimal_of i x = None)))"
proof -
  have "\<exists>v n. shortest_from 17 1 x = (v, n) \<and> n \<le> 17 \<and> decimal_of n x = Some v \<and> (\<forall>i. 1 \<le> i \<and> i < n \<longrightarrow> decimal_of i x = None)"
    if "f = Fin neg x" "x \<noteq> 0" for neg x
    using shortest_ends [of x] assms(1) that by (simp add: float64_ok_def)
  then show ?thesis using search_numbers [OF assms, of k 0] by simp
qed

lemma round64_one: "round64 1 = 1"
proof -
  have "flog2 1 = 0" by (simp add: flog2_def ilog2.simps)
  moreover have "round_even (of_int (2 ^ 52)) = 2 ^ 52" by (rule round_even_of_int)
  ultimately show ?thesis by (simp add: round64_def pow2_def)
qed

lemma numeric_keys_found_witness:
  "search_entry [(''id'', ''1'')] 0 (map (\<lambda>v. new_entry [(''id'', v)]) [''0'', ''1'', ''NaN'']) = Found 1"
proof -
  have ok: "float64_ok (Fin False 1)" "\<forall>g \<in> set [Fin False 0, Fin False 1, NaN]. float64_ok g"
    by (simp_all add: float64_ok_def float64_value_def round64_one)
  have "sprint_v (JFloat (Fin False 1)) = ''1''" "sprint_v (JFloat (Fin False 0)) = ''0''" "sprint_v (JFloat NaN) = ''NaN''"
    by code_simp+
  with numeric_keys_found [OF ok, of "''id''"] show ?thesis by simp
qed

end
