(* ===== verification/Gnmi_Xpath.thy ===== *)
theory Gnmi_Xpath
  imports Gnmi_Server
begin

section \<open>Paths as text (google/gnxi/utils/xpath)\<close>

text \<open>
  The clients take paths in the form \<open>/a/b[k=v]/c\<close>. The parser is vendored with the
  repository. A loop of the source over \<open>str\<close> with the indices \<open>begin\<close> and \<open>end\<close> is a recursion on the text from
  \<open>end\<close> on: \<open>prev\<close> is the character before (\<open>None\<close> at the beginning) and \<open>cur\<close> is \<open>str[begin:end]\<close>.
\<close>

subsection \<open>The parser\<close>

definition backslash :: char where "backslash = CHR 0x5C"

definition escaped :: "char option \<Rightarrow> bool" where
  "escaped prev \<longleftrightarrow> prev = Some backslash"

definition is_letter :: "char \<Rightarrow> bool" where
  "is_letter c = (let n = (of_char c :: nat) in 65 \<le> n \<and> n \<le> 90 \<or> 97 \<le> n \<and> n \<le> 122)"

text \<open>\<open>idPattern\<close>, matched to the end.\<close>

definition id_char :: "char \<Rightarrow> bool" where
  "id_char c = (is_letter c \<or> is_digit c \<or> c \<in> {CHR ''_'', CHR ''-'', CHR ''.''})"

definition idRe :: "string \<Rightarrow> bool" where
  "idRe s = (case s of [] \<Rightarrow> False | c # cs \<Rightarrow> (is_letter c \<or> c = CHR ''_'') \<and> list_all id_char cs)"

text \<open>The loop of \<open>splitPath\<close>, with the final value of \<open>insideBrackets\<close>.\<close>

fun split_path :: "string \<Rightarrow> char option \<Rightarrow> bool \<Rightarrow> string \<Rightarrow> string list \<times> bool" where
  "split_path [] prev inside cur = ([], inside)"
| "split_path (c # cs) prev inside cur =
     (if c = CHR ''/'' then
        (if \<not> inside then
           (let (path, b) = split_path cs (Some c) inside [] in (if cur \<noteq> [] then cur # path else path, b))
         else split_path cs (Some c) inside (cur @ [c]))
      else if c = CHR ''['' then
        split_path cs (Some c) (if \<not> escaped prev \<and> \<not> inside then True else inside) (cur @ [c])
      else if c = CHR '']'' then
        split_path cs (Some c) (if \<not> escaped prev \<and> inside then False else inside) (cur @ [c])
      else split_path cs (Some c) inside (cur @ [c]))"

definition splitPath :: "string \<Rightarrow> string list res" where
  "splitPath str =
     (let (path, inside) = split_path (str @ ''/'') None False [] in
      if inside then Inl (Errorf ''missing ] in path string: %s'' [str @ ''/'']) else Inr path)"

text \<open>
  \<open>kvRe\<close>: \<open>[\<close>, an identifier, \<open>=\<close>, one or more characters and \<open>]\<close>. An identifier has no \<open>=\<close>, so it
  ends at the first one. The result is the key and the text of the value.
\<close>

definition kvRe :: "string \<Rightarrow> (string \<times> string) option" where
  "kvRe s =
     (let body = butlast (tl s); key = takeWhile (\<lambda>c. c \<noteq> CHR ''='') body; val = drop (length key + 1) body
      in if 2 \<le> length s \<and> hd s = CHR ''['' \<and> last s = CHR '']'' \<and> idRe key \<and> val \<noteq> [] then Some (key, val) else None)"

text \<open>\<open>strings.Replace(s, "\" + c, c, -1)\<close>.\<close>

fun unescape :: "char \<Rightarrow> string \<Rightarrow> string" where
  "unescape c [] = []"
| "unescape c [a] = [a]"
| "unescape c (a # b # s) = (if a = backslash \<and> b = c then c # unescape c s else a # unescape c (b # s))"

fun key_values :: "string \<Rightarrow> string \<Rightarrow> char option \<Rightarrow> bool \<Rightarrow> string \<Rightarrow> string gomap \<Rightarrow> string gomap res" where
  "key_values str [] prev inside cur m =
     (if cur \<noteq> [] then Inl (Errorf ''malformed List key-value pair string: %s'' [str]) else Inr m)"
| "key_values str (c # cs) prev inside cur m =
     (if c = CHR ''['' then
        key_values str cs (Some c) (if \<not> escaped prev \<and> \<not> inside then True else inside) (cur @ [c]) m
      else if c = CHR '']'' \<and> \<not> escaped prev \<and> inside then
        (case kvRe (cur @ [c]) of
           None \<Rightarrow> Inl (Errorf ''malformed List key-value pair string: %s, in: %s'' [cur @ [c], str])
         | Some (key, val) \<Rightarrow>
             key_values str cs (Some c) False [] (gput key (unescape (CHR ''['') (unescape (CHR '']'') val)) m))
      else key_values str cs (Some c) inside (cur @ [c]) m)"

definition parseKeyValueString :: "string \<Rightarrow> string gomap res" where
  "parseKeyValueString str = key_values str str None False [] []"

text \<open>An \<open>interface{}\<close> of the parsed path: a name or a key-value list.\<close>

datatype xelem = XName string | XKeys "string gomap"

definition parseElement :: "string \<Rightarrow> xelem list res" where
  "parseElement elem =
     (let listName = takeWhile (\<lambda>c. c \<noteq> CHR ''['') elem in
      if listName = elem then
        (if idRe elem then Inr [XName elem] else Inl (Errorf ''invalid node name: %q'' [elem]))
      else if \<not> idRe listName then Inl (Errorf ''invalid List name: %q, in: %s'' [listName, elem])
      else res_bind (wrap_err ''invalid path element %s: %v'' (parseKeyValueString (drop (length listName) elem)))
        (\<lambda>keyValuePairs. Inr [XName listName, XKeys keyValuePairs]))"

fun parse_elements :: "string list \<Rightarrow> xelem list \<Rightarrow> xelem list res" where
  "parse_elements [] path = Inr path"
| "parse_elements (elem # elems) path =
     res_bind (wrap_err ''invalid string path %s: %v'' (parseElement elem)) (\<lambda>parts. parse_elements elems (path @ parts))"

definition ParseStringPath :: "string \<Rightarrow> xelem list res" where
  "ParseStringPath stringPath = res_bind (splitPath stringPath) (\<lambda>elems. parse_elements elems [])"

text \<open>A key-value list of the parser is never empty, so an element without keys is one whose \<open>Key\<close> is nil.\<close>

fun path_elems :: "xelem list \<Rightarrow> PathElem list \<Rightarrow> PathElem list res" where
  "path_elems [] es = Inr es"
| "path_elems (XName v # xs) es = path_elems xs (es @ [\<lparr>pe_Name = v, pe_Key = []\<rparr>])"
| "path_elems (XKeys v # xs) es =
     (if es = [] then Inl (Errorf ''missing name before key-value list'' [])
      else if \<not> nil_key (last es) then Inl (Errorf ''two subsequent key-value lists'' [])
      else path_elems xs (butlast es @ [(last es)\<lparr>pe_Key := v\<rparr>]))"

definition ToGNMIPath :: "string \<Rightarrow> gnmi_path res" where
  "ToGNMIPath xpath =
     res_bind (ParseStringPath xpath) (\<lambda>xpathElements.
     res_bind (path_elems xpathElements []) (\<lambda>es. Inr \<lparr>gp_Origin = [], gp_Element = [], gp_Elem = es\<rparr>))"

subsection \<open>Printing a path\<close>

text \<open>The text of a path: brackets in a value are escaped.\<close>

fun escape :: "string \<Rightarrow> string" where
  "escape [] = []"
| "escape (c # s) = (if c = CHR ''['' \<or> c = CHR '']'' then [backslash, c] else [c]) @ escape s"

fun print_keys :: "string gomap \<Rightarrow> string" where
  "print_keys [] = []"
| "print_keys ((k, v) # ks) = ''['' @ k @ ''='' @ escape v @ '']'' @ print_keys ks"

fun print_path :: "PathElem list \<Rightarrow> string" where
  "print_path [] = []"
| "print_path (e # es) = ''/'' @ pe_Name e @ print_keys (pe_Key e) @ print_path es"

text \<open>
  The paths that have a text: names and keys are YANG identifiers, a value is not empty and does not end in a
  backslash, which would escape the closing bracket.
\<close>

definition key_ok :: "string \<times> string \<Rightarrow> bool" where
  "key_ok kv \<longleftrightarrow> idRe (fst kv) \<and> snd kv \<noteq> [] \<and> last (snd kv) \<noteq> backslash"

definition elem_ok :: "PathElem \<Rightarrow> bool" where
  "elem_ok e \<longleftrightarrow> idRe (pe_Name e) \<and> gomap_ok (pe_Key e) \<and> (\<forall>kv \<in> set (pe_Key e). key_ok kv)"

subsection \<open>Identifiers and escapes\<close>

definition plain_char :: "char \<Rightarrow> bool" where
  "plain_char c \<longleftrightarrow> c \<notin> {CHR ''/'', CHR ''['', CHR '']'', CHR ''='', CHR '':'', backslash}"

lemma id_char_plain: "id_char c \<Longrightarrow> plain_char c"
  by (auto simp: id_char_def plain_char_def is_letter_def is_digit_def digit_val_def backslash_def Let_def)

lemma idRe_chars: "idRe s \<Longrightarrow> s \<noteq> [] \<and> (\<forall>c \<in> set s. plain_char c)"
proof -
  assume s: "idRe s"
  obtain c cs where c: "s = c # cs" "is_letter c \<or> c = CHR ''_''" "list_all id_char cs"
    using s by (cases s) (auto simp: idRe_def)
  then have "id_char c" by (auto simp: id_char_def)
  with c show ?thesis by (auto simp: list_all_iff id_char_plain)
qed

lemma not_plain [simp]:
  "\<not> plain_char (CHR ''/'')" "\<not> plain_char (CHR ''['')" "\<not> plain_char (CHR '']'')" "\<not> plain_char (CHR ''='')"
  "\<not> plain_char (CHR '':'')" "\<not> plain_char backslash"
  by (simp_all add: plain_char_def)

lemma plain_charD [simp]:
  "plain_char c \<Longrightarrow> c \<noteq> CHR ''/''" "plain_char c \<Longrightarrow> c \<noteq> CHR ''[''" "plain_char c \<Longrightarrow> c \<noteq> CHR '']''"
  "plain_char c \<Longrightarrow> c \<noteq> CHR ''=''" "plain_char c \<Longrightarrow> c \<noteq> CHR '':''" "plain_char c \<Longrightarrow> c \<noteq> backslash"
  by (auto simp: plain_char_def)

definition before :: "char option \<Rightarrow> string \<Rightarrow> char option" where
  "before p s = (if s = [] then p else Some (last s))"

lemma before_simps [simp]:
  "before p [] = p" "before p (c # s) = before (Some c) s" "before (before p s) t = before p (s @ t)"
  by (simp_all add: before_def)

lemma escaped_simps [simp]: "escaped (Some c) \<longleftrightarrow> c = backslash" "\<not> escaped None"
  by (simp_all add: escaped_def)

lemma bracket_not_backslash [simp]: "CHR ''['' \<noteq> backslash" "CHR '']'' \<noteq> backslash" "CHR ''='' \<noteq> backslash" "CHR ''/'' \<noteq> backslash"
    "backslash \<noteq> CHR ''[''" "backslash \<noteq> CHR '']''" "backslash \<noteq> CHR ''/''"
  by (simp_all add: backslash_def)

lemma escape_empty [simp]: "escape s = [] \<longleftrightarrow> s = []"
  by (cases s) auto

lemma last_escape: "s \<noteq> [] \<Longrightarrow> last (escape s) = last s"
  by (induction s) (auto simp: last_append)

lemma before_escape: "s \<noteq> [] \<Longrightarrow> before p (escape s) = Some (last s)"
  by (simp add: before_def last_escape)

subsection \<open>Splitting a printed path\<close>

lemma split_steps:
  "c \<noteq> CHR ''/'' \<Longrightarrow> c \<noteq> CHR ''['' \<Longrightarrow> c \<noteq> CHR '']'' \<Longrightarrow> split_path (c # cs) p b cur = split_path cs (Some c) b (cur @ [c])"
  "split_path (CHR ''/'' # cs) p True cur = split_path cs (Some (CHR ''/'')) True (cur @ ''/'')"
  "split_path (CHR ''['' # cs) p b cur = split_path cs (Some (CHR ''['')) (b \<or> \<not> escaped p) (cur @ ''['')"
  "split_path (CHR '']'' # cs) p b cur = split_path cs (Some (CHR '']'')) (b \<and> escaped p) (cur @ '']'')"
  by simp_all

lemmas split_path_Cons = split_path.simps(2)
declare split_path.simps(2) [simp del]

lemma split_plain:
  "\<forall>c \<in> set w. plain_char c \<or> c = CHR ''='' \<Longrightarrow> split_path (w @ rest) p b cur = split_path rest (before p w) b (cur @ w)"
proof (induction w arbitrary: p cur)
  case (Cons c w)
  then have c: "c \<noteq> CHR ''/''" "c \<noteq> CHR ''[''" "c \<noteq> CHR '']''" by auto
  show ?case using Cons.IH [of "Some c" "cur @ [c]"] Cons.prems by (simp add: split_steps(1) [OF c])
qed simp

lemma split_escape: "split_path (escape v @ rest) p True cur = split_path rest (before p (escape v)) True (cur @ escape v)"
proof (induction v arbitrary: p cur)
  case (Cons c v)
  consider "c = CHR ''/''" | "c = CHR ''[''" | "c = CHR '']''" | "c \<noteq> CHR ''/''" "c \<noteq> CHR ''[''" "c \<noteq> CHR '']''" by blast
  then show ?case by cases (simp_all add: Cons.IH split_steps)
qed simp

lemma split_keys:
  assumes "\<forall>kv \<in> set ks. key_ok kv" "\<not> escaped p"
  shows "\<exists>q. \<not> escaped q \<and> split_path (print_keys ks @ rest) p False cur = split_path rest q False (cur @ print_keys ks)"
  using assms
proof (induction ks arbitrary: p cur)
  case (Cons kv ks)
  obtain k v where kv: "kv = (k, v)" by (cases kv)
  have k: "\<forall>c \<in> set (k @ ''=''). plain_char c \<or> c = CHR ''=''" using Cons.prems idRe_chars [of k] by (auto simp: kv key_ok_def)
  have v: "before p (escape v) = Some (last v)" "last v \<noteq> backslash" for p
    using Cons.prems before_escape [of v] by (auto simp: kv key_ok_def)
  let ?cur = "cur @ ''['' @ k @ ''='' @ escape v @ '']''"
  have "split_path (print_keys (kv # ks) @ rest) p False cur =
      split_path ((k @ ''='') @ escape v @ '']'' @ print_keys ks @ rest) (Some (CHR ''['')) True (cur @ ''['')"
    using Cons.prems by (simp add: kv split_steps)
  also have "\<dots> = split_path ('']'' @ print_keys ks @ rest) (Some (last v)) True (cur @ ''['' @ (k @ ''='') @ escape v)"
    by (simp only: split_plain [OF k] split_escape before_simps v) simp
  also have "\<dots> = split_path (print_keys ks @ rest) (Some (CHR '']'')) False ?cur" using v(2) by (simp add: split_steps)
  finally show ?case using Cons.IH [of "Some (CHR '']'')" ?cur] Cons.prems by (auto simp: kv)
qed auto

lemma split_elem:
  assumes "elem_ok e"
  shows "\<exists>q. split_path ((pe_Name e @ print_keys (pe_Key e)) @ rest) p False [] =
    split_path rest q False (pe_Name e @ print_keys (pe_Key e))"
proof -
  have n: "\<forall>c \<in> set (pe_Name e). plain_char c \<or> c = CHR ''=''" "\<not> escaped (before p (pe_Name e))"
    using assms idRe_chars [of "pe_Name e"] by (auto simp: elem_ok_def before_def)
  show ?thesis
    using split_keys [OF _ n(2), of "pe_Key e" rest "pe_Name e"] split_plain [OF n(1)] assms
    by (auto simp: elem_ok_def)
qed

lemma split_print:
  assumes "\<forall>e \<in> set es. elem_ok e"
  shows "split_path (print_path es @ ''/'') p False cur =
    ((if cur \<noteq> [] then [cur] else []) @ map (\<lambda>e. pe_Name e @ print_keys (pe_Key e)) es, False)"
  using assms
proof (induction es arbitrary: p cur)
  case Nil
  show ?case by (simp add: split_path_Cons)
next
  case (Cons e es)
  obtain q where q: "split_path ((pe_Name e @ print_keys (pe_Key e)) @ print_path es @ ''/'') (Some (CHR ''/'')) False [] =
      split_path (print_path es @ ''/'') q False (pe_Name e @ print_keys (pe_Key e))"
    using split_elem Cons.prems by fastforce
  have ne: "pe_Name e \<noteq> []" using Cons.prems idRe_chars by (auto simp: elem_ok_def)
  show ?case using Cons.IH [of q "pe_Name e @ print_keys (pe_Key e)"] Cons.prems q ne by (auto simp: split_path_Cons)
qed

lemma splitPath_print:
  assumes "\<forall>e \<in> set es. elem_ok e"
  shows "splitPath (print_path es) = Inr (map (\<lambda>e. pe_Name e @ print_keys (pe_Key e)) es)"
  using split_print [OF assms, of None "[]"] by (simp add: splitPath_def)

subsection \<open>Parsing a printed element\<close>

lemma unescape_other: "a \<noteq> backslash \<or> s = [] \<or> hd s \<noteq> c \<Longrightarrow> unescape c (a # s) = a # unescape c s"
  by (cases s) auto

lemma unescape_escaped: "unescape c (backslash # c # s) = c # unescape c s"
  by simp

declare unescape.simps(3) [simp del]

text \<open>Half of the escapes: those of the opening bracket.\<close>

fun escape_open :: "string \<Rightarrow> string" where
  "escape_open [] = []"
| "escape_open (c # s) = (if c = CHR ''['' then [backslash, c] else [c]) @ escape_open s"

lemma hd_escape: "escape s = [] \<or> hd (escape s) \<noteq> CHR '']''"
  by (cases s) auto

lemma unescape_close: "unescape (CHR '']'') (escape v) = escape_open v"
proof (induction v)
  case (Cons c v)
  consider "c = CHR ''[''" | "c = CHR '']''" | "c \<noteq> CHR ''[''" "c \<noteq> CHR '']''" by blast
  then show ?case using Cons.IH hd_escape [of v]
    by cases (simp_all add: unescape_other unescape_escaped)
qed simp

lemma hd_escape_open: "escape_open s = [] \<or> hd (escape_open s) \<noteq> CHR ''[''"
  by (cases s) auto

lemma unescape_open: "unescape (CHR ''['') (escape_open v) = v"
proof (induction v)
  case (Cons c v)
  consider "c = CHR ''[''" | "c \<noteq> CHR ''[''" by blast
  then show ?case using Cons.IH hd_escape_open [of v]
    by cases (simp_all add: unescape_other unescape_escaped)
qed simp

lemma key_values_steps:
  "c \<noteq> CHR ''['' \<Longrightarrow> c \<noteq> CHR '']'' \<Longrightarrow> key_values str (c # cs) p b cur m = key_values str cs (Some c) b (cur @ [c]) m"
  "key_values str (CHR ''['' # cs) p b cur m = key_values str cs (Some (CHR ''['')) (b \<or> \<not> escaped p) (cur @ ''['') m"
  "escaped p \<or> \<not> b \<Longrightarrow> key_values str (CHR '']'' # cs) p b cur m = key_values str cs (Some (CHR '']'')) b (cur @ '']'') m"
  by auto

lemma key_values_close:
  "\<not> escaped p \<Longrightarrow> kvRe (cur @ '']'') = Some (k, val) \<Longrightarrow>
    key_values str (CHR '']'' # cs) p True cur m =
      key_values str cs (Some (CHR '']'')) False [] (gput k (unescape (CHR ''['') (unescape (CHR '']'') val)) m)"
  by simp

lemmas key_values_Cons = key_values.simps(2)
declare key_values.simps(2) [simp del]

lemma key_values_plain:
  "\<forall>c \<in> set w. plain_char c \<or> c = CHR ''='' \<Longrightarrow>
    key_values str (w @ rest) p b cur m = key_values str rest (before p w) b (cur @ w) m"
proof (induction w arbitrary: p cur)
  case (Cons c w)
  then have c: "c \<noteq> CHR ''[''" "c \<noteq> CHR '']''" by auto
  show ?case using Cons.IH [of "Some c" "cur @ [c]"] Cons.prems by (simp add: key_values_steps(1) [OF c])
qed simp

lemma key_values_escape:
  "key_values str (escape v @ rest) p True cur m = key_values str rest (before p (escape v)) True (cur @ escape v) m"
proof (induction v arbitrary: p cur)
  case (Cons c v)
  consider "c = CHR ''[''" | "c = CHR '']''" | "c \<noteq> CHR ''[''" "c \<noteq> CHR '']''" by blast
  then show ?case by cases (simp_all add: Cons.IH key_values_steps)
qed simp

lemma takeWhile_upto: "\<forall>x \<in> set xs. P x \<Longrightarrow> \<not> P y \<Longrightarrow> takeWhile P (xs @ y # ys) = xs"
  by (induction xs) auto

lemma kvRe_print: "idRe k \<Longrightarrow> w \<noteq> [] \<Longrightarrow> kvRe (''['' @ k @ ''='' @ w @ '']'') = Some (k, w)"
proof -
  assume k: "idRe k" and w: "w \<noteq> []"
  have "takeWhile (\<lambda>c. c \<noteq> CHR ''='') (k @ CHR ''='' # w) = k"
    using idRe_chars [OF k] by (intro takeWhile_upto) auto
  then show ?thesis using k w by (simp add: kvRe_def Let_def butlast_append)
qed

lemma key_values_print:
  assumes "\<forall>kv \<in> set ks. key_ok kv" "\<not> escaped p" "gomap_ok (m @ ks)"
  shows "key_values str (print_keys ks) p False [] m = Inr (m @ ks)"
  using assms
proof (induction ks arbitrary: p m)
  case (Cons kv ks)
  obtain k v where kv: "kv = (k, v)" by (cases kv)
  have ok: "idRe k" "v \<noteq> []" "last v \<noteq> backslash" using Cons.prems by (auto simp: kv key_ok_def)
  have k: "\<forall>c \<in> set (k @ ''=''). plain_char c \<or> c = CHR ''=''" using idRe_chars [OF ok(1)] by auto
  have re: "kvRe ((''['' @ (k @ ''='') @ escape v) @ '']'') = Some (k, escape v)" using kvRe_print [of k "escape v"] ok by simp
  have new: "gput k v m = m @ [(k, v)]" using Cons.prems(3) using update_fresh [of k m v] by (simp add: kv gomap_ok_def)
  have "key_values str (print_keys (kv # ks)) p False [] m =
      key_values str ((k @ ''='') @ escape v @ '']'' @ print_keys ks) (Some (CHR ''['')) True ''['' m"
    using Cons.prems by (simp add: kv key_values_steps)
  also have "\<dots> = key_values str (CHR '']'' # print_keys ks) (Some (last v)) True (''['' @ (k @ ''='') @ escape v) m"
    by (simp only: key_values_plain [OF k] key_values_escape before_simps before_escape [OF ok(2)]) simp
  also have "\<dots> = key_values str (print_keys ks) (Some (CHR '']'')) False [] (m @ [kv])"
    using key_values_close [OF _ re, of "Some (last v)" str "print_keys ks" m] ok(3)
    by (simp add: unescape_close unescape_open new kv)
  finally show ?case using Cons.IH [of "Some (CHR '']'')" "m @ [kv]"] Cons.prems by simp
qed simp

lemma parseElement_print:
  assumes "elem_ok e"
  shows "parseElement (pe_Name e @ print_keys (pe_Key e)) =
    Inr (if pe_Key e = [] then [XName (pe_Name e)] else [XName (pe_Name e), XKeys (pe_Key e)])"
proof (cases "pe_Key e")
  case Nil
  have "takeWhile (\<lambda>c. c \<noteq> CHR ''['') (pe_Name e) = pe_Name e"
    using assms idRe_chars [of "pe_Name e"] by (auto simp: elem_ok_def takeWhile_eq_all_conv)
  then show ?thesis using assms Nil by (simp add: parseElement_def elem_ok_def)
next
  case (Cons kv ks)
  let ?str = "print_keys (pe_Key e)"
  obtain w where w: "?str = CHR ''['' # w" using Cons by (cases kv) auto
  have "takeWhile (\<lambda>c. c \<noteq> CHR ''['') (pe_Name e @ ?str) = pe_Name e"
    unfolding w using assms idRe_chars [of "pe_Name e"] by (intro takeWhile_upto) (auto simp: elem_ok_def)
  moreover have "parseKeyValueString ?str = Inr (pe_Key e)"
    using key_values_print [of "pe_Key e" None "[]" ?str] assms by (simp add: parseKeyValueString_def elem_ok_def)
  ultimately show ?thesis using assms Cons w by (simp add: parseElement_def Let_def elem_ok_def wrap_err_def)
qed

definition xelems :: "PathElem \<Rightarrow> xelem list" where
  "xelems e = (if pe_Key e = [] then [XName (pe_Name e)] else [XName (pe_Name e), XKeys (pe_Key e)])"

lemma parse_elements_print:
  "\<forall>e \<in> set es. elem_ok e \<Longrightarrow>
    parse_elements (map (\<lambda>e. pe_Name e @ print_keys (pe_Key e)) es) path = Inr (path @ concat (map xelems es))"
  by (induction es arbitrary: path) (simp_all add: parseElement_print wrap_err_def xelems_def)

lemma path_elems_xelems: "path_elems (concat (map xelems es)) fs = Inr (fs @ es)"
  by (induction es arbitrary: fs) (auto simp: xelems_def nil_key_def)

text \<open>A path is read back from its text.\<close>

lemma ToGNMIPath_print:
  "\<forall>e \<in> set es. elem_ok e \<Longrightarrow> ToGNMIPath (print_path es) = Inr \<lparr>gp_Origin = [], gp_Element = [], gp_Elem = es\<rparr>"
  by (simp add: ToGNMIPath_def ParseStringPath_def splitPath_print parse_elements_print path_elems_xelems)

subsection \<open>What is accepted\<close>

lemma unescape_last: "s \<noteq> [] \<Longrightarrow> unescape c s \<noteq> [] \<and> last (unescape c s) = last s"
proof (induction c s rule: unescape.induct)
  case (3 c a b s)
  then show ?case by (cases "s = []") (auto simp: unescape.simps(3))
qed auto

lemma kvRe_Some:
  assumes "kvRe (cur @ '']'') = Some (k, val)"
  shows "idRe k" "val \<noteq> []" "cur \<noteq> []" "last val = last cur"
proof -
  have c: "cur \<noteq> []" using assms by (auto simp: kvRe_def Let_def split: if_splits)
  then have "butlast (tl (cur @ '']'')) = tl cur" by (cases cur) auto
  with assms have v: "val = drop (length k + 1) (tl cur)" "idRe k" "val \<noteq> []" by (auto simp: kvRe_def Let_def split: if_splits)
  have "last val = last (tl cur)" using v by (simp add: last_drop)
  also have "\<dots> = last cur" using v c by (cases cur) auto
  finally show "idRe k" "val \<noteq> []" "cur \<noteq> []" "last val = last cur" using v c by auto
qed

lemma set_gput: "set (gput k v m) \<subseteq> insert (k, v) (set m)"
  by (induction m) auto

lemma key_values_sound:
  assumes "key_values str cs p b cur m = Inr m'" "cur \<noteq> [] \<longrightarrow> p = Some (last cur)" "gomap_ok m" "\<forall>kv \<in> set m. key_ok kv"
  shows "gomap_ok m' \<and> (\<forall>kv \<in> set m'. key_ok kv) \<and> (cs \<noteq> [] \<or> cur \<noteq> [] \<or> m \<noteq> [] \<longrightarrow> m' \<noteq> [])"
  using assms
proof (induction cs arbitrary: p b cur m)
  case Nil
  then show ?case by (simp split: if_splits)
next
  case (Cons c cs)
  show ?case
  proof (cases "c = CHR '']'' \<and> \<not> escaped p \<and> b")
    case True
    then have "kvRe (cur @ [c]) \<noteq> None" using Cons.prems(1) by (cases "kvRe (cur @ [c])") (simp_all add: key_values_Cons)
    then obtain k val where re: "kvRe (cur @ '']'') = Some (k, val)" using True by auto
    let ?v = "unescape (CHR ''['') (unescape (CHR '']'') val)"
    have v: "idRe k" "val \<noteq> []" "cur \<noteq> []" "last val = last cur" using kvRe_Some re by auto
    then have "last val \<noteq> backslash" using Cons.prems(2) True by (auto simp: escaped_def)
    then have "key_ok (k, ?v)" using v unescape_last by (simp add: key_ok_def)
    then have "\<forall>kv \<in> set (gput k ?v m). key_ok kv" using Cons.prems(4) set_gput [of k ?v m] by blast
    moreover have "key_values str cs (Some (CHR '']'')) False [] (gput k ?v m) = Inr m'"
      using Cons.prems(1) True re by (simp add: key_values_close)
    moreover have "gput k ?v m \<noteq> []" by (cases m) auto
    ultimately show ?thesis
      using Cons.IH [of "Some (CHR '']'')" False "[]" "gput k ?v m"] gomap_ok_gput [OF Cons.prems(3)] by metis
  next
    case False
    then obtain b' where b': "key_values str cs (Some c) b' (cur @ [c]) m = Inr m'"
      using Cons.prems(1) by (simp add: key_values_Cons split: if_splits)
    show ?thesis using Cons.IH [OF b' _ Cons.prems(3,4)] by auto
  qed
qed

text \<open>The parsed elements in the shape in which the parser appends them.\<close>

lemma parseElement_sound:
  assumes "parseElement s = Inr xs"
  shows "\<exists>e. xs = xelems e \<and> elem_ok e"
proof (cases "takeWhile (\<lambda>c. c \<noteq> CHR ''['') s = s")
  case True
  then have "xs = xelems \<lparr>pe_Name = s, pe_Key = []\<rparr>" "elem_ok \<lparr>pe_Name = s, pe_Key = []\<rparr>"
    using assms by (auto simp: parseElement_def xelems_def elem_ok_def split: if_splits)
  then show ?thesis by blast
next
  case False
  let ?n = "takeWhile (\<lambda>c. c \<noteq> CHR ''['') s" let ?str = "drop (length ?n) s"
  have str: "?str \<noteq> []" using False takeWhile_dropWhile_id [of "\<lambda>c. c \<noteq> CHR ''[''" s]
    by (metis append_take_drop_id append_self_conv takeWhile_eq_take)
  obtain m where m: "parseKeyValueString ?str = Inr m" "xs = [XName ?n, XKeys m]" "idRe ?n"
    using assms False by (auto simp: parseElement_def Let_def res_bind_Inr wrap_err_def split: if_splits sum.splits)
  then have "gomap_ok m \<and> (\<forall>kv \<in> set m. key_ok kv) \<and> m \<noteq> []"
    using key_values_sound [of ?str ?str None False "[]" "[]" m] str by (auto simp: parseKeyValueString_def)
  then have "xs = xelems \<lparr>pe_Name = ?n, pe_Key = m\<rparr>" "elem_ok \<lparr>pe_Name = ?n, pe_Key = m\<rparr>"
    using m by (auto simp: xelems_def elem_ok_def)
  then show ?thesis by blast
qed

lemma parse_elements_sound:
  "parse_elements ss path = Inr xs \<Longrightarrow> \<exists>es. xs = path @ concat (map xelems es) \<and> (\<forall>e \<in> set es. elem_ok e)"
proof (induction ss arbitrary: path)
  case (Cons s ss)
  then obtain parts where parts: "parseElement s = Inr parts" "parse_elements ss (path @ parts) = Inr xs"
    by (auto simp: res_bind_Inr wrap_err_def split: sum.splits if_splits)
  then obtain e es where "parts = xelems e" "elem_ok e" "xs = (path @ parts) @ concat (map xelems es)" "\<forall>e \<in> set es. elem_ok e"
    using Cons.IH parseElement_sound by blast
  then show ?case by (intro exI [of _ "e # es"]) simp
qed (auto intro: exI [of _ "[]"])

lemma ParseStringPath_sound:
  "ParseStringPath s = Inr xs \<Longrightarrow> \<exists>es. xs = concat (map xelems es) \<and> (\<forall>e \<in> set es. elem_ok e)"
  using parse_elements_sound [of _ "[]"] by (auto simp: ParseStringPath_def res_bind_Inr)

text \<open>The two errors of \<open>ToGNMIPath\<close> itself do not occur, and a path it returns has a text.\<close>

lemma ToGNMIPath_error: "ToGNMIPath s = Inl e \<longleftrightarrow> ParseStringPath s = Inl e"
  using ParseStringPath_sound [of s] path_elems_xelems [of _ "[]"] by (cases "ParseStringPath s") (auto simp: ToGNMIPath_def)

lemma ToGNMIPath_elems:
  assumes "ToGNMIPath s = Inr p"
  obtains es where "p = \<lparr>gp_Origin = [], gp_Element = [], gp_Elem = es\<rparr>" "\<forall>e \<in> set es. elem_ok e"
  using assms ParseStringPath_sound [of s] path_elems_xelems [of _ "[]"] by (auto simp: ToGNMIPath_def res_bind_Inr)

text \<open>
  C26: \<open>ToGNMIPath\<close> returns exactly the paths whose names and keys are YANG identifiers and whose
  values are not empty and do not end in a backslash; the text of such a path, with the brackets in its values escaped, is
  read back as the path.
\<close>

theorem ToGNMIPath_accepts:
  "((\<exists>s. ToGNMIPath s = Inr p) \<longleftrightarrow> gp_Origin p = [] \<and> gp_Element p = [] \<and> (\<forall>e \<in> set (gp_Elem p). elem_ok e)) \<and>
   ((\<exists>s. ToGNMIPath s = Inr p) \<longleftrightarrow> ToGNMIPath (print_path (gp_Elem p)) = Inr p)"
proof -
  have "ToGNMIPath (print_path (gp_Elem p)) = Inr p"
    if "gp_Origin p = []" "gp_Element p = []" "\<forall>e \<in> set (gp_Elem p). elem_ok e"
    using ToGNMIPath_print [OF that(3)] that by simp
  moreover have "gp_Origin p = [] \<and> gp_Element p = [] \<and> (\<forall>e \<in> set (gp_Elem p). elem_ok e)" if "ToGNMIPath s = Inr p" for s
    using that by (elim ToGNMIPath_elems) simp
  ultimately show ?thesis by blast
qed

definition demo_path :: gnmi_path where
  "demo_path = \<lparr>gp_Origin = [], gp_Element = [], gp_Elem =
     [\<lparr>pe_Name = ''interface'', pe_Key = [(''name'', ''Ethernet1/1[a]'' @ ''_'')]\<rparr>, \<lparr>pe_Name = ''mtu'', pe_Key = []\<rparr>]\<rparr>"

lemma ToGNMIPath_accepts_witness: "ToGNMIPath (print_path (gp_Elem demo_path)) = Inr demo_path"
proof -
  have "gp_Origin demo_path = [] \<and> gp_Element demo_path = [] \<and> (\<forall>e \<in> set (gp_Elem demo_path). elem_ok e)" by code_simp
  then show ?thesis using ToGNMIPath_accepts [of demo_path] by blast
qed

end
