(* ===== verification/Gnmi_Client.thy ===== *)
theory Gnmi_Client
  imports Gnmi_Xpath
begin

section \<open>The gNMI clients (cmd/gnmi_set, cmd/gnmi_get, cmd/gnmi_capabilities)\<close>

text \<open>
  A client turns its flags into one request. The value of an update is typed by how it is written: a
  quoted string, an integer, a float, a boolean, or else the text itself. The functions of \<open>strconv\<close> that
  decide this come first. The connection and the service are parameters; \<open>log.Exitf\<close> ends the process.
\<close>

subsection \<open>strconv.Unquote\<close>

text \<open>The size of the UTF-8 encoded rune at the beginning of a text, 0 for an invalid one.\<close>

definition byte_in :: "nat \<Rightarrow> nat \<Rightarrow> char \<Rightarrow> bool" where
  "byte_in lo hi c \<longleftrightarrow> lo \<le> (of_char c :: nat) \<and> of_char c \<le> hi"

definition utf8_size :: "string \<Rightarrow> nat" where
  "utf8_size s =
     (case take 4 s of
        [] \<Rightarrow> 0
      | a # s \<Rightarrow>
          let more = (\<lambda>n. n \<le> length s \<and> list_all (byte_in 0x80 0xBF) (take n s));
              second = (\<lambda>lo hi. s \<noteq> [] \<and> byte_in lo hi (hd s))
          in if byte_in 0 0x7F a then 1
             else if byte_in 0xC2 0xDF a then (if more 1 then 2 else 0)
             else if byte_in 0xE0 0xEF a then
               (if more 2 \<and> second (if a = CHR 0xE0 then 0xA0 else 0x80) (if a = CHR 0xED then 0x9F else 0xBF) then 3 else 0)
             else if byte_in 0xF0 0xF4 a then
               (if more 3 \<and> second (if a = CHR 0xF0 then 0x90 else 0x80) (if a = CHR 0xF4 then 0x8F else 0xBF) then 4 else 0)
             else 0)"

definition rune_error :: string where "rune_error = [CHR 0xEF, CHR 0xBF, CHR 0xBD]"

definition encode_rune :: "nat \<Rightarrow> string" where
  "encode_rune r =
     (if r < 0x80 then [char_of r]
      else if r < 0x800 then [char_of (0xC0 + r div 64), char_of (0x80 + r mod 64)]
      else if 0xD800 \<le> r \<and> r < 0xE000 \<or> 0x10FFFF < r then rune_error
      else if r < 0x10000 then [char_of (0xE0 + r div 4096), char_of (0x80 + r div 64 mod 64), char_of (0x80 + r mod 64)]
      else [char_of (0xF0 + r div 262144), char_of (0x80 + r div 4096 mod 64), char_of (0x80 + r div 64 mod 64),
            char_of (0x80 + r mod 64)])"

definition hex_value :: "char \<Rightarrow> nat option" where
  "hex_value c =
     (let n = of_char c in
      if is_digit c then Some (n - 48) else if 97 \<le> n \<and> n \<le> 102 then Some (n - 87)
      else if 65 \<le> n \<and> n \<le> 70 then Some (n - 55) else None)"

definition octal_value :: "char \<Rightarrow> nat option" where
  "octal_value c = (let n = of_char c in if 48 \<le> n \<and> n \<le> 55 then Some (n - 48) else None)"

text \<open>A number of exactly \<open>n\<close> digits in base \<open>b\<close>, and the rest of the text.\<close>

definition fixed_number :: "nat \<Rightarrow> (char \<Rightarrow> nat option) \<Rightarrow> nat \<Rightarrow> string \<Rightarrow> (nat \<times> string) option" where
  "fixed_number b f n s =
     (if length s < n \<or> list_ex (\<lambda>c. f c = None) (take n s) then None
      else Some (foldl (\<lambda>v c. b * v + the (f c)) 0 (take n s), drop n s))"

text \<open>
  An escape after its backslash: the bytes it stands for and the rest. A rune is an \<open>int32\<close>: from
  \<open>2 ^ 31\<close> on the value of an escape with \<open>U\<close> is negative, which passes the test for the largest rune, and its low byte is taken.
\<close>

definition unquote_escape :: "char \<Rightarrow> char \<Rightarrow> string \<Rightarrow> (string \<times> string) option" where
  "unquote_escape quote c s =
     (if c = CHR ''a'' then Some ([CHR 7], s) else if c = CHR ''b'' then Some ([CHR 8], s)
      else if c = CHR ''f'' then Some ([CHR 12], s) else if c = CHR ''n'' then Some ([CHR 10], s)
      else if c = CHR ''r'' then Some ([CHR 13], s) else if c = CHR ''t'' then Some ([CHR 9], s)
      else if c = CHR ''v'' then Some ([CHR 11], s)
      else if c = CHR ''x'' then map_option (apfst (\<lambda>v. [char_of v])) (fixed_number 16 hex_value 2 s)
      else if c = CHR ''u'' then map_option (apfst encode_rune) (fixed_number 16 hex_value 4 s)
      else if c = CHR ''U'' then
        (case fixed_number 16 hex_value 8 s of
           None \<Rightarrow> None
         | Some (v, s) \<Rightarrow>
             if 2 ^ 31 \<le> v then Some ([char_of (v mod 256)], s)
             else if 0x10FFFF < v then None else Some (encode_rune v, s))
      else if octal_value c \<noteq> None then
        (case fixed_number 8 octal_value 3 (c # s) of
           None \<Rightarrow> None
         | Some (v, s) \<Rightarrow> if 255 < v then None else Some ([char_of v], s))
      else if c = backslash then Some ([c], s)
      else if c = CHR 0x27 \<or> c = CHR 0x22 then (if c \<noteq> quote then None else Some ([c], s))
      else None)"

definition unquote_char :: "char \<Rightarrow> string \<Rightarrow> (string \<times> string) option" where
  "unquote_char quote s =
     (case s of
        [] \<Rightarrow> None
      | c # cs \<Rightarrow>
          if c = quote \<and> (quote = CHR 0x27 \<or> quote = CHR 0x22) then None
          else if byte_in 0x80 0xFF c then
            (let n = utf8_size s in if n = 0 then Some (rune_error, cs) else Some (take n s, drop n s))
          else if c \<noteq> backslash then Some ([c], cs)
          else (case cs of [] \<Rightarrow> None | d # ds \<Rightarrow> unquote_escape quote d ds))"

lemma unquote_escape_shorter: "unquote_escape quote c s = Some (x, t) \<Longrightarrow> length t \<le> length s"
  by (auto simp: unquote_escape_def fixed_number_def split: if_splits option.splits)

lemma unquote_char_shorter: "unquote_char quote s = Some (x, t) \<Longrightarrow> length t < length s"
  by (auto simp: unquote_char_def Let_def dest!: unquote_escape_shorter split: list.splits if_splits)

text \<open>
  The loop of \<open>Unquote\<close>: a single-quoted text is a single character. The shortcut of the source for texts without
  escapes gives what the loop gives.
\<close>

function unquote_loop :: "char \<Rightarrow> string \<Rightarrow> string option" where
  "unquote_loop quote [] = Some []"
| "unquote_loop quote (c # cs) =
     (case unquote_char quote (c # cs) of
        None \<Rightarrow> None
      | Some (b, ss) \<Rightarrow>
          if quote = CHR 0x27 \<and> ss \<noteq> [] then None else map_option ((@) b) (unquote_loop quote ss))"
  by pat_completeness auto
termination
  by (relation "measure (\<lambda>(quote, s). length s)") (auto dest: unquote_char_shorter)

definition Unquote :: "string \<Rightarrow> string option" where
  "Unquote s =
     (if length s < 2 then None
      else let quote = hd s; body = butlast (tl s) in
        if quote \<noteq> last s then None
        else if quote = CHR 0x60 then
          (if CHR 0x60 \<in> set body then None else Some (filter (\<lambda>c. c \<noteq> CHR 13) body))
        else if quote \<noteq> CHR 0x22 \<and> quote \<noteq> CHR 0x27 then None
        else if CHR 10 \<in> set body then None
        else unquote_loop quote body)"

subsection \<open>Numbers and booleans\<close>

text \<open>\<open>strconv.ParseFloat(s, 32)\<close>: the nearest \<open>float32\<close>; from \<open>2 ^ 128\<close> on it is out of range.\<close>

definition round32 :: "rat \<Rightarrow> rat" where
  "round32 x =
     (if x = 0 then 0
      else let u = pow2 (max (flog2 x - 23) (- 149)) in of_int (round_even (x / u)) * u)"

definition parse_float32 :: "string \<Rightarrow> gofloat option" where
  "parse_float32 s =
     (case special_float s of
        Some f \<Rightarrow> Some f
      | None \<Rightarrow>
          (case decimal_value s of
             None \<Rightarrow> None
           | Some (neg, x) \<Rightarrow> (let r = round32 x in if r < 2 ^ 128 then Some (Fin neg r) else None)))"

definition ParseBool :: "string \<Rightarrow> bool option" where
  "ParseBool s =
     (if s \<in> {''1'', ''t'', ''T'', ''TRUE'', ''true'', ''True''} then Some True
      else if s \<in> {''0'', ''f'', ''F'', ''FALSE'', ''false'', ''False''} then Some False
      else None)"

subsection \<open>Updates\<close>

text \<open>\<open>log.Exitf\<close>; a panic stays one.\<close>

definition exit_on :: "string \<Rightarrow> 'a res \<Rightarrow> 'a res" where
  "exit_on f r = (case r of Inl e \<Rightarrow> if aborts r then Inl e else Inl (Fatal f) | Inr x \<Rightarrow> Inr x)"

definition pexit_on :: "string \<Rightarrow> ('s, 'a) prog \<Rightarrow> ('s, 'a) prog" where
  "pexit_on f p = (\<lambda>s. case p s of (r, t) \<Rightarrow> (exit_on f r, t))"

text \<open>\<open>strings.SplitN(s, sep, 2)\<close> for a separator of one character.\<close>

definition SplitN2 :: "string \<Rightarrow> char \<Rightarrow> string list" where
  "SplitN2 s sep =
     (let a = takeWhile (\<lambda>c. c \<noteq> sep) s in if a = s then [s] else [a, drop (length a + 1) s])"

text \<open>A value on the command line; \<open>ParseInt\<close> to 64 bits is \<open>Atoi\<close>.\<close>

definition scalar_value :: "string \<Rightarrow> gnmi_value" where
  "scalar_value v =
     (case Unquote v of
        Some strVal \<Rightarrow> StringValue strVal
      | None \<Rightarrow>
          (case Atoi v of
             Inr intVal \<Rightarrow> ScalarValue (JInt intVal)
           | Inl _ \<Rightarrow>
               (case parse_float32 v of
                  Some floatVal \<Rightarrow> ScalarValue (JFloat floatVal)
                | None \<Rightarrow>
                    (case ParseBool v of
                       Some boolVal \<Rightarrow> ScalarValue (JBool boolVal)
                     | None \<Rightarrow> StringValue v))))"

definition build_update :: "'s host_ops \<Rightarrow> string \<Rightarrow> ('s, gnmi_path option \<times> gnmi_value option) prog" where
  "build_update H item =
     (case SplitN2 item (CHR '':'') of
        [path, v] \<Rightarrow>
          if v = [] then pfail (Fatal ''invalid path-value pair: %v'')
          else
            pbind (plift (exit_on ''error in parsing xpath %q to gnmi path'' (ToGNMIPath path))) (\<lambda>pbPath.
              if hd v = CHR ''@'' then
                pbind (pexit_on ''cannot read data from file %v'' (ho_read H (tl v))) (\<lambda>jsonConfig.
                  pret (Some pbPath, Some (JsonIetfVal (Trim jsonConfig [CHR '' '', CHR 13, CHR 10, CHR 9]))))
              else pret (Some pbPath, Some (scalar_value v)))
      | _ \<Rightarrow> pfail (Fatal ''invalid path-value pair: %v''))"

fun build_updates ::
    "'s host_ops \<Rightarrow> string list \<Rightarrow> (gnmi_path option \<times> gnmi_value option) list \<Rightarrow>
     ('s, (gnmi_path option \<times> gnmi_value option) list) prog" where
  "build_updates H [] pbUpdateList = pret pbUpdateList"
| "build_updates H (item # items) pbUpdateList =
     pbind (build_update H item) (\<lambda>u. build_updates H items (pbUpdateList @ [u]))"

definition buildPbUpdateList :: "'s host_ops \<Rightarrow> string list \<Rightarrow> ('s, (gnmi_path option \<times> gnmi_value option) list) prog" where
  "buildPbUpdateList H pathValuePairs = build_updates H pathValuePairs []"

subsection \<open>The commands\<close>

text \<open>A flag that may be given several times collects its values.\<close>

definition arrayFlags_Set :: "string list \<Rightarrow> string \<Rightarrow> string list" where
  "arrayFlags_Set i value = i @ [value]"

fun xpath_list :: "string list \<Rightarrow> gnmi_path list \<Rightarrow> gnmi_path list res" where
  "xpath_list [] ps = Inr ps"
| "xpath_list (xPath # xs) ps =
     res_bind (exit_on ''error in parsing xpath %q to gnmi path'' (ToGNMIPath xPath)) (\<lambda>pbPath. xpath_list xs (ps @ [pbPath]))"

definition gnmi_set_main ::
    "('s, unit) prog \<Rightarrow> (SetRequest \<Rightarrow> ('s, SetResponse) prog) \<Rightarrow> 's host_ops \<Rightarrow>
     string list \<Rightarrow> string list \<Rightarrow> string list \<Rightarrow> ('s, SetResponse) prog" where
  "gnmi_set_main dial cli_Set H deleteOpt replaceOpt updateOpt =
     pseq (pexit_on ''Dialing to %q failed: %v'' dial)
     (pbind (plift (xpath_list deleteOpt [])) (\<lambda>deleteList.
      pbind (buildPbUpdateList H replaceOpt) (\<lambda>replaceList.
      pbind (buildPbUpdateList H updateOpt) (\<lambda>updateList.
        pexit_on ''Set failed: %v''
          (cli_Set \<lparr>sr_Prefix = None, sr_Delete = deleteList, sr_Replace = replaceList, sr_Update = updateList\<rparr>)))))"

definition Encoding_value :: "(string \<times> Encoding) list" where
  "Encoding_value = [(''JSON'', JSON), (''BYTES'', BYTES), (''PROTO'', PROTO), (''ASCII'', ASCII), (''JSON_IETF'', JSON_IETF)]"

fun pbpath_list :: "(string \<Rightarrow> gnmi_path res) \<Rightarrow> string list \<Rightarrow> gnmi_path list \<Rightarrow> gnmi_path list res" where
  "pbpath_list unm [] ps = Inr ps"
| "pbpath_list unm (textPbPath # ts) ps =
     res_bind (exit_on ''error in unmarshaling %q to gnmi Path'' (unm textPbPath)) (\<lambda>pbPath. pbpath_list unm ts (ps @ [pbPath]))"

definition gnmi_get_main ::
    "('s, unit) prog \<Rightarrow> (GetRequest \<Rightarrow> ('s, GetNotification list) prog) \<Rightarrow> (string \<Rightarrow> gnmi_path res) \<Rightarrow>
     string \<Rightarrow> string list \<Rightarrow> string list \<Rightarrow> ('s, GetNotification list) prog" where
  "gnmi_get_main dial cli_Get unm encodingName xPathFlags pbPathFlags =
     pseq (pexit_on ''Dialing to %q failed: %v'' dial)
     (case gget Encoding_value encodingName of
        None \<Rightarrow> pfail (Fatal ''Supported encodings: %s'')
      | Some encoding \<Rightarrow>
          pbind (plift (xpath_list xPathFlags [])) (\<lambda>pbPathList.
          pbind (plift (pbpath_list unm pbPathFlags pbPathList)) (\<lambda>pbPathList.
            pexit_on ''Get failed: %v''
              (cli_Get \<lparr>gr_Prefix = None, gr_Path = pbPathList, gr_Type = TypeAll, gr_Encoding = encoding, gr_UseModels = []\<rparr>))))"

definition gnmi_capabilities_main :: "('s, unit) prog \<Rightarrow> ('s, CapabilityResponse) prog \<Rightarrow> ('s, CapabilityResponse) prog" where
  "gnmi_capabilities_main dial cli_Capabilities =
     pseq (pexit_on ''Dialing to %q failed: %v'' dial)
       (pexit_on ''error in getting capabilities: %v'' cli_Capabilities)"


subsection \<open>Writing a value\<close>

text \<open>A quoted string: quotes, backslashes and everything that is not printable ASCII as escapes.\<close>

definition quote_char :: "char \<Rightarrow> string" where
  "quote_char c =
     (if c = backslash \<or> c = CHR 0x22 \<or> \<not> byte_in 0x20 0x7E c
      then [backslash, CHR ''x'', System.hex_digit (of_char c div 16), System.hex_digit (of_char c mod 16)] else [c])"

definition quote_text :: "string \<Rightarrow> string" where
  "quote_text s = [CHR 0x22] @ concat (map quote_char s) @ [CHR 0x22]"

lemma all_below_16: "d < 16 \<Longrightarrow> P 0 \<Longrightarrow> P 1 \<Longrightarrow> P 2 \<Longrightarrow> P 3 \<Longrightarrow> P 4 \<Longrightarrow> P 5 \<Longrightarrow> P 6 \<Longrightarrow> P 7 \<Longrightarrow> P 8 \<Longrightarrow> P 9 \<Longrightarrow>
    P 10 \<Longrightarrow> P 11 \<Longrightarrow> P 12 \<Longrightarrow> P 13 \<Longrightarrow> P 14 \<Longrightarrow> P 15 \<Longrightarrow> P (d :: nat)"
  by (auto simp: less_Suc_eq numeral_eq_Suc)

lemma hex_value_digit [simp]: "d < 16 \<Longrightarrow> hex_value (System.hex_digit d) = Some d"
  by (erule all_below_16) code_simp+

lemma hex_digit_printable: "d < 16 \<Longrightarrow> byte_in 0x30 0x66 (System.hex_digit d)"
  by (erule all_below_16) code_simp+

lemma unquote_hex:
  "unquote_char (CHR 0x22) (backslash # CHR ''x'' # System.hex_digit (of_char c div 16) # System.hex_digit (of_char c mod 16) # s) =
    Some ([c], s)"
proof -
  have "of_char c div 16 < (16 :: nat)" using nat_of_char_less_256 [of c] by (simp add: div_less_iff_less_mult)
  then show ?thesis
    by (simp add: unquote_char_def unquote_escape_def fixed_number_def byte_in_def backslash_def numeral_2_eq_2)
qed

lemma unquote_quote_char: "unquote_char (CHR 0x22) (quote_char c @ s) = Some ([c], s)"
proof (cases "c = backslash \<or> c = CHR 0x22 \<or> \<not> byte_in 0x20 0x7E c")
  case True
  then have "quote_char c = [backslash, CHR ''x'', System.hex_digit (of_char c div 16), System.hex_digit (of_char c mod 16)]"
    by (simp only: quote_char_def if_True)
  then show ?thesis using unquote_hex [of c s] by simp
next
  case False
  then show ?thesis by (auto simp: quote_char_def unquote_char_def byte_in_def)
qed

lemma unquote_loop_quoted: "unquote_loop (CHR 0x22) (concat (map quote_char s)) = Some s"
proof (induction s)
  case (Cons c s)
  obtain d ds where d: "quote_char c = d # ds" by (cases "quote_char c") (auto simp: quote_char_def split: if_splits)
  show ?case using Cons.IH unquote_quote_char [of c "concat (map quote_char s)"] by (simp add: d)
qed simp

lemma quote_char_printable: "d \<in> set (quote_char c) \<Longrightarrow> byte_in 0x20 0x7E d"
proof -
  assume d: "d \<in> set (quote_char c)"
  have "of_char c div 16 < (16 :: nat)" "of_char c mod 16 < (16 :: nat)"
    using nat_of_char_less_256 [of c] by (simp_all add: div_less_iff_less_mult)
  then have "byte_in 0x30 0x66 (System.hex_digit (of_char c div 16))" "byte_in 0x30 0x66 (System.hex_digit (of_char c mod 16))"
    using hex_digit_printable by blast+
  with d show ?thesis by (auto simp: quote_char_def byte_in_def backslash_def split: if_splits)
qed

lemma Unquote_quote_text: "Unquote (quote_text s) = Some s"
proof -
  have "CHR 10 \<notin> set (concat (map quote_char s))" using quote_char_printable by (fastforce simp: byte_in_def)
  then show ?thesis by (simp add: Unquote_def quote_text_def unquote_loop_quoted)
qed

text \<open>The values that have a text, and the text.\<close>

fun value_text :: "gnmi_value \<Rightarrow> string" where
  "value_text (StringValue s) = quote_text s"
| "value_text (ScalarValue (JInt i)) = itoa i"
| "value_text (ScalarValue (JBool b)) = (if b then ''true'' else ''false'')"
| "value_text _ = []"

fun sendable :: "gnmi_value \<Rightarrow> bool" where
  "sendable (StringValue s) \<longleftrightarrow> True"
| "sendable (ScalarValue (JInt i)) \<longleftrightarrow> - (2 ^ 63) \<le> i \<and> i < 2 ^ 63"
| "sendable (ScalarValue (JBool b)) \<longleftrightarrow> True"
| "sendable _ \<longleftrightarrow> False"

lemma itoa_hd: "\<exists>c cs. itoa i = c # cs \<and> (is_digit c \<or> c = CHR ''-'')"
proof (cases "i < 0")
  case False
  then obtain n where "i = int n" by (metis nonneg_int_cases not_less)
  then show ?thesis using itoa_nat_digits [of _ n] itoa_nat_nonempty [of n] by (cases "itoa_nat n") auto
qed (auto simp: itoa_def)

lemma digit_not_quote: "is_digit c \<or> c = CHR ''-'' \<Longrightarrow> c \<noteq> CHR 0x22 \<and> c \<noteq> CHR 0x27 \<and> c \<noteq> CHR 0x60 \<and> c \<noteq> CHR ''@''"
  by (auto simp: is_digit_def digit_val_def)

lemma Unquote_unquoted: "s = [] \<or> hd s \<notin> {CHR 0x22, CHR 0x27, CHR 0x60} \<Longrightarrow> Unquote s = None"
  by (auto simp: Unquote_def Let_def)

lemma scalar_value_text:
  assumes "sendable v"
  shows "scalar_value (value_text v) = v \<and> value_text v \<noteq> [] \<and> hd (value_text v) \<noteq> CHR ''@''"
proof -
  consider s where "v = StringValue s" | i where "v = ScalarValue (JInt i)" "- (2 ^ 63) \<le> i" "i < 2 ^ 63" | b where "v = ScalarValue (JBool b)"
    using assms by (cases v rule: sendable.cases) auto
  then show ?thesis
  proof cases
    case 1
    then show ?thesis by (simp add: scalar_value_def Unquote_quote_text) (simp add: quote_text_def)
  next
    case 2
    obtain c cs where c: "itoa i = c # cs" "is_digit c \<or> c = CHR ''-''" using itoa_hd by blast
    then have "Unquote (itoa i) = None" using digit_not_quote [of c] by (intro Unquote_unquoted) simp
    then show ?thesis using 2 c digit_not_quote [of c] Atoi_itoa [of i] by (simp add: scalar_value_def)
  next
    case 3
    have "scalar_value ''true'' = ScalarValue (JBool True)" "scalar_value ''false'' = ScalarValue (JBool False)" by code_simp+
    with 3 show ?thesis by simp
  qed
qed

subsection \<open>What a request says\<close>

lemma SplitN2_first:
  assumes "c \<notin> set a"
  shows "SplitN2 (a @ c # b) c = [a, b]"
proof -
  have "takeWhile (\<lambda>x. x \<noteq> c) (a @ c # b) = a" using assms by (intro takeWhile_upto) auto
  then show ?thesis by (simp add: SplitN2_def)
qed

lemma set_escape: "set (escape v) \<subseteq> insert backslash (set v)"
  by (induction v) auto

definition no_colon :: "PathElem \<Rightarrow> bool" where
  "no_colon e \<longleftrightarrow> (\<forall>kv \<in> set (pe_Key e). CHR '':'' \<notin> set (snd kv))"

lemma print_keys_no_colon:
  "\<forall>kv \<in> set ks. key_ok kv \<and> CHR '':'' \<notin> set (snd kv) \<Longrightarrow> CHR '':'' \<notin> set (print_keys ks)"
proof (induction ks)
  case (Cons kv ks)
  obtain k v where kv: "kv = (k, v)" by (cases kv)
  have "CHR '':'' \<notin> set k" "CHR '':'' \<notin> set (escape v)"
    using Cons.prems idRe_chars [of k] set_escape [of v] by (auto simp: kv key_ok_def backslash_def)
  with Cons show ?case by (simp add: kv)
qed simp

lemma print_path_no_colon:
  "\<forall>e \<in> set es. elem_ok e \<and> no_colon e \<Longrightarrow> CHR '':'' \<notin> set (print_path es)"
proof (induction es)
  case (Cons e es)
  have "CHR '':'' \<notin> set (pe_Name e)" using Cons.prems idRe_chars [of "pe_Name e"] by (auto simp: elem_ok_def)
  moreover have "CHR '':'' \<notin> set (print_keys (pe_Key e))"
    using Cons.prems by (intro print_keys_no_colon) (auto simp: elem_ok_def no_colon_def)
  ultimately show ?case using Cons by simp
qed simp

text \<open>An argument \<open>path:value\<close>, and the update it stands for.\<close>

definition update_arg :: "PathElem list \<times> gnmi_value \<Rightarrow> string" where
  "update_arg u = print_path (fst u) @ '':'' @ value_text (snd u)"

definition path_of :: "PathElem list \<Rightarrow> gnmi_path" where
  "path_of es = \<lparr>gp_Origin = [], gp_Element = [], gp_Elem = es\<rparr>"

definition update_ok :: "PathElem list \<times> gnmi_value \<Rightarrow> bool" where
  "update_ok u \<longleftrightarrow> (\<forall>e \<in> set (fst u). elem_ok e \<and> no_colon e) \<and> sendable (snd u)"

lemma build_update_arg:
  assumes "update_ok u"
  shows "build_update H (update_arg u) s = (Inr (Some (path_of (fst u)), Some (snd u)), s)"
proof -
  have "SplitN2 (update_arg u) (CHR '':'') = [print_path (fst u), value_text (snd u)]"
    using SplitN2_first [OF print_path_no_colon] assms by (simp add: update_arg_def update_ok_def)
  moreover have "ToGNMIPath (print_path (fst u)) = Inr (path_of (fst u))"
    using ToGNMIPath_print [of "fst u"] assms by (simp add: path_of_def update_ok_def)
  ultimately show ?thesis using scalar_value_text [of "snd u"] assms
    by (simp add: build_update_def exit_on_def update_ok_def pbind_def plift_def pret_def)
qed

lemma build_updates_args:
  "\<forall>u \<in> set us. update_ok u \<Longrightarrow>
    build_updates H (map update_arg us) acc s = (Inr (acc @ map (\<lambda>u. (Some (path_of (fst u)), Some (snd u))) us), s)"
  by (induction us arbitrary: acc) (simp_all add: build_update_arg pbind_def pret_def)

lemma xpath_list_print:
  "\<forall>es \<in> set ps. \<forall>e \<in> set es. elem_ok e \<Longrightarrow> xpath_list (map print_path ps) acc = Inr (acc @ map path_of ps)"
  by (induction ps arbitrary: acc) (simp_all add: ToGNMIPath_print exit_on_def path_of_def)

text \<open>
  C25: \<open>gnmi_set\<close> sends what its arguments say. For every list of paths to delete and lists of updates, written
  as \<open>path:value\<close> with strings quoted, the server gets one request with exactly these paths and values, in
  order and with their types, and the client ends with the answer of the server. The paths are those that
  have a text, without colons in the values of their keys, and the values are strings, 64-bit integers and booleans.
\<close>

theorem gnmi_set_sends:
  assumes "dial s = (Inr (), s)" "\<forall>es \<in> set dels. \<forall>e \<in> set es. elem_ok e" "\<forall>u \<in> set (reps @ upds). update_ok u"
  shows "gnmi_set_main dial cli_Set H (map print_path dels) (map update_arg reps) (map update_arg upds) s =
    pexit_on ''Set failed: %v'' (cli_Set
      \<lparr>sr_Prefix = None, sr_Delete = map path_of dels,
       sr_Replace = map (\<lambda>u. (Some (path_of (fst u)), Some (snd u))) reps,
       sr_Update = map (\<lambda>u. (Some (path_of (fst u)), Some (snd u))) upds\<rparr>) s"
  using assms
  by (simp add: gnmi_set_main_def buildPbUpdateList_def xpath_list_print build_updates_args pbind_def pseq_def plift_def
      pexit_on_def exit_on_def)

text \<open>A request with a deleted, a replaced and two updated leaves, echoed by the server.\<close>

definition demo_set :: "(SetRequest \<Rightarrow> (unit, SetResponse) prog)" where
  "demo_set req = pret \<lparr>sp_Prefix = None, sp_Response = map (\<lambda>(p, v). \<lparr>ur_Path = p, ur_Op = UPDATE\<rparr>) (sr_Update req)\<rparr>"

lemma gnmi_set_sends_witness:
  "\<exists>H. gnmi_set_main (pret ()) demo_set H [] []
     [update_arg (gp_Elem demo_path, ScalarValue (JInt 9000)), update_arg (gp_Elem demo_path, StringValue ''9000'')] () =
   (Inr \<lparr>sp_Prefix = None, sp_Response = replicate 2 \<lparr>ur_Path = Some demo_path, ur_Op = UPDATE\<rparr>\<rparr>, ())"
proof -
  let ?us = "[(gp_Elem demo_path, ScalarValue (JInt 9000)), (gp_Elem demo_path, StringValue ''9000'')]"
  have "\<forall>u \<in> set ([] @ ?us). update_ok u" by (simp add: update_ok_def) code_simp
  from gnmi_set_sends [of "pret ()" "()" "[]" "[]" ?us demo_set, OF _ _ this] show ?thesis
    by (simp add: demo_set_def pret_def pexit_on_def exit_on_def path_of_def demo_path_def numeral_2_eq_2)
qed

text \<open>A colon in the value of a key ends the path, so that the client gives up.\<close>

lemma colon_in_key_exits:
  "build_update H ''/interface[name=1:2]/mtu:9000'' s = (Inl (Fatal ''error in parsing xpath %q to gnmi path''), s)"
proof -
  have "SplitN2 ''/interface[name=1:2]/mtu:9000'' (CHR '':'') = [''/interface[name=1'', ''2]/mtu:9000'']" by code_simp
  moreover have "exit_on ''error in parsing xpath %q to gnmi path'' (ToGNMIPath ''/interface[name=1'') =
      Inl (Fatal ''error in parsing xpath %q to gnmi path'')" by code_simp
  ultimately show ?thesis by (simp add: build_update_def pbind_def plift_def)
qed

end
