(* ===== verification/Device_Model.thy ===== *)
theory Device_Model
  imports Model
begin

section \<open>The device: LLDP and the schema (pkg/model/packet-transport.go)\<close>

text \<open>
  The rest of the generated package. The structs that the schema of LLDP generates: its interfaces, their
  neighbours, and what a neighbour announces. Two of the four keyed lists have keys that are not strings: an
  enumeration and a struct of three leaves. All of them keep the contract \<open>yang_list\<close>. No command or handler of the
  controller looks at these structs; they are reached by the gNMI server only. At the end the functions that
  look up the schema; what ytypes and ygot do with it is a parameter.
\<close>

subsection \<open>Enumerations\<close>

datatype LLDP_SYSTEM_CAPABILITY =
    CAPABILITY_UNSET
  | CAPABILITY_C_VLAN
  | CAPABILITY_DOCSIS_CABLE_DEVICE
  | CAPABILITY_MAC_BRIDGE
  | CAPABILITY_OTHER
  | CAPABILITY_REPEATER
  | CAPABILITY_ROUTER
  | CAPABILITY_STATION_ONLY
  | CAPABILITY_S_VLAN
  | CAPABILITY_TELEPHONE
  | CAPABILITY_TWO_PORT_MAC_RELAY
  | CAPABILITY_WLAN_ACCESS_POINT

datatype LLDP_TLV =
    TLV_UNSET
  | TLV_CHASSIS_ID
  | TLV_MANAGEMENT_ADDRESS
  | TLV_PORT_DESCRIPTION
  | TLV_PORT_ID
  | TLV_SYSTEM_CAPABILITIES
  | TLV_SYSTEM_DESCRIPTION
  | TLV_SYSTEM_NAME

datatype ChassisIdType =
    ChassisId_UNSET
  | ChassisId_CHASSIS_COMPONENT
  | ChassisId_INTERFACE_ALIAS
  | ChassisId_PORT_COMPONENT
  | ChassisId_MAC_ADDRESS
  | ChassisId_NETWORK_ADDRESS
  | ChassisId_INTERFACE_NAME
  | ChassisId_LOCAL

datatype PortIdType =
    PortId_UNSET
  | PortId_INTERFACE_ALIAS
  | PortId_PORT_COMPONENT
  | PortId_MAC_ADDRESS
  | PortId_NETWORK_ADDRESS
  | PortId_INTERFACE_NAME
  | PortId_AGENT_CIRCUIT_ID
  | PortId_LOCAL

definition system_capability_enum :: "LLDP_SYSTEM_CAPABILITY enum_table" where
  "system_capability_enum =
     [(CAPABILITY_C_VLAN, 1, ''C_VLAN''),
      (CAPABILITY_DOCSIS_CABLE_DEVICE, 2, ''DOCSIS_CABLE_DEVICE''),
      (CAPABILITY_MAC_BRIDGE, 3, ''MAC_BRIDGE''),
      (CAPABILITY_OTHER, 4, ''OTHER''),
      (CAPABILITY_REPEATER, 5, ''REPEATER''),
      (CAPABILITY_ROUTER, 6, ''ROUTER''),
      (CAPABILITY_STATION_ONLY, 7, ''STATION_ONLY''),
      (CAPABILITY_S_VLAN, 8, ''S_VLAN''),
      (CAPABILITY_TELEPHONE, 9, ''TELEPHONE''),
      (CAPABILITY_TWO_PORT_MAC_RELAY, 10, ''TWO_PORT_MAC_RELAY''),
      (CAPABILITY_WLAN_ACCESS_POINT, 11, ''WLAN_ACCESS_POINT'')]"

definition lldp_tlv_enum :: "LLDP_TLV enum_table" where
  "lldp_tlv_enum =
     [(TLV_CHASSIS_ID, 1, ''CHASSIS_ID''),
      (TLV_MANAGEMENT_ADDRESS, 2, ''MANAGEMENT_ADDRESS''),
      (TLV_PORT_DESCRIPTION, 3, ''PORT_DESCRIPTION''),
      (TLV_PORT_ID, 4, ''PORT_ID''),
      (TLV_SYSTEM_CAPABILITIES, 5, ''SYSTEM_CAPABILITIES''),
      (TLV_SYSTEM_DESCRIPTION, 6, ''SYSTEM_DESCRIPTION''),
      (TLV_SYSTEM_NAME, 7, ''SYSTEM_NAME'')]"

definition chassis_id_enum :: "ChassisIdType enum_table" where
  "chassis_id_enum =
     [(ChassisId_CHASSIS_COMPONENT, 1, ''CHASSIS_COMPONENT''),
      (ChassisId_INTERFACE_ALIAS, 2, ''INTERFACE_ALIAS''),
      (ChassisId_PORT_COMPONENT, 3, ''PORT_COMPONENT''),
      (ChassisId_MAC_ADDRESS, 4, ''MAC_ADDRESS''),
      (ChassisId_NETWORK_ADDRESS, 5, ''NETWORK_ADDRESS''),
      (ChassisId_INTERFACE_NAME, 6, ''INTERFACE_NAME''),
      (ChassisId_LOCAL, 7, ''LOCAL'')]"

definition port_id_enum :: "PortIdType enum_table" where
  "port_id_enum =
     [(PortId_INTERFACE_ALIAS, 1, ''INTERFACE_ALIAS''),
      (PortId_PORT_COMPONENT, 2, ''PORT_COMPONENT''),
      (PortId_MAC_ADDRESS, 3, ''MAC_ADDRESS''),
      (PortId_NETWORK_ADDRESS, 4, ''NETWORK_ADDRESS''),
      (PortId_INTERFACE_NAME, 5, ''INTERFACE_NAME''),
      (PortId_AGENT_CIRCUIT_ID, 6, ''AGENT_CIRCUIT_ID''),
      (PortId_LOCAL, 7, ''LOCAL'')]"

interpretation capability: enum_def system_capability_enum CAPABILITY_UNSET
  by unfold_locales (simp_all add: system_capability_enum_def)

interpretation tlv: enum_def lldp_tlv_enum TLV_UNSET
  by unfold_locales (simp_all add: lldp_tlv_enum_def)

interpretation chassis: enum_def chassis_id_enum ChassisId_UNSET
  by unfold_locales (simp_all add: chassis_id_enum_def)

interpretation port_id: enum_def port_id_enum PortId_UNSET
  by unfold_locales (simp_all add: port_id_enum_def)

text \<open>The number that stands for a constant; \<open>UNSET\<close> is 0.\<close>

definition enum_code :: "'e enum_table \<Rightarrow> 'e \<Rightarrow> int" where
  "enum_code tab e = (case map_of tab e of None \<Rightarrow> 0 | Some (c, n) \<Rightarrow> c)"

subsection \<open>Structs\<close>

record Lldp_Counters =
  lc_EntriesAgedOut :: "64 word option"
  lc_FrameDiscard :: "64 word option"
  lc_FrameErrorIn :: "64 word option"
  lc_FrameIn :: "64 word option"
  lc_FrameOut :: "64 word option"
  lc_LastClear :: "string option"
  lc_TlvAccepted :: "64 word option"
  lc_TlvDiscard :: "64 word option"
  lc_TlvUnknown :: "64 word option"

record Lldp_Interface_Counters =
  lic_FrameDiscard :: "64 word option"
  lic_FrameErrorIn :: "64 word option"
  lic_FrameErrorOut :: "64 word option"
  lic_FrameIn :: "64 word option"
  lic_FrameOut :: "64 word option"
  lic_LastClear :: "string option"
  lic_TlvDiscard :: "64 word option"
  lic_TlvUnknown :: "64 word option"

record Neighbor_Capability =
  nc_Enabled :: "bool option"
  nc_Name :: LLDP_SYSTEM_CAPABILITY

record Tlv_Key =
  tk_Type :: "32 word"
  tk_Oui :: string
  tk_OuiSubtype :: string

text \<open>\<open>Binary\<close> is a byte slice; the empty one is nil.\<close>

record Neighbor_Tlv =
  nt_Oui :: "string option"
  nt_OuiSubtype :: "string option"
  nt_Type :: "32 word option"
  nt_Value :: string

record Lldp_Interface_Neighbor =
  ln_Age :: "64 word option"
  ln_Capability :: "(LLDP_SYSTEM_CAPABILITY \<times> Neighbor_Capability) list"
  ln_ChassisId :: "string option"
  ln_ChassisIdType :: ChassisIdType
  ln_Id :: "string option"
  ln_LastUpdate :: "64 word option"
  ln_ManagementAddress :: "string option"
  ln_ManagementAddressType :: "string option"
  ln_PortDescription :: "string option"
  ln_PortId :: "string option"
  ln_PortIdType :: PortIdType
  ln_SystemDescription :: "string option"
  ln_SystemName :: "string option"
  ln_Tlv :: "(Tlv_Key \<times> Neighbor_Tlv) list"
  ln_Ttl :: "16 word option"

record Lldp_Interface =
  li_Counters :: "Lldp_Interface_Counters option"
  li_Enabled :: "bool option"
  li_Name :: "string option"
  li_Neighbor :: "Lldp_Interface_Neighbor gomap"
  li_Snooping :: "bool option"

record Lldp =
  ll_ChassisId :: "string option"
  ll_ChassisIdType :: ChassisIdType
  ll_Counters :: "Lldp_Counters option"
  ll_Enabled :: "bool option"
  ll_HelloTimer :: "64 word option"
  ll_Interface :: "Lldp_Interface gomap"
  ll_SuppressTlvAdvertisement :: "LLDP_TLV list"
  ll_SystemDescription :: "string option"
  ll_SystemName :: "string option"

record Device =
  dev_Lldp :: "Lldp option"
  dev_PacketTransponder :: "PacketTransponder option"

definition zero_Lldp_Interface :: Lldp_Interface where
  "zero_Lldp_Interface =
     \<lparr>li_Counters = None, li_Enabled = None, li_Name = None, li_Neighbor = [], li_Snooping = None\<rparr>"

definition zero_Neighbor :: Lldp_Interface_Neighbor where
  "zero_Neighbor =
     \<lparr>ln_Age = None, ln_Capability = [], ln_ChassisId = None, ln_ChassisIdType = ChassisId_UNSET, ln_Id = None,
      ln_LastUpdate = None, ln_ManagementAddress = None, ln_ManagementAddressType = None, ln_PortDescription = None,
      ln_PortId = None, ln_PortIdType = PortId_UNSET, ln_SystemDescription = None, ln_SystemName = None, ln_Tlv = [],
      ln_Ttl = None\<rparr>"

definition zero_Capability :: Neighbor_Capability where
  "zero_Capability = \<lparr>nc_Enabled = None, nc_Name = CAPABILITY_UNSET\<rparr>"

definition zero_Tlv :: Neighbor_Tlv where
  "zero_Tlv = \<lparr>nt_Oui = None, nt_OuiSubtype = None, nt_Type = None, nt_Value = []\<rparr>"

subsection \<open>List constructors and list keys\<close>

definition Lldp_NewInterface :: "string \<Rightarrow> Lldp \<Rightarrow> Lldp res" where
  "Lldp_NewInterface name t =
     res_bind (list_insert ''Interface'' name name (zero_Lldp_Interface\<lparr>li_Name := Some name\<rparr>) (ll_Interface t))
       (\<lambda>m. Inr (t\<lparr>ll_Interface := m\<rparr>))"

definition NewNeighbor :: "string \<Rightarrow> Lldp_Interface \<Rightarrow> Lldp_Interface res" where
  "NewNeighbor i t =
     res_bind (list_insert ''Neighbor'' i i (zero_Neighbor\<lparr>ln_Id := Some i\<rparr>) (li_Neighbor t))
       (\<lambda>m. Inr (t\<lparr>li_Neighbor := m\<rparr>))"

definition NewCapability :: "LLDP_SYSTEM_CAPABILITY \<Rightarrow> Lldp_Interface_Neighbor \<Rightarrow> Lldp_Interface_Neighbor res" where
  "NewCapability name t =
     res_bind (list_insert ''Capability'' (itoa (enum_code system_capability_enum name)) name
         (zero_Capability\<lparr>nc_Name := name\<rparr>) (ln_Capability t))
       (\<lambda>m. Inr (t\<lparr>ln_Capability := m\<rparr>))"

text \<open>\<open>%v\<close> of the key struct.\<close>

definition show_tlv_key :: "Tlv_Key \<Rightarrow> string" where
  "show_tlv_key k = ''{'' @ itoa (sint (tk_Type k)) @ '' '' @ tk_Oui k @ '' '' @ tk_OuiSubtype k @ ''}''"

definition fresh_tlv :: "Tlv_Key \<Rightarrow> Neighbor_Tlv" where
  "fresh_tlv k = zero_Tlv\<lparr>nt_Type := Some (tk_Type k), nt_Oui := Some (tk_Oui k), nt_OuiSubtype := Some (tk_OuiSubtype k)\<rparr>"

definition NewTlv :: "32 word \<Rightarrow> string \<Rightarrow> string \<Rightarrow> Lldp_Interface_Neighbor \<Rightarrow> Lldp_Interface_Neighbor res" where
  "NewTlv ty oui sub t =
     (let key = \<lparr>tk_Type = ty, tk_Oui = oui, tk_OuiSubtype = sub\<rparr> in
      res_bind (list_insert ''Tlv'' (show_tlv_key key) key (fresh_tlv key) (ln_Tlv t))
        (\<lambda>m. Inr (t\<lparr>ln_Tlv := m\<rparr>)))"

definition Lldp_Interface_ListKeyMap :: "Lldp_Interface \<Rightarrow> (string \<times> keyval) list res" where
  "Lldp_Interface_ListKeyMap t = key_of_name (li_Name t)"

definition Neighbor_ListKeyMap :: "Lldp_Interface_Neighbor \<Rightarrow> (string \<times> keyval) list res" where
  "Neighbor_ListKeyMap t =
     (case ln_Id t of None \<Rightarrow> Inl (Errorf ''nil value for key Id'' []) | Some s \<Rightarrow> Inr [(''id'', KeyString s)])"

definition Capability_ListKeyMap :: "Neighbor_Capability \<Rightarrow> (string \<times> keyval) list res" where
  "Capability_ListKeyMap t = Inr [(''name'', KeyEnum (enum_code system_capability_enum (nc_Name t)))]"

definition Tlv_ListKeyMap :: "Neighbor_Tlv \<Rightarrow> (string \<times> keyval) list res" where
  "Tlv_ListKeyMap t =
     (case nt_Oui t of
        None \<Rightarrow> Inl (Errorf ''nil value for key Oui'' [])
      | Some oui \<Rightarrow>
          (case nt_OuiSubtype t of
             None \<Rightarrow> Inl (Errorf ''nil value for key OuiSubtype'' [])
           | Some sub \<Rightarrow>
               (case nt_Type t of
                  None \<Rightarrow> Inl (Errorf ''nil value for key Type'' [])
                | Some ty \<Rightarrow> Inr [(''oui'', KeyString oui), (''oui-subtype'', KeyString sub), (''type'', KeyInt ty)])))"

interpretation lldp_intf_list: yang_list ll_Interface Lldp_NewInterface "\<lambda>n. zero_Lldp_Interface\<lparr>li_Name := Some n\<rparr>"
    Lldp_Interface_ListKeyMap "\<lambda>n. [(''name'', KeyString n)]"
  by unfold_locales
    (simp_all add: Lldp_NewInterface_def list_insert_fresh list_insert_dup Lldp_Interface_ListKeyMap_def key_of_name_def)

interpretation neighbor_list: yang_list li_Neighbor NewNeighbor "\<lambda>i. zero_Neighbor\<lparr>ln_Id := Some i\<rparr>"
    Neighbor_ListKeyMap "\<lambda>i. [(''id'', KeyString i)]"
  by unfold_locales (simp_all add: NewNeighbor_def list_insert_fresh list_insert_dup Neighbor_ListKeyMap_def)

interpretation capability_list: yang_list ln_Capability NewCapability "\<lambda>n. zero_Capability\<lparr>nc_Name := n\<rparr>"
    Capability_ListKeyMap "\<lambda>n. [(''name'', KeyEnum (enum_code system_capability_enum n))]"
  by unfold_locales (simp_all add: NewCapability_def list_insert_fresh list_insert_dup Capability_ListKeyMap_def)

lemma tlv_key_eta: "\<lparr>tk_Type = tk_Type k, tk_Oui = tk_Oui k, tk_OuiSubtype = tk_OuiSubtype k\<rparr> = k"
  by (cases k) simp

interpretation tlv_list: yang_list ln_Tlv "\<lambda>k. NewTlv (tk_Type k) (tk_Oui k) (tk_OuiSubtype k)" fresh_tlv
    Tlv_ListKeyMap "\<lambda>k. [(''oui'', KeyString (tk_Oui k)), (''oui-subtype'', KeyString (tk_OuiSubtype k)), (''type'', KeyInt (tk_Type k))]"
  by unfold_locales
    (simp_all add: NewTlv_def Let_def tlv_key_eta list_insert_fresh list_insert_dup Tlv_ListKeyMap_def fresh_tlv_def)

text \<open>The key maps tell the entries of a list apart, also where the key is an enumeration or a struct.\<close>

lemma capability_code_inj: "enum_code system_capability_enum a = enum_code system_capability_enum b \<Longrightarrow> a = b"
  by (cases a; cases b) (simp_all add: enum_code_def system_capability_enum_def)

lemma tlv_keys_differ:
  assumes "tlv_list.keyed t" "(k, v) \<in> set (ln_Tlv t)" "(k', v') \<in> set (ln_Tlv t)" "Tlv_ListKeyMap v = Tlv_ListKeyMap v'"
  shows "k = k' \<and> v = v'"
proof -
  have "Tlv_ListKeyMap v = Inr [(''oui'', KeyString (tk_Oui k)), (''oui-subtype'', KeyString (tk_OuiSubtype k)), (''type'', KeyInt (tk_Type k))]"
    "Tlv_ListKeyMap v' = Inr [(''oui'', KeyString (tk_Oui k')), (''oui-subtype'', KeyString (tk_OuiSubtype k')), (''type'', KeyInt (tk_Type k'))]"
    "distinct (map fst (ln_Tlv t))"
    using assms(1-3) unfolding tlv_list.keyed_def by fast+
  moreover from this have "k = k'" using assms(4) by (simp add: Tlv_Key.equality)
  ultimately show ?thesis using assms(2,3) eq_key_imp_eq_value [of "ln_Tlv t" k v v'] by simp
qed

subsection \<open>The schema\<close>

text \<open>
  The libraries, for an arbitrary type of schema entries, JSON trees and structs. A failed
  \<open>ytypes.Unmarshal\<close> may have changed the struct; every caller in the repository that looks at the error drops the struct.
\<close>

record ('e, 'j, 'g) ytypes_lib =
  yt_GzipToSchema :: "string \<Rightarrow> 'e gomap res"
  yt_json :: "string \<Rightarrow> 'j res"
  yt_Unmarshal :: "'e \<Rightarrow> 'g \<Rightarrow> 'j \<Rightarrow> 'g res"
  yt_Validate :: "'e option \<Rightarrow> 'g \<Rightarrow> unit res"

definition UnzipSchema :: "('e, 'j, 'g) ytypes_lib \<Rightarrow> string \<Rightarrow> 'e gomap res" where
  "UnzipSchema Y ySchema =
     (case yt_GzipToSchema Y ySchema of
        Inl e \<Rightarrow> Inl (Errorf ''could not unzip the schema; %v'' [])
      | Inr schemaTree \<Rightarrow> Inr schemaTree)"

text \<open>The package cannot be loaded with a broken schema.\<close>

definition init_schema :: "('e, 'j, 'g) ytypes_lib \<Rightarrow> string \<Rightarrow> 'e gomap res" where
  "init_schema Y ySchema =
     (case UnzipSchema Y ySchema of
        Inl e \<Rightarrow> Inl (Panic ''schema error: '')
      | Inr schemaTree \<Rightarrow> Inr schemaTree)"

definition zero_Device :: Device where
  "zero_Device = \<lparr>dev_Lldp = None, dev_PacketTransponder = None\<rparr>"

definition Unmarshal :: "('e, 'j, 'g) ytypes_lib \<Rightarrow> 'e gomap \<Rightarrow> string \<Rightarrow> string \<Rightarrow> 'g \<Rightarrow> 'g res" where
  "Unmarshal Y SchemaTree tn data destStruct =
     (case gget SchemaTree tn of
        None \<Rightarrow> Inl (Errorf ''could not find schema for type %s'' [tn])
      | Some schema \<Rightarrow> res_bind (yt_json Y data) (\<lambda>jsonTree. yt_Unmarshal Y schema destStruct jsonTree))"

record ('e, 'j, 'g) ytypes_Schema =
  ys_Root :: Device
  ys_SchemaTree :: "'e gomap"
  ys_Unmarshal :: "string \<Rightarrow> string \<Rightarrow> 'g \<Rightarrow> 'g res"

definition Schema :: "('e, 'j, 'g) ytypes_lib \<Rightarrow> 'e gomap \<Rightarrow> string \<Rightarrow> ('e, 'j, 'g) ytypes_Schema res" where
  "Schema Y SchemaTree ySchema =
     (case UnzipSchema Y ySchema of
        Inl e \<Rightarrow> Inl (Errorf ''cannot unzip schema, %v'' [])
      | Inr uzp \<Rightarrow> Inr \<lparr>ys_Root = zero_Device, ys_SchemaTree = uzp, ys_Unmarshal = Unmarshal Y SchemaTree\<rparr>)"

text \<open>The \<open>Validate\<close> method of the struct with the name \<open>tn\<close>; all of them have this body.\<close>

definition Validate_struct :: "('e, 'j, 'g) ytypes_lib \<Rightarrow> 'e gomap \<Rightarrow> string \<Rightarrow> 'g \<Rightarrow> unit res" where
  "Validate_struct Y SchemaTree tn t = res_bind (yt_Validate Y (gget SchemaTree tn) t) (\<lambda>_. Inr ())"

end
